theory Spec2Isabelle
  imports Main "HOL-Library.AList"
begin

section \<open>Values, errors and outcomes\<close>

text \<open>
  A Go \<^verbatim>\<open>string\<close> and a Go \<^verbatim>\<open>[]byte\<close> are both sequences of bytes; the conversions
  \<^verbatim>\<open>[]byte(s)\<close> and \<^verbatim>\<open>string(b)\<close> copy the bytes unchanged.  Both are modelled by
  \<^typ>\<open>string\<close>, whose characters are exactly the 256 byte values.  Byte arithmetic
  is done on the byte's number (\<open>of_char\<close>), and \<open>char_of\<close> keeps the low 8 bits,
  as Go's \<^verbatim>\<open>byte(...)\<close> conversion does.
\<close>

text \<open>
  A Go \<^verbatim>\<open>error\<close> is a value with a message.  The constructors are the errors of the
  standard library that the code can meet, \<open>Msg\<close> for \<^verbatim>\<open>fmt.Errorf\<close> without a cause
  and \<open>Wrap\<close> for \<^verbatim>\<open>fmt.Errorf("prefix: %w", err)\<close>.
\<close>

datatype error =
    HexInvalidByte char
  | HexErrLength
  | Base64CorruptInput nat
  | AesKeySize nat
  | GcmOpenFailed
  | RandFailure
  | FileFailure string
  | KeyringFailure string
  | TransportFailure string
  | Msg string
  | Wrap string error

text \<open>
  A call returns a value, returns an error, or panics (the Go runtime unwinds and no
  caller of this program recovers).
\<close>

datatype 'a result = Ok 'a | Err error | Panicked string

text \<open>
  \<open>on_ok r f\<close> continues with \<open>f\<close> when the call \<open>r\<close> returned a value and stops with
  its error or panic otherwise: Go's \<^verbatim>\<open>x, err := r; if err != nil { return err }\<close>.
  \<open>wrap p r\<close> is the same call whose error is returned as
  \<^verbatim>\<open>fmt.Errorf("p: %w", err)\<close>.
\<close>

fun on_ok :: "'a result \<Rightarrow> ('a \<Rightarrow> 'b result) \<Rightarrow> 'b result" where
  "on_ok (Ok x) f = f x"
| "on_ok (Err e) f = Err e"
| "on_ok (Panicked m) f = Panicked m"

fun wrap :: "string \<Rightarrow> 'a result \<Rightarrow> 'a result" where
  "wrap p (Ok x) = Ok x"
| "wrap p (Err e) = Err (Wrap p e)"
| "wrap p (Panicked m) = Panicked m"

section \<open>Rendering of error messages\<close>

definition digits10 :: string where
  "digits10 = ''0123456789''"

text \<open>\<^verbatim>\<open>strconv.Itoa\<close> on a non-negative number.\<close>

fun itoa :: "nat \<Rightarrow> string" where
  "itoa n = (if n < 10 then [digits10 ! n] else itoa (n div 10) @ [digits10 ! (n mod 10)])"

declare itoa.simps [simp del]

definition upperhex :: string where
  "upperhex = ''0123456789ABCDEF''"

text \<open>\<^verbatim>\<open>strconv.IsPrint\<close> on a rune below 256 (its Latin-1 fast path).\<close>

definition IsPrint :: "nat \<Rightarrow> bool" where
  "IsPrint r = ((32 \<le> r \<and> r \<le> 126) \<or> (161 \<le> r \<and> r \<le> 255 \<and> r \<noteq> 173))"

text \<open>The UTF-8 encoding of the rune of a byte: the byte itself below 128, two bytes above.\<close>

definition utf8 :: "char \<Rightarrow> string" where
  "utf8 c =
     (let r = (of_char c :: nat) in
      if r < 128 then [c] else [char_of (192 + r div 64), char_of (128 + r mod 64)])"

text \<open>The verb \<^verbatim>\<open>%#U\<close> of package fmt on the rune of a byte.\<close>

definition fmt_sharpU :: "char \<Rightarrow> string" where
  "fmt_sharpU c =
     (let r = (of_char c :: nat) in
      ''U+00'' @ [upperhex ! (r div 16), upperhex ! (r mod 16)] @
      (if IsPrint r then '' '' @ [CHR 0x27] @ utf8 c @ [CHR 0x27] else []))"

text \<open>The method \<^verbatim>\<open>Error()\<close>: the message of an error.\<close>

fun error_message :: "error \<Rightarrow> string" where
  "error_message (HexInvalidByte c) = ''encoding/hex: invalid byte: '' @ fmt_sharpU c"
| "error_message HexErrLength = ''encoding/hex: odd length hex string''"
| "error_message (Base64CorruptInput n) = ''illegal base64 data at input byte '' @ itoa n"
| "error_message (AesKeySize k) = ''crypto/aes: invalid key size '' @ itoa k"
| "error_message GcmOpenFailed = ''cipher: message authentication failed''"
| "error_message RandFailure = ''unexpected EOF''"
| "error_message (FileFailure m) = m"
| "error_message (KeyringFailure m) = m"
| "error_message (TransportFailure m) = m"
| "error_message (Msg m) = m"
| "error_message (Wrap p e) = p @ '': '' @ error_message e"

text \<open>The message a caller sees when a call returns an error.\<close>

fun failure_message :: "'a result \<Rightarrow> string option" where
  "failure_message (Err e) = Some (error_message e)"
| "failure_message (Ok x) = None"
| "failure_message (Panicked m) = None"

section \<open>Package encoding/hex\<close>

definition hextable :: string where
  "hextable = ''0123456789abcdef''"

text \<open>\<^verbatim>\<open>hex.EncodeToString\<close>: two lower-case digits per byte, high nibble first.\<close>

fun hex_EncodeToString :: "string \<Rightarrow> string" where
  "hex_EncodeToString [] = []"
| "hex_EncodeToString (v # src) =
     hextable ! (of_char v div 16) # hextable ! (of_char v mod 16) # hex_EncodeToString src"

text \<open>The value of one hexadecimal digit; both cases of the letters are accepted.\<close>

definition fromHexChar :: "char \<Rightarrow> nat option" where
  "fromHexChar c =
     (let n = (of_char c :: nat) in
      if 48 \<le> n \<and> n \<le> 57 then Some (n - 48)
      else if 97 \<le> n \<and> n \<le> 102 then Some (n - 97 + 10)
      else if 65 \<le> n \<and> n \<le> 70 then Some (n - 65 + 10)
      else None)"

text \<open>
  \<^verbatim>\<open>hex.DecodeString\<close>: pairs of digits from the left; the first bad character is
  reported, and an odd length is reported only when the characters are all digits.
\<close>

fun hex_DecodeString :: "string \<Rightarrow> string result" where
  "hex_DecodeString [] = Ok []"
| "hex_DecodeString [p] =
     (case fromHexChar p of None \<Rightarrow> Err (HexInvalidByte p) | Some a \<Rightarrow> Err HexErrLength)"
| "hex_DecodeString (p # q # src) =
     (case fromHexChar p of
        None \<Rightarrow> Err (HexInvalidByte p)
      | Some a \<Rightarrow>
          (case fromHexChar q of
             None \<Rightarrow> Err (HexInvalidByte q)
           | Some b \<Rightarrow>
               (case hex_DecodeString src of
                  Ok out \<Rightarrow> Ok (char_of (a * 16 + b) # out)
                | Err e \<Rightarrow> Err e
                | Panicked m \<Rightarrow> Panicked m)))"

section \<open>Package encoding/base64, the standard encoding\<close>

text \<open>
  The alphabet of \<^verbatim>\<open>base64.StdEncoding\<close>; the padding character is \<open>=\<close>.  The
  decoding table is built from the alphabet: a character's value is its position, and
  a character outside the alphabet has none.
\<close>

definition encodeStd :: string where
  "encodeStd = ''ABCDEFGHIJKLMNOPQRSTUVWXYZabcdefghijklmnopqrstuvwxyz0123456789+/''"

fun index_of :: "'a list \<Rightarrow> 'a \<Rightarrow> nat option" where
  "index_of [] x = None"
| "index_of (y # ys) x = (if x = y then Some 0 else map_option Suc (index_of ys x))"

definition decodeMap :: "char \<Rightarrow> nat option" where
  "decodeMap c = index_of encodeStd c"

text \<open>
  \<^verbatim>\<open>EncodeToString\<close>: three bytes make the 24-bit number \<open>val\<close> (Go's
  \<^verbatim>\<open>b0<<16 | b1<<8 | b2\<close>, here a sum since the bits do not overlap) and its four
  6-bit digits select the characters; a last group of one or two bytes is padded.
\<close>

fun base64_EncodeToString :: "string \<Rightarrow> string" where
  "base64_EncodeToString [] = []"
| "base64_EncodeToString [a] =
     (let val = of_char a * 65536 in
      [encodeStd ! (val div 262144 mod 64), encodeStd ! (val div 4096 mod 64), CHR ''='', CHR ''=''])"
| "base64_EncodeToString [a, b] =
     (let val = of_char a * 65536 + of_char b * 256 in
      [encodeStd ! (val div 262144 mod 64), encodeStd ! (val div 4096 mod 64),
       encodeStd ! (val div 64 mod 64), CHR ''=''])"
| "base64_EncodeToString (a # b # c # src) =
     (let val = of_char a * 65536 + of_char b * 256 + of_char c in
      encodeStd ! (val div 262144 mod 64) # encodeStd ! (val div 4096 mod 64) #
      encodeStd ! (val div 64 mod 64) # encodeStd ! (val mod 64) # base64_EncodeToString src)"

text \<open>
  \<^verbatim>\<open>DecodeString\<close>.  The decoder reads the input from the left; \<open>si\<close> is the index
  of the next character and \<open>dbuf\<close> holds the digits of the current group of four.
  Line feeds and carriage returns are skipped.  Any other character outside the
  alphabet, a group cut short, wrong padding and characters after the padding are
  reported as \<^verbatim>\<open>CorruptInputError\<close> with the index Go reports.  The encoding is not
  strict: unused low bits of a padded group are not checked.
\<close>

fun skip_newlines :: "nat \<Rightarrow> string \<Rightarrow> nat \<times> string" where
  "skip_newlines si [] = (si, [])"
| "skip_newlines si (c # src) =
     (if c = CHR 0x0A \<or> c = CHR 0x0D then skip_newlines (Suc si) src else (si, c # src))"

definition quantum_bytes :: "nat \<Rightarrow> nat \<Rightarrow> nat \<Rightarrow> nat \<Rightarrow> string" where
  "quantum_bytes d0 d1 d2 d3 =
     (let val = d0 * 262144 + d1 * 4096 + d2 * 64 + d3 in
      [char_of (val div 65536), char_of (val div 256), char_of val])"

definition decode_trailing :: "nat list \<Rightarrow> nat \<Rightarrow> string \<Rightarrow> string result" where
  "decode_trailing dbuf si src =
     (case skip_newlines si src of
        (si', []) \<Rightarrow>
          Ok (take (length dbuf - 1) (quantum_bytes (dbuf ! 0) (dbuf ! 1) (if length dbuf = 3 then dbuf ! 2 else 0) 0))
      | (si', c # rest) \<Rightarrow> Err (Base64CorruptInput si'))"

definition decode_padding :: "nat list \<Rightarrow> nat \<Rightarrow> string \<Rightarrow> string result" where
  "decode_padding dbuf si src =
     (if length dbuf < 2 then Err (Base64CorruptInput (si - 1))
      else if length dbuf = 2 then
        (case skip_newlines si src of
           (si', []) \<Rightarrow> Err (Base64CorruptInput si')
         | (si', c # rest) \<Rightarrow>
             if c \<noteq> CHR ''='' then Err (Base64CorruptInput (si' - 1))
             else decode_trailing dbuf (Suc si') rest)
      else decode_trailing dbuf si src)"

fun decode :: "nat list \<Rightarrow> nat \<Rightarrow> string \<Rightarrow> string result" where
  "decode dbuf si [] =
     (if dbuf = [] then Ok [] else Err (Base64CorruptInput (si - length dbuf)))"
| "decode dbuf si (c # src) =
     (case decodeMap c of
        Some out \<Rightarrow>
          (if length dbuf = 3 then
             (case decode [] (Suc si) src of
                Ok rest \<Rightarrow> Ok (quantum_bytes (dbuf ! 0) (dbuf ! 1) (dbuf ! 2) out @ rest)
              | Err e \<Rightarrow> Err e
              | Panicked m \<Rightarrow> Panicked m)
           else decode (dbuf @ [out]) (Suc si) src)
      | None \<Rightarrow>
          if c = CHR 0x0A \<or> c = CHR 0x0D then decode dbuf (Suc si) src
          else if c \<noteq> CHR ''='' then Err (Base64CorruptInput si)
          else decode_padding dbuf (Suc si) src)"

definition base64_DecodeString :: "string \<Rightarrow> string result" where
  "base64_DecodeString s = decode [] 0 s"


section \<open>The cryptographic primitives\<close>

text \<open>
  Argon2id, AES-GCM and the NaCl sealed box come from libraries outside the repository.
  They are taken as parameters: pure functions on byte strings.
  \<^item> \<open>argon2_IDKey password salt time memory threads keyLen\<close> is \<^verbatim>\<open>argon2.IDKey\<close>;
  \<^item> \<open>aesgcm_seal key nonce plaintext\<close> is the ciphertext followed by the tag, and
    \<open>aesgcm_open key nonce ciphertext\<close> is the plaintext when the tag verifies
    (no additional data: the code always passes \<^verbatim>\<open>nil\<close>);
  \<^item> \<open>scalar_base_mult sk\<close> is the X25519 public key of the private key \<open>sk\<close>;
  \<^item> \<open>sealed_box_seal message pk esk\<close> is the anonymous box for the recipient \<open>pk\<close>
    made with the ephemeral private key \<open>esk\<close>, and \<open>sealed_box_open box pk sk\<close>
    opens it.
\<close>

record prims =
  argon2_IDKey :: "string \<Rightarrow> string \<Rightarrow> nat \<Rightarrow> nat \<Rightarrow> nat \<Rightarrow> nat \<Rightarrow> string"
  aesgcm_seal :: "string \<Rightarrow> string \<Rightarrow> string \<Rightarrow> string"
  aesgcm_open :: "string \<Rightarrow> string \<Rightarrow> string \<Rightarrow> string option"
  scalar_base_mult :: "string \<Rightarrow> string"
  sealed_box_seal :: "string \<Rightarrow> string \<Rightarrow> string \<Rightarrow> string"
  sealed_box_open :: "string \<Rightarrow> string \<Rightarrow> string \<Rightarrow> string option"

section \<open>Randomness\<close>

text \<open>
  \<^verbatim>\<open>rand.Reader\<close> is a source of bytes.  Its state is the sequence of bytes it will
  still deliver; \<^verbatim>\<open>io.ReadFull\<close> takes the next \<open>n\<close> of them and fails when the source
  cannot deliver that many.  A function that draws randomness returns the rest of
  the source with its result.
\<close>

definition io_ReadFull :: "string \<Rightarrow> nat \<Rightarrow> (string \<times> string) result" where
  "io_ReadFull rand n =
     (if length rand < n then Err RandFailure else Ok (take n rand, drop n rand))"

section \<open>Packages crypto/aes and crypto/cipher\<close>

text \<open>
  \<^verbatim>\<open>aes.NewCipher\<close> accepts keys of 16, 24 and 32 bytes.  The block, and the AEAD that
  \<^verbatim>\<open>cipher.NewGCM\<close> makes from it, are represented by the key; \<^verbatim>\<open>NewGCM\<close> does not
  fail on an AES block.
\<close>

definition aes_NewCipher :: "string \<Rightarrow> string result" where
  "aes_NewCipher key =
     (if length key = 16 \<or> length key = 24 \<or> length key = 32 then Ok key
      else Err (AesKeySize (length key)))"

definition cipher_NewGCM :: "string \<Rightarrow> string result" where
  "cipher_NewGCM block = Ok block"

definition gcm_NonceSize :: "string \<Rightarrow> nat" where
  "gcm_NonceSize aesGCM = 12"

definition gcm_tagSize :: nat where
  "gcm_tagSize = 16"

definition gcm_maxPlaintext :: nat where
  "gcm_maxPlaintext = (2 ^ 32 - 2) * 16"

text \<open>
  \<^verbatim>\<open>Seal(dst, nonce, plaintext, nil)\<close> appends the sealed message to \<open>dst\<close>.  It panics on
  a nonce of the wrong length and on a message that is too large.
\<close>

definition gcm_Seal :: "'a prims_scheme \<Rightarrow> string \<Rightarrow> string \<Rightarrow> string \<Rightarrow> string \<Rightarrow> string result" where
  "gcm_Seal P aesGCM dst nonce plaintext =
     (if length nonce \<noteq> gcm_NonceSize aesGCM
        then Panicked ''crypto/cipher: incorrect nonce length given to GCM''
      else if gcm_maxPlaintext < length plaintext
        then Panicked ''crypto/cipher: message too large for GCM''
      else Ok (dst @ aesgcm_seal P aesGCM nonce plaintext))"

text \<open>
  \<^verbatim>\<open>Open(dst, nonce, ciphertext, nil)\<close> panics on a nonce of the wrong length.  A
  ciphertext shorter than the tag or longer than any sealed message, and one whose
  tag does not verify, give the one error \<^verbatim>\<open>errOpen\<close>.
\<close>

definition gcm_Open :: "'a prims_scheme \<Rightarrow> string \<Rightarrow> string \<Rightarrow> string \<Rightarrow> string \<Rightarrow> string result" where
  "gcm_Open P aesGCM dst nonce ciphertext =
     (if length nonce \<noteq> gcm_NonceSize aesGCM
        then Panicked ''crypto/cipher: incorrect nonce length given to GCM''
      else if length ciphertext < gcm_tagSize then Err GcmOpenFailed
      else if gcm_maxPlaintext + gcm_tagSize < length ciphertext then Err GcmOpenFailed
      else (case aesgcm_open P aesGCM nonce ciphertext of
              None \<Rightarrow> Err GcmOpenFailed
            | Some plaintext \<Rightarrow> Ok (dst @ plaintext)))"

section \<open>Package nacl/box\<close>

text \<open>
  \<^verbatim>\<open>box.GenerateKey\<close> draws 32 bytes as the private key and returns the public key
  first.  \<^verbatim>\<open>box.SealAnonymous\<close> generates an ephemeral key pair from the source of
  randomness and seals the message for the recipient; \<^verbatim>\<open>box.OpenAnonymous\<close> reports
  success by a flag.
\<close>

definition box_GenerateKey :: "'a prims_scheme \<Rightarrow> string \<Rightarrow> (string \<times> string \<times> string) result" where
  "box_GenerateKey P rand =
     on_ok (io_ReadFull rand 32) (\<lambda>(priv, rand1). Ok (scalar_base_mult P priv, priv, rand1))"

definition box_SealAnonymous :: "'a prims_scheme \<Rightarrow> string \<Rightarrow> string \<Rightarrow> string \<Rightarrow> string \<Rightarrow> (string \<times> string) result" where
  "box_SealAnonymous P out message recipient rand =
     on_ok (box_GenerateKey P rand) (\<lambda>(ephemeralPub, ephemeralPriv, rand1).
       Ok (out @ sealed_box_seal P message recipient ephemeralPriv, rand1))"

definition box_OpenAnonymous :: "'a prims_scheme \<Rightarrow> string \<Rightarrow> string \<Rightarrow> string \<Rightarrow> string \<Rightarrow> string option" where
  "box_OpenAnonymous P out box publicKey privateKey =
     map_option (\<lambda>message. out @ message) (sealed_box_open P box publicKey privateKey)"

section \<open>Package crypto: constants and key derivation\<close>

definition NonceSize :: nat where "NonceSize = 12"
definition KeySize :: nat where "KeySize = 32"
definition SaltSize :: nat where "SaltSize = 32"

definition argonTime :: nat where "argonTime = 3"
definition argonMemory :: nat where "argonMemory = 64 * 1024"
definition argonThreads :: nat where "argonThreads = 4"
definition argonKeyLen :: nat where "argonKeyLen = 32"

definition DeriveKeyFromPassword :: "'a prims_scheme \<Rightarrow> string \<Rightarrow> string \<Rightarrow> string result" where
  "DeriveKeyFromPassword P password saltHex =
     on_ok (wrap ''invalid salt hex'' (hex_DecodeString saltHex)) (\<lambda>salt.
       Ok (argon2_IDKey P password salt argonTime argonMemory argonThreads argonKeyLen))"

text \<open>
  \<^verbatim>\<open>EncryptPrivateKey\<close> returns the base64 text of nonce, ciphertext and tag, the salt in
  hexadecimal, and the rest of the source of randomness.
\<close>

definition EncryptPrivateKey :: "'a prims_scheme \<Rightarrow> string \<Rightarrow> string \<Rightarrow> string \<Rightarrow> (string \<times> string \<times> string) result" where
  "EncryptPrivateKey P rand privateKey password =
     on_ok (wrap ''failed to generate salt'' (io_ReadFull rand SaltSize)) (\<lambda>(salt, rand1).
     let saltHex = hex_EncodeToString salt in
     on_ok (DeriveKeyFromPassword P password saltHex) (\<lambda>derivedKey.
     on_ok (wrap ''failed to create cipher'' (aes_NewCipher derivedKey)) (\<lambda>block.
     on_ok (wrap ''failed to create GCM'' (cipher_NewGCM block)) (\<lambda>aesGCM.
     on_ok (wrap ''failed to generate nonce'' (io_ReadFull rand1 (gcm_NonceSize aesGCM))) (\<lambda>(nonce, rand2).
     on_ok (gcm_Seal P aesGCM nonce nonce privateKey) (\<lambda>ciphertext.
       Ok (base64_EncodeToString ciphertext, saltHex, rand2)))))))"

definition DecryptPrivateKey :: "'a prims_scheme \<Rightarrow> string \<Rightarrow> string \<Rightarrow> string \<Rightarrow> string result" where
  "DecryptPrivateKey P encryptedB64 password saltHex =
     on_ok (wrap ''failed to decode encrypted private key'' (base64_DecodeString encryptedB64)) (\<lambda>ciphertext.
     on_ok (DeriveKeyFromPassword P password saltHex) (\<lambda>derivedKey.
     on_ok (wrap ''failed to create cipher'' (aes_NewCipher derivedKey)) (\<lambda>block.
     on_ok (wrap ''failed to create GCM'' (cipher_NewGCM block)) (\<lambda>aesGCM.
     let nonceSize = gcm_NonceSize aesGCM in
     if length ciphertext < nonceSize then Err (Msg ''ciphertext too short'')
     else
       let nonce = take nonceSize ciphertext; ciphertextBody = drop nonceSize ciphertext in
       on_ok (wrap ''failed to decrypt private key (wrong password?)''
                (gcm_Open P aesGCM [] nonce ciphertextBody)) (\<lambda>privateKey.
         Ok privateKey)))))"

text \<open>\<^verbatim>\<open>GenerateKeypair\<close> returns the private key first.\<close>

definition GenerateKeypair :: "'a prims_scheme \<Rightarrow> string \<Rightarrow> (string \<times> string \<times> string) result" where
  "GenerateKeypair P rand =
     on_ok (wrap ''failed to generate keypair'' (box_GenerateKey P rand)) (\<lambda>(pub, priv, rand1).
       Ok (priv, pub, rand1))"

definition GenerateWorkspaceKey :: "string \<Rightarrow> (string \<times> string) result" where
  "GenerateWorkspaceKey rand =
     on_ok (wrap ''failed to generate workspace key'' (io_ReadFull rand KeySize)) (\<lambda>(key, rand1).
       Ok (key, rand1))"

text \<open>
  \<^verbatim>\<open>EncryptSecret\<close> returns the base64 texts of the ciphertext with its tag and of the
  nonce, and the rest of the source of randomness.
\<close>

definition EncryptSecret :: "'a prims_scheme \<Rightarrow> string \<Rightarrow> string \<Rightarrow> string \<Rightarrow> (string \<times> string \<times> string) result" where
  "EncryptSecret P rand plaintext workspaceKey =
     on_ok (wrap ''failed to create cipher'' (aes_NewCipher workspaceKey)) (\<lambda>block.
     on_ok (wrap ''failed to create GCM'' (cipher_NewGCM block)) (\<lambda>aesGCM.
     on_ok (wrap ''failed to generate nonce'' (io_ReadFull rand (gcm_NonceSize aesGCM))) (\<lambda>(nonce, rand1).
     on_ok (gcm_Seal P aesGCM [] nonce plaintext) (\<lambda>ciphertext.
       Ok (base64_EncodeToString ciphertext, base64_EncodeToString nonce, rand1)))))"

definition DecryptSecret :: "'a prims_scheme \<Rightarrow> string \<Rightarrow> string \<Rightarrow> string \<Rightarrow> string result" where
  "DecryptSecret P ciphertextB64 nonceB64 workspaceKey =
     on_ok (wrap ''failed to decode ciphertext'' (base64_DecodeString ciphertextB64)) (\<lambda>ciphertext.
     on_ok (wrap ''failed to decode nonce'' (base64_DecodeString nonceB64)) (\<lambda>nonce.
     on_ok (wrap ''failed to create cipher'' (aes_NewCipher workspaceKey)) (\<lambda>block.
     on_ok (wrap ''failed to create GCM'' (cipher_NewGCM block)) (\<lambda>aesGCM.
     on_ok (wrap ''failed to decrypt'' (gcm_Open P aesGCM [] nonce ciphertext)) (\<lambda>plaintext.
       Ok plaintext)))))"

text \<open>
  \<^verbatim>\<open>EncryptForUser\<close> and \<^verbatim>\<open>DecryptFromUser\<close> check the key sizes and then copy the
  keys into 32-byte arrays, which leaves a key of 32 bytes as it is.
\<close>

definition EncryptForUser :: "'a prims_scheme \<Rightarrow> string \<Rightarrow> string \<Rightarrow> string \<Rightarrow> (string \<times> string) result" where
  "EncryptForUser P rand recipientPublicKey data =
     (if length recipientPublicKey \<noteq> KeySize
        then Err (Msg (''invalid public key size: got '' @ itoa (length recipientPublicKey) @
                       '', want '' @ itoa KeySize))
      else
        let pubKey = recipientPublicKey in
        on_ok (wrap ''failed to encrypt for user'' (box_SealAnonymous P [] data pubKey rand))
          (\<lambda>(encrypted, rand1). Ok (encrypted, rand1)))"

definition DecryptFromUser :: "'a prims_scheme \<Rightarrow> string \<Rightarrow> string \<Rightarrow> string \<Rightarrow> string result" where
  "DecryptFromUser P privateKey publicKey encrypted =
     (if length privateKey \<noteq> KeySize \<or> length publicKey \<noteq> KeySize
        then Err (Msg ''invalid key size'')
      else
        let privKey = privateKey; pubKey = publicKey in
        (case box_OpenAnonymous P [] encrypted pubKey privKey of
           None \<Rightarrow> Err (Msg ''failed to decrypt: authentication failed'')
         | Some decrypted \<Rightarrow> Ok decrypted))"

text \<open>
  \<^verbatim>\<open>crypto.SetupUser\<close> makes the identity key pair of a new account and encrypts the
  private key under the password.  It returns the keys and the rest of the source of
  randomness.
\<close>

record UserKeys =
  PrivateKey :: string
  PublicKey :: string
  EncryptedPrivateKey :: string
  Salt :: string

definition SetupUser :: "'a prims_scheme \<Rightarrow> string \<Rightarrow> string \<Rightarrow> (UserKeys \<times> string) result" where
  "SetupUser P rand password =
     on_ok (wrap ''setup_user'' (GenerateKeypair P rand)) (\<lambda>(privateKey, publicKey, rand1).
     on_ok (wrap ''setup_user'' (EncryptPrivateKey P rand1 privateKey password))
       (\<lambda>(encryptedPrivateKey, salt, rand2).
         Ok (\<lparr>PrivateKey = privateKey, PublicKey = publicKey,
              EncryptedPrivateKey = encryptedPrivateKey, Salt = salt\<rparr>, rand2)))"

section \<open>Package config\<close>

record WorkspaceCacheEntry =
  Name :: string
  Key :: string
  Role :: string
  Type :: string

text \<open>
  A Go map from workspace identifiers to entries is an association list with distinct
  keys; a nil map and an empty map are both the empty list.  Assignment
  \<^verbatim>\<open>m[k] = v\<close> is \<open>AList.update\<close>.  The order of the list has no meaning for the program:
  a \<^verbatim>\<open>range\<close> loop visits the entries in an order that the Go runtime chooses anew each
  time (see \<open>PerformLogin\<close>).
\<close>

record GlobalConfig =
  Email :: string
  SelectedWorkspaceID :: string
  Workspaces :: "(string \<times> WorkspaceCacheEntry) list"

record TokenConfig =
  AccessToken :: string
  RefreshToken :: string
  ExpiresAt :: string

text \<open>The zero values \<^verbatim>\<open>&GlobalConfig{}\<close> and \<^verbatim>\<open>&TokenConfig{}\<close>.\<close>

definition empty_GlobalConfig :: GlobalConfig where
  "empty_GlobalConfig = \<lparr>Email = [], SelectedWorkspaceID = [], Workspaces = []\<rparr>"

definition empty_TokenConfig :: TokenConfig where
  "empty_TokenConfig = \<lparr>AccessToken = [], RefreshToken = [], ExpiresAt = []\<rparr>"

text \<open>
  The files hold JSON text.  \<^verbatim>\<open>json.MarshalIndent\<close> writes a string byte by byte where
  it is valid UTF-8 and writes the replacement character U+FFFD for every byte that is
  not; \<^verbatim>\<open>json.Unmarshal\<close> reads the text back.  So a string comes back from a file with
  each invalid byte replaced by the three bytes of U+FFFD, and otherwise as it was
  (escapes are undone by the reader).

  \<open>utf8_first\<close> is the table of package \<^verbatim>\<open>unicode/utf8\<close>: for the first byte of an
  encoding of more than one byte, the size of the encoding and the range of the second
  byte.  \<open>utf8_rune_size s\<close> is the size that \<^verbatim>\<open>utf8.DecodeRuneInString(s)\<close> returns when
  \<open>s\<close> starts with a valid encoding, and 0 when it returns \<^verbatim>\<open>RuneError\<close> with size 1 (or
  \<open>s\<close> is empty).
\<close>

definition utf8_first :: "nat \<Rightarrow> (nat \<times> nat \<times> nat) option" where
  "utf8_first s0 =
     (if 194 \<le> s0 \<and> s0 \<le> 223 then Some (2, 128, 191)
      else if s0 = 224 then Some (3, 160, 191)
      else if 225 \<le> s0 \<and> s0 \<le> 236 then Some (3, 128, 191)
      else if s0 = 237 then Some (3, 128, 159)
      else if 238 \<le> s0 \<and> s0 \<le> 239 then Some (3, 128, 191)
      else if s0 = 240 then Some (4, 144, 191)
      else if 241 \<le> s0 \<and> s0 \<le> 243 then Some (4, 128, 191)
      else if s0 = 244 then Some (4, 128, 143)
      else None)"

definition utf8_rune_size :: "string \<Rightarrow> nat" where
  "utf8_rune_size s =
     (case s of
        [] \<Rightarrow> 0
      | s0 # rest \<Rightarrow>
          if (of_char s0 :: nat) < 128 then 1
          else
            (case utf8_first (of_char s0) of
               None \<Rightarrow> 0
             | Some (sz, lo, hi) \<Rightarrow>
                 if length s < sz then 0
                 else if (of_char (s ! 1) :: nat) < lo \<or> hi < (of_char (s ! 1) :: nat) then 0
                 else if sz \<le> 2 then 2
                 else if (of_char (s ! 2) :: nat) < 128 \<or> 191 < (of_char (s ! 2) :: nat) then 0
                 else if sz \<le> 3 then 3
                 else if (of_char (s ! 3) :: nat) < 128 \<or> 191 < (of_char (s ! 3) :: nat) then 0
                 else 4))"

text \<open>
  The same test in one formula: the string is long enough and the bytes after the
  first are in their ranges.
\<close>

definition utf8_accepts :: "string \<Rightarrow> nat \<Rightarrow> nat \<Rightarrow> nat \<Rightarrow> bool" where
  "utf8_accepts s sz lo hi =
     (sz \<le> length s
      \<and> lo \<le> (of_char (s ! 1) :: nat) \<and> (of_char (s ! 1) :: nat) \<le> hi
      \<and> (2 < sz \<longrightarrow> 128 \<le> (of_char (s ! 2) :: nat) \<and> (of_char (s ! 2) :: nat) \<le> 191)
      \<and> (3 < sz \<longrightarrow> 128 \<le> (of_char (s ! 3) :: nat) \<and> (of_char (s ! 3) :: nat) \<le> 191))"

text \<open>What a string is after it was written as JSON text and read back.\<close>

fun json_string :: "string \<Rightarrow> string" where
  "json_string [] = []"
| "json_string (s0 # rest) =
     (if utf8_rune_size (s0 # rest) = 0
        then [CHR 0xEF, CHR 0xBF, CHR 0xBD] @ json_string rest
      else take (utf8_rune_size (s0 # rest)) (s0 # rest) @
           json_string (drop (utf8_rune_size (s0 # rest)) (s0 # rest)))"

text \<open>
  What a value of each of the stored types is after it was written and read back: every
  string of it as above.  The identifiers of the workspaces come out of a JSON decoder
  (the login response, or this file), so they are valid UTF-8 and \<open>json_string\<close> leaves
  them as they are; the case of two identifiers that differ only in invalid bytes,
  which would fall together in the file, does not arise.
\<close>

definition json_WorkspaceCacheEntry :: "WorkspaceCacheEntry \<Rightarrow> WorkspaceCacheEntry" where
  "json_WorkspaceCacheEntry entry =
     \<lparr>Name = json_string (Name entry), Key = json_string (Key entry),
      Role = json_string (Role entry), Type = json_string (Type entry)\<rparr>"

definition json_GlobalConfig :: "GlobalConfig \<Rightarrow> GlobalConfig" where
  "json_GlobalConfig config =
     \<lparr>Email = json_string (Email config),
      SelectedWorkspaceID = json_string (SelectedWorkspaceID config),
      Workspaces = map (\<lambda>(wid, entry). (json_string wid, json_WorkspaceCacheEntry entry))
                     (Workspaces config)\<rparr>"

definition json_TokenConfig :: "TokenConfig \<Rightarrow> TokenConfig" where
  "json_TokenConfig tokens =
     \<lparr>AccessToken = json_string (AccessToken tokens),
      RefreshToken = json_string (RefreshToken tokens),
      ExpiresAt = json_string (ExpiresAt tokens)\<rparr>"

text \<open>
  What is on disk at the path of a JSON file: nothing, an empty file, a file that
  cannot be read, one that is not valid JSON, or the JSON text of a value: \<open>Holds v\<close> is
  the file that \<^verbatim>\<open>json.MarshalIndent\<close> writes for \<open>v\<close>.  The layout of the text is not
  modelled, only what is read back from it.
\<close>

datatype 'a json_file = NoFile | EmptyFile | UnreadableFile | MalformedFile | Holds 'a

text \<open>
  The durable state of one user account on one machine: the home directory that
  \<^verbatim>\<open>HomeDirHook\<close> reports (or its failure), the two files under it, whether
  \<^verbatim>\<open>os.WriteFile\<close> succeeds on each, and the operating system's key store: its entries
  by service and user, and whether its backend works.
\<close>

record world =
  home :: "string option"
  config_json :: "GlobalConfig json_file"
  token_json :: "TokenConfig json_file"
  config_writable :: bool
  token_writable :: bool
  keychain :: "string \<times> string \<Rightarrow> string option"
  keychain_available :: bool

text \<open>
  What a procedure that changes the world reports: nil, an error, or a panic.  Such a
  procedure returns this report together with the world it leaves behind.
\<close>

datatype outcome = Success | Failure error | Crash string

fun and_then :: "outcome \<times> world \<Rightarrow> (world \<Rightarrow> outcome \<times> world) \<Rightarrow> outcome \<times> world" where
  "and_then (Success, w) f = f w"
| "and_then (Failure e, w) f = (Failure e, w)"
| "and_then (Crash m, w) f = (Crash m, w)"

fun wrap_outcome :: "string \<Rightarrow> outcome \<times> world \<Rightarrow> outcome \<times> world" where
  "wrap_outcome p (Success, w) = (Success, w)"
| "wrap_outcome p (Failure e, w) = (Failure (Wrap p e), w)"
| "wrap_outcome p (Crash m, w) = (Crash m, w)"

record Paths =
  GlobalDir :: string
  ConfigFile :: string
  TokenFile :: string

definition GetPaths :: "world \<Rightarrow> Paths result" where
  "GetPaths w =
     (case home w of
        None \<Rightarrow> Err (Wrap ''could not determine home directory'' (FileFailure ''$HOME is not defined''))
      | Some h \<Rightarrow>
          let globalDir = h @ ''/.agentsecrets'' in
          Ok \<lparr>GlobalDir = globalDir,
              ConfigFile = globalDir @ ''/config.json'',
              TokenFile = globalDir @ ''/token.json''\<rparr>)"

text \<open>
  \<^verbatim>\<open>readJSON\<close> leaves the target at its zero value when the file does not exist or is
  empty.  From the text written for a value it reads the value as JSON carries it; the
  first argument is that function for the type of the target (\<^verbatim>\<open>json.Unmarshal\<close> finds
  the type by reflection).  \<^verbatim>\<open>writeJSON\<close> returns the new content of the file.  The cause
  of a failure is worded by the operating system or by the decoder; here it is a fixed
  text, and only the prefix that this package puts before it is the code's.
\<close>

definition readJSON :: "('a \<Rightarrow> 'a) \<Rightarrow> 'a json_file \<Rightarrow> string \<Rightarrow> 'a \<Rightarrow> 'a result" where
  "readJSON unmarshal f path target =
     (case f of
        NoFile \<Rightarrow> Ok target
      | UnreadableFile \<Rightarrow> Err (Wrap (''failed to read '' @ path) (FileFailure ''read error''))
      | EmptyFile \<Rightarrow> Ok target
      | MalformedFile \<Rightarrow> Err (Wrap (''failed to parse '' @ path) (FileFailure ''invalid JSON''))
      | Holds v \<Rightarrow> Ok (unmarshal v))"

definition writeJSON :: "bool \<Rightarrow> string \<Rightarrow> 'a \<Rightarrow> 'a json_file result" where
  "writeJSON writable path data =
     (if writable then Ok (Holds data)
      else Err (Wrap (''failed to write '' @ path) (FileFailure ''write error'')))"

definition LoadGlobalConfig :: "world \<Rightarrow> GlobalConfig result" where
  "LoadGlobalConfig w =
     on_ok (GetPaths w) (\<lambda>paths.
     on_ok (readJSON json_GlobalConfig (config_json w) (ConfigFile paths) empty_GlobalConfig) (\<lambda>config.
       Ok config))"

definition SaveGlobalConfig :: "world \<Rightarrow> GlobalConfig \<Rightarrow> outcome \<times> world" where
  "SaveGlobalConfig w config =
     (case GetPaths w of
        Err e \<Rightarrow> (Failure e, w)
      | Panicked m \<Rightarrow> (Crash m, w)
      | Ok paths \<Rightarrow>
          (case writeJSON (config_writable w) (ConfigFile paths) config of
             Err e \<Rightarrow> (Failure e, w)
           | Panicked m \<Rightarrow> (Crash m, w)
           | Ok f \<Rightarrow> (Success, w\<lparr>config_json := f\<rparr>)))"

definition LoadTokens :: "world \<Rightarrow> TokenConfig result" where
  "LoadTokens w =
     on_ok (GetPaths w) (\<lambda>paths.
     on_ok (readJSON json_TokenConfig (token_json w) (TokenFile paths) empty_TokenConfig) (\<lambda>tokens.
       Ok tokens))"

definition SaveTokens :: "world \<Rightarrow> TokenConfig \<Rightarrow> outcome \<times> world" where
  "SaveTokens w tokens =
     (case GetPaths w of
        Err e \<Rightarrow> (Failure e, w)
      | Panicked m \<Rightarrow> (Crash m, w)
      | Ok paths \<Rightarrow>
          (case writeJSON (token_writable w) (TokenFile paths) tokens of
             Err e \<Rightarrow> (Failure e, w)
           | Panicked m \<Rightarrow> (Crash m, w)
           | Ok f \<Rightarrow> (Success, w\<lparr>token_json := f\<rparr>)))"

text \<open>
  The convenience functions.  A getter returns the empty string when the file cannot
  be loaded; a setter then starts from the zero value.
\<close>

definition loaded_or_empty :: "world \<Rightarrow> GlobalConfig" where
  "loaded_or_empty w =
     (case LoadGlobalConfig w of
        Ok config \<Rightarrow> config
      | Err e \<Rightarrow> empty_GlobalConfig
      | Panicked m \<Rightarrow> empty_GlobalConfig)"

definition GetEmail :: "world \<Rightarrow> string" where
  "GetEmail w =
     (case LoadGlobalConfig w of
        Ok config \<Rightarrow> Email config
      | Err e \<Rightarrow> []
      | Panicked m \<Rightarrow> [])"

definition SetEmail :: "world \<Rightarrow> string \<Rightarrow> outcome \<times> world" where
  "SetEmail w email =
     (let config = loaded_or_empty w in
      SaveGlobalConfig w (config\<lparr>Email := email\<rparr>))"

definition GetAccessToken :: "world \<Rightarrow> string" where
  "GetAccessToken w =
     (case LoadTokens w of
        Ok tokens \<Rightarrow> AccessToken tokens
      | Err e \<Rightarrow> []
      | Panicked m \<Rightarrow> [])"

definition StoreTokens :: "world \<Rightarrow> string \<Rightarrow> string \<Rightarrow> string \<Rightarrow> outcome \<times> world" where
  "StoreTokens w accessToken refreshToken expiresAt =
     SaveTokens w \<lparr>AccessToken = accessToken, RefreshToken = refreshToken, ExpiresAt = expiresAt\<rparr>"

definition GetSelectedWorkspaceID :: "world \<Rightarrow> string" where
  "GetSelectedWorkspaceID w =
     (case LoadGlobalConfig w of
        Ok config \<Rightarrow> SelectedWorkspaceID config
      | Err e \<Rightarrow> []
      | Panicked m \<Rightarrow> [])"

definition SetSelectedWorkspaceID :: "world \<Rightarrow> string \<Rightarrow> outcome \<times> world" where
  "SetSelectedWorkspaceID w wid =
     (let config = loaded_or_empty w in
      SaveGlobalConfig w (config\<lparr>SelectedWorkspaceID := wid\<rparr>))"

definition StoreWorkspaceCache :: "world \<Rightarrow> (string \<times> WorkspaceCacheEntry) list \<Rightarrow> outcome \<times> world" where
  "StoreWorkspaceCache w workspaces =
     (let config = loaded_or_empty w in
      SaveGlobalConfig w (config\<lparr>Workspaces := workspaces\<rparr>))"

definition IsAuthenticated :: "world \<Rightarrow> bool" where
  "IsAuthenticated w = (GetAccessToken w \<noteq> [] \<and> GetEmail w \<noteq> [])"

definition ClearSession :: "world \<Rightarrow> outcome \<times> world" where
  "ClearSession w =
     (case GetPaths w of
        Err e \<Rightarrow> (Failure e, w)
      | Panicked m \<Rightarrow> (Crash m, w)
      | Ok paths \<Rightarrow>
          (case writeJSON (config_writable w) (ConfigFile paths) empty_GlobalConfig of
             Err e \<Rightarrow> (Failure e, w)
           | Panicked m \<Rightarrow> (Crash m, w)
           | Ok f \<Rightarrow>
               let w1 = w\<lparr>config_json := f\<rparr> in
               (case writeJSON (token_writable w1) (TokenFile paths) empty_TokenConfig of
                  Err e \<Rightarrow> (Failure e, w1)
                | Panicked m \<Rightarrow> (Crash m, w1)
                | Ok g \<Rightarrow> (Success, w1\<lparr>token_json := g\<rparr>))))"

section \<open>Package keyring\<close>

definition serviceName :: string where
  "serviceName = ''AgentSecrets''"

text \<open>
  The key store of the operating system (package go-keyring).  \<^verbatim>\<open>Set\<close> stores a secret
  under service and user; \<^verbatim>\<open>Delete\<close> removes it and reports an error when there is
  none; both fail when the backend does not work.
\<close>

definition gokeyring_Set :: "world \<Rightarrow> string \<Rightarrow> string \<Rightarrow> string \<Rightarrow> outcome \<times> world" where
  "gokeyring_Set w service user password =
     (if keychain_available w
      then (Success, w\<lparr>keychain := (keychain w)((service, user) \<mapsto> password)\<rparr>)
      else (Failure (KeyringFailure ''keyring backend unavailable''), w))"

definition gokeyring_Delete :: "world \<Rightarrow> string \<Rightarrow> string \<Rightarrow> outcome \<times> world" where
  "gokeyring_Delete w service user =
     (if \<not> keychain_available w then (Failure (KeyringFailure ''keyring backend unavailable''), w)
      else if keychain w (service, user) = None
        then (Failure (KeyringFailure ''secret not found in keyring''), w)
      else (Success, w\<lparr>keychain := (keychain w)((service, user) := None)\<rparr>))"

definition StoreKeypair :: "world \<Rightarrow> string \<Rightarrow> string \<Rightarrow> string \<Rightarrow> outcome \<times> world" where
  "StoreKeypair w email privateKey publicKey =
     (let privB64 = base64_EncodeToString privateKey;
          pubB64 = base64_EncodeToString publicKey in
      and_then (wrap_outcome ''failed to store private key''
                  (gokeyring_Set w serviceName (email @ ''_private_key'') privB64)) (\<lambda>w1.
      and_then (wrap_outcome ''failed to store public key''
                  (gokeyring_Set w1 serviceName (email @ ''_public_key'') pubB64)) (\<lambda>w2.
        (Success, w2))))"

text \<open>\<^verbatim>\<open>DeleteKeypair\<close> ignores the errors of both deletions and returns nil.\<close>

definition DeleteKeypair :: "world \<Rightarrow> string \<Rightarrow> outcome \<times> world" where
  "DeleteKeypair w email =
     (let w1 = snd (gokeyring_Delete w serviceName (email @ ''_private_key''));
          w2 = snd (gokeyring_Delete w1 serviceName (email @ ''_public_key'')) in
      (Success, w2))"

section \<open>Package auth\<close>

text \<open>The shape of the login response, as the JSON decoder fills it.\<close>

record loginWorkspace =
  ws_ID :: string
  ws_Name :: string
  ws_EncryptedWorkspaceKey :: string
  ws_Role :: string
  ws_Type :: string

record loginUser =
  user_PublicKey :: string
  user_Email :: string

record loginData =
  data_Access :: string
  data_Refresh :: string
  data_ExpiresAt :: string
  data_EncryptedPrivateKey :: string
  data_KeySalt :: string
  data_User :: loginUser
  data_Workspaces :: "loginWorkspace list"

record loginResponse =
  resp_AccessToken :: string
  resp_RefreshToken :: string
  resp_ExpiresAt :: string
  resp_Data :: loginData

text \<open>
  An HTTP response: its status code and what the two JSON decoders of this package
  make of its body.  \<open>body_login\<close> is the body decoded as a login response (\<open>None\<close>
  when it is not JSON), \<open>body_message\<close> is the field \<^verbatim>\<open>message\<close> of the body decoded
  as an error (\<open>None\<close> when it is not JSON).
\<close>

record http_response =
  StatusCode :: nat
  body_login :: "loginResponse option"
  body_message :: "string option"

text \<open>
  The transport, \<^verbatim>\<open>s.API.Call(endpointKey, method, data, nil)\<close>: any function from the
  request to a response or an error.  The request body is a list of fields.
\<close>

type_synonym api_client = "string \<Rightarrow> string \<Rightarrow> (string \<times> string) list \<Rightarrow> http_response result"

definition parseAPIError :: "http_response \<Rightarrow> string \<Rightarrow> error" where
  "parseAPIError resp context =
     (case body_message resp of
        Some message \<Rightarrow>
          if message \<noteq> [] then Msg (context @ '' failed: '' @ message)
          else Msg (context @ '' failed: HTTP '' @ itoa (StatusCode resp))
      | None \<Rightarrow> Msg (context @ '' failed: HTTP '' @ itoa (StatusCode resp)))"

fun coalesce :: "string list \<Rightarrow> string" where
  "coalesce [] = []"
| "coalesce (v # values) = (if v \<noteq> [] then v else coalesce values)"

text \<open>
  Step 2 of \<^verbatim>\<open>PerformLogin\<close>: the identity key pair.  The private key is given (the
  signup flow, \<open>Some\<close>) or nil (the login flow, \<open>None\<close>); in the login flow both keys
  come from the response.
\<close>

definition PerformLogin_keys ::
  "'a prims_scheme \<Rightarrow> loginResponse \<Rightarrow> string \<Rightarrow> string option \<Rightarrow> string \<Rightarrow> (string \<times> string) result" where
  "PerformLogin_keys P loginResp password privateKey publicKey =
     (case privateKey of
        Some key \<Rightarrow> Ok (key, publicKey)
      | None \<Rightarrow>
          let encPrivKey = data_EncryptedPrivateKey (resp_Data loginResp);
              salt = data_KeySalt (resp_Data loginResp);
              pubKeyB64 = user_PublicKey (data_User (resp_Data loginResp)) in
          if encPrivKey = [] \<or> salt = [] \<or> pubKeyB64 = []
            then Err (Msg ''login: encryption keys missing from server response'')
          else
            on_ok (wrap ''login'' (DecryptPrivateKey P encPrivKey password salt)) (\<lambda>privateKey.
            on_ok (wrap ''login: invalid public key in response'' (base64_DecodeString pubKeyB64))
              (\<lambda>publicKey. Ok (privateKey, publicKey))))"

text \<open>
  Step 4 of \<^verbatim>\<open>PerformLogin\<close>: the loop over the workspaces of the response.  An entry
  whose sealed key does not decode or does not open is skipped.
\<close>

fun PerformLogin_workspaces ::
  "'a prims_scheme \<Rightarrow> string \<Rightarrow> string \<Rightarrow> loginWorkspace list \<Rightarrow>
   (string \<times> WorkspaceCacheEntry) list \<Rightarrow> (string \<times> WorkspaceCacheEntry) list" where
  "PerformLogin_workspaces P privateKey publicKey [] workspaceCache = workspaceCache"
| "PerformLogin_workspaces P privateKey publicKey (ws # rest) workspaceCache =
     (case base64_DecodeString (ws_EncryptedWorkspaceKey ws) of
        Err e \<Rightarrow> PerformLogin_workspaces P privateKey publicKey rest workspaceCache
      | Panicked m \<Rightarrow> PerformLogin_workspaces P privateKey publicKey rest workspaceCache
      | Ok encryptedWsKey \<Rightarrow>
          (case DecryptFromUser P privateKey publicKey encryptedWsKey of
             Err e \<Rightarrow> PerformLogin_workspaces P privateKey publicKey rest workspaceCache
           | Panicked m \<Rightarrow> PerformLogin_workspaces P privateKey publicKey rest workspaceCache
           | Ok wsKey \<Rightarrow>
               PerformLogin_workspaces P privateKey publicKey rest
                 (AList.update (ws_ID ws)
                    \<lparr>Name = ws_Name ws, Key = base64_EncodeToString wsKey,
                     Role = ws_Role ws, Type = ws_Type ws\<rparr>
                    workspaceCache)))"

text \<open>
  Step 5 of \<^verbatim>\<open>PerformLogin\<close>: the default workspace.  Each of the two \<^verbatim>\<open>range\<close> loops
  over the cache visits the entries in an order of the runtime's choice, \<open>order1\<close> and
  \<open>order2\<close>; the first loop stops at the first personal entry it meets, the second at
  the first entry.  Errors of \<^verbatim>\<open>SetSelectedWorkspaceID\<close> are ignored.
\<close>

definition PerformLogin_select ::
  "((string \<times> WorkspaceCacheEntry) list \<Rightarrow> (string \<times> WorkspaceCacheEntry) list) \<Rightarrow>
   ((string \<times> WorkspaceCacheEntry) list \<Rightarrow> (string \<times> WorkspaceCacheEntry) list) \<Rightarrow>
   world \<Rightarrow> (string \<times> WorkspaceCacheEntry) list \<Rightarrow> world" where
  "PerformLogin_select order1 order2 w workspaceCache =
     (if GetSelectedWorkspaceID w = [] then
        let w1 = (case find (\<lambda>(wid, ws). Type ws = ''personal'') (order1 workspaceCache) of
                    Some (wid, ws) \<Rightarrow> snd (SetSelectedWorkspaceID w wid)
                  | None \<Rightarrow> w) in
        if GetSelectedWorkspaceID w1 = [] then
          (case order2 workspaceCache of
             (wid, ws) # rest \<Rightarrow> snd (SetSelectedWorkspaceID w1 wid)
           | [] \<Rightarrow> w1)
        else w1
      else w)"

text \<open>
  Steps 3 to 5 of \<^verbatim>\<open>PerformLogin\<close>: what is stored once the response is parsed and the
  key pair is known.
\<close>

definition PerformLogin_store ::
  "'a prims_scheme \<Rightarrow>
   ((string \<times> WorkspaceCacheEntry) list \<Rightarrow> (string \<times> WorkspaceCacheEntry) list) \<Rightarrow>
   ((string \<times> WorkspaceCacheEntry) list \<Rightarrow> (string \<times> WorkspaceCacheEntry) list) \<Rightarrow>
   world \<Rightarrow> string \<Rightarrow> loginResponse \<Rightarrow> string \<Rightarrow> string \<Rightarrow> outcome \<times> world" where
  "PerformLogin_store P order1 order2 w email loginResp privateKey publicKey =
     and_then (wrap_outcome ''login: failed to save email'' (SetEmail w email)) (\<lambda>w1.
     let accessToken = coalesce [resp_AccessToken loginResp, data_Access (resp_Data loginResp)];
         refreshToken = coalesce [resp_RefreshToken loginResp, data_Refresh (resp_Data loginResp)];
         expiresAt = coalesce [resp_ExpiresAt loginResp, data_ExpiresAt (resp_Data loginResp)] in
     and_then (wrap_outcome ''login: failed to save tokens''
                 (StoreTokens w1 accessToken refreshToken expiresAt)) (\<lambda>w2.
     and_then (wrap_outcome ''login: failed to save keypair''
                 (StoreKeypair w2 email privateKey publicKey)) (\<lambda>w3.
     let workspaceCache =
           PerformLogin_workspaces P privateKey publicKey (data_Workspaces (resp_Data loginResp)) [] in
     if length workspaceCache > 0 then
       and_then (wrap_outcome ''login: failed to cache workspace keys''
                   (StoreWorkspaceCache w3 workspaceCache)) (\<lambda>w4.
         (Success, PerformLogin_select order1 order2 w4 workspaceCache))
     else (Success, w3))))"

definition PerformLogin ::
  "'a prims_scheme \<Rightarrow> api_client \<Rightarrow>
   ((string \<times> WorkspaceCacheEntry) list \<Rightarrow> (string \<times> WorkspaceCacheEntry) list) \<Rightarrow>
   ((string \<times> WorkspaceCacheEntry) list \<Rightarrow> (string \<times> WorkspaceCacheEntry) list) \<Rightarrow>
   world \<Rightarrow> string \<Rightarrow> string \<Rightarrow> string option \<Rightarrow> string \<Rightarrow> outcome \<times> world" where
  "PerformLogin P API order1 order2 w email password privateKey publicKey =
     (case API ''auth.login'' ''POST'' [(''email'', email), (''password'', password)] of
        Err e \<Rightarrow> (Failure (Wrap ''login: API call failed'' e), w)
      | Panicked m \<Rightarrow> (Crash m, w)
      | Ok resp \<Rightarrow>
          if StatusCode resp \<noteq> 200 then (Failure (parseAPIError resp ''login''), w)
          else
            (case body_login resp of
               None \<Rightarrow> (Failure (Wrap ''login: failed to parse response'' (Msg ''invalid JSON'')), w)
             | Some loginResp \<Rightarrow>
                 (case PerformLogin_keys P loginResp password privateKey publicKey of
                    Err e \<Rightarrow> (Failure e, w)
                  | Panicked m \<Rightarrow> (Crash m, w)
                  | Ok (privateKey, publicKey) \<Rightarrow>
                      PerformLogin_store P order1 order2 w email loginResp privateKey publicKey)))"

text \<open>
  \<^verbatim>\<open>Signup\<close>: the keys are made, the registration is sent, and on status 201 the
  account is logged in with the key pair just made.  \<open>signup_data\<close> is the body of the
  registration request.
\<close>

record SignupRequest =
  req_FirstName :: string
  req_LastName :: string
  req_Email :: string
  req_Password :: string

definition signup_data :: "SignupRequest \<Rightarrow> UserKeys \<Rightarrow> (string \<times> string) list" where
  "signup_data req keys =
     [(''first_name'', req_FirstName req),
      (''last_name'', req_LastName req),
      (''email'', req_Email req),
      (''password'', req_Password req),
      (''public_key'', base64_EncodeToString (PublicKey keys)),
      (''encrypted_private_key'', EncryptedPrivateKey keys),
      (''key_salt'', Salt keys),
      (''terms_agreement'', ''true'')]"

definition Signup ::
  "'a prims_scheme \<Rightarrow> api_client \<Rightarrow>
   ((string \<times> WorkspaceCacheEntry) list \<Rightarrow> (string \<times> WorkspaceCacheEntry) list) \<Rightarrow>
   ((string \<times> WorkspaceCacheEntry) list \<Rightarrow> (string \<times> WorkspaceCacheEntry) list) \<Rightarrow>
   string \<Rightarrow> world \<Rightarrow> SignupRequest \<Rightarrow> outcome \<times> world" where
  "Signup P API order1 order2 rand w req =
     (case SetupUser P rand (req_Password req) of
        Err e \<Rightarrow> (Failure (Wrap ''signup'' e), w)
      | Panicked m \<Rightarrow> (Crash m, w)
      | Ok (keys, rand1) \<Rightarrow>
          (case API ''auth.signup'' ''POST'' (signup_data req keys) of
             Err e \<Rightarrow> (Failure (Wrap ''signup: API call failed'' e), w)
           | Panicked m \<Rightarrow> (Crash m, w)
           | Ok resp \<Rightarrow>
               if StatusCode resp \<noteq> 201 then (Failure (parseAPIError resp ''signup''), w)
               else PerformLogin P API order1 order2 w (req_Email req) (req_Password req)
                      (Some (PrivateKey keys)) (PublicKey keys)))"

text \<open>\<^verbatim>\<open>Logout\<close>: the answer of the transport is dropped, an error as well as a response.\<close>

definition Logout :: "api_client \<Rightarrow> world \<Rightarrow> outcome \<times> world" where
  "Logout API w =
     (let email = GetEmail w in
      (case API ''auth.logout'' ''POST'' [] of
         Panicked m \<Rightarrow> (Crash m, w)
       | Err e \<Rightarrow>
           let w1 = (if email \<noteq> [] then snd (DeleteKeypair w email) else w) in
           ClearSession w1
       | Ok resp \<Rightarrow>
           let w1 = (if email \<noteq> [] then snd (DeleteKeypair w email) else w) in
           ClearSession w1))"

section \<open>What is assumed of the primitives\<close>

text \<open>Argon2id returns as many bytes as it is asked for.\<close>

definition argon2_length :: "'a prims_scheme \<Rightarrow> bool" where
  "argon2_length P = (\<forall>pw salt t m th n. length (argon2_IDKey P pw salt t m th n) = n)"

text \<open>
  AES-GCM is correct: under an AES key and a 12-byte nonce, opening what was sealed
  gives the plaintext back, and sealing adds the 16 bytes of the tag.
\<close>

definition gcm_correct :: "'a prims_scheme \<Rightarrow> bool" where
  "gcm_correct P =
     (\<forall>key nonce plaintext.
        (length key = 16 \<or> length key = 24 \<or> length key = 32) \<and> length nonce = 12 \<longrightarrow>
        aesgcm_open P key nonce (aesgcm_seal P key nonce plaintext) = Some plaintext \<and>
        length (aesgcm_seal P key nonce plaintext) = length plaintext + 16)"

text \<open>
  The sealed box is correct: the public key of a 32-byte private key has 32 bytes, and
  a box sealed for it, with any 32-byte ephemeral key, opens under the pair.
\<close>

definition box_correct :: "'a prims_scheme \<Rightarrow> bool" where
  "box_correct P =
     (\<forall>sk. length sk = 32 \<longrightarrow>
        length (scalar_base_mult P sk) = 32 \<and>
        (\<forall>esk message. length esk = 32 \<longrightarrow>
           sealed_box_open P (sealed_box_seal P message (scalar_base_mult P sk) esk)
             (scalar_base_mult P sk) sk = Some message))"

text \<open>
  What "a valid hexadecimal string" means for a salt: an even number of characters,
  each of them a hexadecimal digit in either case.
\<close>

definition valid_hex_string :: "string \<Rightarrow> bool" where
  "valid_hex_string s = (even (length s) \<and> (\<forall>c \<in> set s. c \<in> set ''0123456789abcdefABCDEF''))"

text \<open>
  A stand-in for the primitives, simple enough to compute with: the derived key is cut
  from password and salt, the "cipher" appends a 16-byte tag made from the nonce and
  the key, and the "box" prepends the ephemeral public key and the recipient's key.
  It shows that the assumptions above can be met together; nothing else depends on it.
\<close>

definition demo_tag :: "string \<Rightarrow> string \<Rightarrow> string" where
  "demo_tag key nonce = take 16 (nonce @ key @ replicate 16 (CHR 0x00))"

definition demo_prims :: prims where
  "demo_prims = \<lparr>
     argon2_IDKey = (\<lambda>pw salt t m th n. take n (pw @ salt @ replicate n (CHR 0x00))),
     aesgcm_seal = (\<lambda>key nonce plaintext. plaintext @ demo_tag key nonce),
     aesgcm_open = (\<lambda>key nonce ct.
        if 16 \<le> length ct \<and> drop (length ct - 16) ct = demo_tag key nonce
        then Some (take (length ct - 16) ct) else None),
     scalar_base_mult = rev,
     sealed_box_seal = (\<lambda>message pk esk. rev esk @ pk @ message),
     sealed_box_open = (\<lambda>box pk sk.
        if 64 \<le> length box \<and> take 32 (drop 32 box) = pk \<and> rev sk = pk
        then Some (drop 64 box) else None) \<rparr>"

text \<open>Inputs for the examples: a key of 32 zero bytes and a source of 80 bytes.\<close>

definition zero_key :: string where
  "zero_key = replicate 32 (CHR 0x00)"

definition demo_rand :: string where
  "demo_rand = ''0123456789abcdefghijklmnopqrstuvwxyzABCDEFGHIJKLMNOPQRSTUVWXYZ0123456789abcdefgh''"

section \<open>Notions used in the statements about login and logout\<close>

text \<open>The durable stores work: the home directory is known, both files can be written
  and the key store is available.\<close>

definition storage_works :: "world \<Rightarrow> bool" where
  "storage_works w =
     (home w \<noteq> None \<and> config_writable w \<and> token_writable w \<and> keychain_available w)"

text \<open>
  The workspace key of an entry of the login response under a key pair, when its sealed
  blob decodes and opens; the entry is valid when there is one.
\<close>

definition sealed_key :: "'a prims_scheme \<Rightarrow> string \<Rightarrow> string \<Rightarrow> loginWorkspace \<Rightarrow> string option" where
  "sealed_key P privateKey publicKey ws =
     (case base64_DecodeString (ws_EncryptedWorkspaceKey ws) of
        Ok blob \<Rightarrow>
          (case DecryptFromUser P privateKey publicKey blob of
             Ok wsKey \<Rightarrow> Some wsKey
           | Err e \<Rightarrow> None
           | Panicked m \<Rightarrow> None)
      | Err e \<Rightarrow> None
      | Panicked m \<Rightarrow> None)"

text \<open>
  The cache the specification asks for: one entry per workspace of the response whose
  sealed blob is valid, and nothing else.  Its length is the number \<open>M\<close> of valid
  workspaces.
\<close>

definition expected_cache ::
  "'a prims_scheme \<Rightarrow> string \<Rightarrow> string \<Rightarrow> loginWorkspace list \<Rightarrow> (string \<times> WorkspaceCacheEntry) list" where
  "expected_cache P privateKey publicKey wss =
     concat (map (\<lambda>ws.
       case sealed_key P privateKey publicKey ws of
         Some wsKey \<Rightarrow>
           [(ws_ID ws, \<lparr>Name = ws_Name ws, Key = base64_EncodeToString wsKey,
                        Role = ws_Role ws, Type = ws_Type ws\<rparr>)]
       | None \<Rightarrow> []) wss)"

text \<open>
  The workspace that step 5 of \<^verbatim>\<open>PerformLogin\<close> leaves selected, given the workspace
  selected before, the cache and the orders of the two loops.
\<close>

definition selection ::
  "((string \<times> WorkspaceCacheEntry) list \<Rightarrow> (string \<times> WorkspaceCacheEntry) list) \<Rightarrow>
   ((string \<times> WorkspaceCacheEntry) list \<Rightarrow> (string \<times> WorkspaceCacheEntry) list) \<Rightarrow>
   string \<Rightarrow> (string \<times> WorkspaceCacheEntry) list \<Rightarrow> string" where
  "selection order1 order2 selected workspaceCache =
     (if selected \<noteq> [] then selected
      else
        let personal = (case find (\<lambda>(wid, ws). Type ws = ''personal'') (order1 workspaceCache) of
                          Some (wid, ws) \<Rightarrow> wid
                        | None \<Rightarrow> []) in
        if personal \<noteq> [] then personal
        else (case order2 workspaceCache of (wid, ws) # rest \<Rightarrow> wid | [] \<Rightarrow> []))"

section \<open>Example states and responses\<close>

text \<open>A key pair of the stand-in primitives and a blob sealed for it.\<close>

definition demo_sk :: string where
  "demo_sk = take 32 demo_rand"

definition demo_pk :: string where
  "demo_pk = scalar_base_mult demo_prims demo_sk"

definition demo_blob :: string where
  "demo_blob =
     base64_EncodeToString (sealed_box_seal demo_prims zero_key demo_pk (take 32 (drop 32 demo_rand)))"

text \<open>Alice is logged in on this machine: one personal workspace, tokens, her keys in
  the key store.\<close>

definition alice_world :: world where
  "alice_world = \<lparr>
     home = Some ''/home/alice'',
     config_json = Holds \<lparr>Email = ''alice@example.com'', SelectedWorkspaceID = ''ws-alice'',
       Workspaces = [(''ws-alice'', \<lparr>Name = ''Alice'', Key = ''QUxJQ0U='', Role = ''owner'',
                                     Type = ''personal''\<rparr>)]\<rparr>,
     token_json = Holds \<lparr>AccessToken = ''access-1'', RefreshToken = ''refresh-1'',
       ExpiresAt = ''2025-01-01T00:00:00Z''\<rparr>,
     config_writable = True,
     token_writable = True,
     keychain = [(serviceName, ''alice@example.com_private_key'') \<mapsto> ''c2VjcmV0'',
                 (serviceName, ''alice@example.com_public_key'') \<mapsto> ''cHVibGlj''],
     keychain_available = True \<rparr>"

text \<open>A machine on which nobody has logged in yet.\<close>

definition fresh_world :: world where
  "fresh_world = \<lparr>
     home = Some ''/home/bob'',
     config_json = NoFile,
     token_json = NoFile,
     config_writable = True,
     token_writable = True,
     keychain = Map.empty,
     keychain_available = True \<rparr>"

text \<open>A transport that cannot reach the server.\<close>

definition offline_api :: api_client where
  "offline_api endpointKey method data = Err (TransportFailure ''connection refused'')"

text \<open>A transport whose login answer is a given list of workspaces, whatever the
  credentials.\<close>

definition login_response :: "loginWorkspace list \<Rightarrow> loginResponse" where
  "login_response wss = \<lparr>
     resp_AccessToken = [], resp_RefreshToken = [], resp_ExpiresAt = [],
     resp_Data = \<lparr>
       data_Access = ''access-2'', data_Refresh = ''refresh-2'',
       data_ExpiresAt = ''2025-01-01T00:00:00Z'',
       data_EncryptedPrivateKey = [], data_KeySalt = [],
       data_User = \<lparr>user_PublicKey = [], user_Email = []\<rparr>,
       data_Workspaces = wss \<rparr> \<rparr>"

definition answering_api :: "loginWorkspace list \<Rightarrow> api_client" where
  "answering_api wss endpointKey method data =
     Ok \<lparr>StatusCode = 200, body_login = Some (login_response wss), body_message = None\<rparr>"

text \<open>A transport that accepts every registration and answers a login as above.\<close>

definition registering_api :: "loginWorkspace list \<Rightarrow> api_client" where
  "registering_api wss endpointKey method data =
     (if endpointKey = ''auth.signup''
      then Ok \<lparr>StatusCode = 201, body_login = None, body_message = None\<rparr>
      else Ok \<lparr>StatusCode = 200, body_login = Some (login_response wss), body_message = None\<rparr>)"

text \<open>Bob registers.\<close>

definition bob_request :: "string \<Rightarrow> SignupRequest" where
  "bob_request password =
     \<lparr>req_FirstName = ''Bob'', req_LastName = ''Builder'', req_Email = ''bob@example.com'',
      req_Password = password\<rparr>"

text \<open>Two shared workspaces with valid blobs, and a workspace whose blob is corrupted.\<close>

definition team_a :: loginWorkspace where
  "team_a = \<lparr>ws_ID = ''a'', ws_Name = ''Team A'', ws_EncryptedWorkspaceKey = demo_blob,
              ws_Role = ''member'', ws_Type = ''shared''\<rparr>"

definition team_b :: loginWorkspace where
  "team_b = \<lparr>ws_ID = ''b'', ws_Name = ''Team B'', ws_EncryptedWorkspaceKey = demo_blob,
              ws_Role = ''member'', ws_Type = ''shared''\<rparr>"

definition corrupted_ws :: loginWorkspace where
  "corrupted_ws = \<lparr>ws_ID = ''c'', ws_Name = ''Team C'', ws_EncryptedWorkspaceKey = ''!'',
              ws_Role = ''member'', ws_Type = ''shared''\<rparr>"

section \<open>Facts about the hexadecimal codec\<close>

lemma fromHexChar_Some_iff:
  "(\<exists>a. fromHexChar c = Some a) \<longleftrightarrow> c \<in> set ''0123456789abcdefABCDEF''"
proof
  assume "\<exists>a. fromHexChar c = Some a"
  then have r: "(48 \<le> (of_char c :: nat) \<and> (of_char c :: nat) \<le> 57) \<or>
      (97 \<le> (of_char c :: nat) \<and> (of_char c :: nat) \<le> 102) \<or>
      (65 \<le> (of_char c :: nat) \<and> (of_char c :: nat) \<le> 70)"
    by (auto simp: fromHexChar_def Let_def split: if_splits)
  have "(of_char c :: nat) \<in> {48, 49, 50, 51, 52, 53, 54, 55, 56, 57,
      97, 98, 99, 100, 101, 102, 65, 66, 67, 68, 69, 70}"
    using r by (simp only: insert_iff empty_iff) arith
  then have "(of_char c :: nat) \<in> of_char ` set ''0123456789abcdefABCDEF''"
    by simp
  then show "c \<in> set ''0123456789abcdefABCDEF''"
    by (simp only: inj_image_mem_iff [OF inj_of_char])
next
  assume "c \<in> set ''0123456789abcdefABCDEF''"
  then show "\<exists>a. fromHexChar c = Some a"
    by (auto simp: fromHexChar_def)
qed

lemma hex_DecodeString_not_Panicked: "hex_DecodeString s \<noteq> Panicked m"
  by (induction s rule: hex_DecodeString.induct) (auto split: option.splits result.splits)

lemma hex_DecodeString_Ok_iff: "(\<exists>bs. hex_DecodeString s = Ok bs) \<longleftrightarrow> valid_hex_string s"
proof (induction s rule: hex_DecodeString.induct)
  case 1
  show ?case by (simp add: valid_hex_string_def)
next
  case (2 p)
  show ?case by (simp add: valid_hex_string_def split: option.splits)
next
  case (3 p q src)
  have vs: "valid_hex_string (p # q # src) \<longleftrightarrow>
      p \<in> set ''0123456789abcdefABCDEF'' \<and> q \<in> set ''0123456789abcdefABCDEF'' \<and>
      valid_hex_string src"
    unfolding valid_hex_string_def by auto
  show ?case
  proof (cases "fromHexChar p")
    case None
    then have "p \<notin> set ''0123456789abcdefABCDEF''"
      using fromHexChar_Some_iff [of p] by simp
    with None show ?thesis unfolding vs by simp
  next
    case (Some a)
    then have hp: "p \<in> set ''0123456789abcdefABCDEF''"
      using fromHexChar_Some_iff [of p] by blast
    show ?thesis
    proof (cases "fromHexChar q")
      case None
      then have "q \<notin> set ''0123456789abcdefABCDEF''"
        using fromHexChar_Some_iff [of q] by simp
      with None Some show ?thesis unfolding vs by simp
    next
      case (Some b)
      then have hq: "q \<in> set ''0123456789abcdefABCDEF''"
        using fromHexChar_Some_iff [of q] by blast
      have "(\<exists>bs. hex_DecodeString (p # q # src) = Ok bs) \<longleftrightarrow>
          (\<exists>bs. hex_DecodeString src = Ok bs)"
        using \<open>fromHexChar p = Some a\<close> Some by (simp split: result.splits)
      also have "\<dots> \<longleftrightarrow> valid_hex_string src"
        using "3.IH" [OF \<open>fromHexChar p = Some a\<close> Some] .
      finally show ?thesis unfolding vs using hp hq by simp
    qed
  qed
qed

section \<open>Key derivation accepts a salt of any length\<close>

text \<open>
  C10.  \<^verbatim>\<open>DeriveKeyFromPassword\<close> does not check that the salt has 32 bytes.  For every
  password and every salt string it returns an error exactly when the salt is not a
  valid hexadecimal string (it never panics), and for a valid one of any length,
  the empty string included, it returns a key of 32 bytes, provided Argon2id
  returns as many bytes as requested.
\<close>

theorem DeriveKeyFromPassword_salt_any_length:
  assumes "argon2_length P"
  shows "((\<exists>e. DeriveKeyFromPassword P password saltHex = Err e) \<longleftrightarrow> \<not> valid_hex_string saltHex)
       \<and> (valid_hex_string saltHex \<longrightarrow>
            (\<exists>key. DeriveKeyFromPassword P password saltHex = Ok key \<and> length key = 32))
       \<and> (\<forall>m. DeriveKeyFromPassword P password saltHex \<noteq> Panicked m)"
proof (cases "hex_DecodeString saltHex")
  case (Ok salt)
  then have "valid_hex_string saltHex"
    using hex_DecodeString_Ok_iff [of saltHex] by blast
  moreover have "length (argon2_IDKey P password salt argonTime argonMemory argonThreads argonKeyLen) = 32"
    using assms by (simp add: argon2_length_def argonKeyLen_def)
  ultimately show ?thesis
    using Ok by (simp add: DeriveKeyFromPassword_def)
next
  case (Err e)
  then have "\<not> valid_hex_string saltHex"
    using hex_DecodeString_Ok_iff [of saltHex] by auto
  then show ?thesis
    using Err by (simp add: DeriveKeyFromPassword_def)
next
  case (Panicked m)
  then show ?thesis
    using hex_DecodeString_not_Panicked by blast
qed

lemma demo_prims_argon2_length: "argon2_length demo_prims"
  by (auto simp: argon2_length_def demo_prims_def)

theorem DeriveKeyFromPassword_salt_any_length_witness:
  "(\<exists>key. DeriveKeyFromPassword demo_prims ''pw'' '''' = Ok key \<and> length key = 32)
   \<and> (\<exists>key. DeriveKeyFromPassword demo_prims ''pw'' ''0aFF'' = Ok key \<and> length key = 32)
   \<and> (\<exists>e. DeriveKeyFromPassword demo_prims ''pw'' ''abc'' = Err e)
   \<and> (\<exists>e. DeriveKeyFromPassword demo_prims ''pw'' ''zz'' = Err e)"
proof -
  have v1: "valid_hex_string ''''" and v2: "valid_hex_string ''0aFF''"
    and v3: "\<not> valid_hex_string ''abc''" and v4: "\<not> valid_hex_string ''zz''"
    by (simp_all add: valid_hex_string_def)
  show ?thesis
    using DeriveKeyFromPassword_salt_any_length [OF demo_prims_argon2_length, of "''pw''" "''''"]
      DeriveKeyFromPassword_salt_any_length [OF demo_prims_argon2_length, of "''pw''" "''0aFF''"]
      DeriveKeyFromPassword_salt_any_length [OF demo_prims_argon2_length, of "''pw''" "''abc''"]
      DeriveKeyFromPassword_salt_any_length [OF demo_prims_argon2_length, of "''pw''" "''zz''"]
      v1 v2 v3 v4
    by blast
qed

section \<open>Facts about the base64 codec and the result type\<close>


lemma index_of_nth: "distinct xs \<Longrightarrow> i < length xs \<Longrightarrow> index_of xs (xs ! i) = Some i"
proof (induction xs arbitrary: i)
  case Nil
  then show ?case by simp
next
  case (Cons y ys)
  show ?case
  proof (cases i)
    case 0
    then show ?thesis by simp
  next
    case (Suc j)
    with Cons.prems have "j < length ys" "ys ! j \<noteq> y" by auto
    with Cons Suc show ?thesis by simp
  qed
qed

lemma length_encodeStd: "length encodeStd = 64"
  by (simp add: encodeStd_def)

lemma distinct_encodeStd: "distinct encodeStd"
  by (simp add: encodeStd_def)

lemma decodeMap_encodeStd: "i < 64 \<Longrightarrow> decodeMap (encodeStd ! i) = Some i"
  unfolding decodeMap_def by (rule index_of_nth) (simp_all add: distinct_encodeStd length_encodeStd)


lemma char_of_eqI: "n mod 256 = of_char c \<Longrightarrow> char_of (n::nat) = c"
  by (metis char_of_char char_of_mod_256)

lemma sextets_recompose:
  fixes V :: nat
  assumes "V < 16777216"
  shows "(V div 262144 mod 64) * 262144 + (V div 4096 mod 64) * 4096 + (V div 64 mod 64) * 64 + V mod 64 = V"
proof -
  define x where "x = V div 64"
  define y where "y = x div 64"
  define z where "z = y div 64"
  have d1: "V div 4096 = y"
    unfolding y_def x_def by (simp add: div_mult2_eq [symmetric])
  have d2: "V div 262144 = z"
    unfolding z_def y_def x_def by (simp add: div_mult2_eq [symmetric])
  have "z < 64"
    unfolding d2 [symmetric] using assms by (simp add: less_mult_imp_div_less)
  then have zm: "z mod 64 = z" by simp
  have e1: "V = x * 64 + V mod 64" unfolding x_def by simp
  have e2: "x = y * 64 + x mod 64" unfolding y_def by simp
  have e3: "y = z * 64 + y mod 64" unfolding z_def by simp
  have "z * 262144 + (y mod 64) * 4096 + (x mod 64) * 64 + V mod 64 = V"
    using e1 e2 e3 by linarith
  then show ?thesis
    unfolding d1 d2 zm x_def [symmetric] .
qed

lemma split_bytes:
  fixes A B C :: nat
  assumes "A < 256" "B < 256" "C < 256"
  shows "(A * 65536 + B * 256 + C) div 65536 mod 256 = A"
    and "(A * 65536 + B * 256 + C) div 256 mod 256 = B"
    and "(A * 65536 + B * 256 + C) mod 256 = C"
proof -
  have r: "B * 256 + C < 65536" using assms by linarith
  have "(A * 65536 + (B * 256 + C)) div 65536 = A"
    using r by simp
  then show "(A * 65536 + B * 256 + C) div 65536 mod 256 = A"
    using assms by (simp add: add.assoc)
  have eq: "A * 65536 + B * 256 + C = (A * 256 + B) * 256 + C" by simp
  have "((A * 256 + B) * 256 + C) div 256 = A * 256 + B"
    using assms by simp
  then show "(A * 65536 + B * 256 + C) div 256 mod 256 = B"
    unfolding eq using assms by simp
  have "((A * 256 + B) * 256 + C) mod 256 = C mod 256"
    by (rule mod_mult_self3)
  then show "(A * 65536 + B * 256 + C) mod 256 = C"
    unfolding eq using assms by (simp only: mod_less)
qed


lemma sextet_less: "(n :: nat) mod 64 < 64"
  by simp

lemma quantum_bytes_full:
  fixes a b c :: char
  defines "V \<equiv> (of_char a :: nat) * 65536 + of_char b * 256 + of_char c"
  shows "quantum_bytes (V div 262144 mod 64) (V div 4096 mod 64) (V div 64 mod 64) (V mod 64) = [a, b, c]"
proof -
  have A: "(of_char a :: nat) < 256" and B: "(of_char b :: nat) < 256" and C: "(of_char c :: nat) < 256"
    by simp_all
  have V: "V < 16777216" unfolding V_def using A B C by linarith
  have 1: "V div 65536 mod 256 = of_char a"
    and 2: "V div 256 mod 256 = of_char b"
    and 3: "V mod 256 = of_char c"
    unfolding V_def using split_bytes [OF A B C] by simp_all
  show ?thesis
    unfolding quantum_bytes_def Let_def sextets_recompose [OF V]
    using 1 2 3 by (simp add: char_of_eqI)
qed

lemma quantum_bytes_two:
  fixes a b :: char
  defines "V \<equiv> (of_char a :: nat) * 65536 + of_char b * 256"
  shows "take (Suc (Suc 0)) (quantum_bytes (V div 262144 mod 64) (V div 4096 mod 64) (V div 64 mod 64) 0) = [a, b]"
proof -
  have A: "(of_char a :: nat) < 256" and B: "(of_char b :: nat) < 256"
    by simp_all
  have V: "V < 16777216" unfolding V_def using A B by linarith
  have "V = ((of_char a :: nat) * 1024 + of_char b * 4) * 64" unfolding V_def by simp
  then have z: "V mod 64 = 0" by simp
  have 1: "V div 65536 mod 256 = of_char a"
    and 2: "V div 256 mod 256 = of_char b"
    unfolding V_def using split_bytes [OF A B, of 0] by simp_all
  have qv: "(V div 262144 mod 64) * 262144 + (V div 4096 mod 64) * 4096 + (V div 64 mod 64) * 64 + 0 = V"
    by (rule sextets_recompose [OF V, unfolded z])
  show ?thesis
    unfolding quantum_bytes_def Let_def qv
    using 1 2 by (simp add: char_of_eqI)
qed

lemma quantum_bytes_one:
  fixes a :: char
  defines "V \<equiv> (of_char a :: nat) * 65536"
  shows "take (Suc 0) (quantum_bytes (V div 262144 mod 64) (V div 4096 mod 64) 0 0) = [a]"
proof -
  have A: "(of_char a :: nat) < 256"
    by simp
  have V: "V < 16777216" unfolding V_def using A by linarith
  have "V = ((of_char a :: nat) * 1024) * 64" unfolding V_def by simp
  then have z: "V mod 64 = 0" by simp
  have "V div 64 = ((of_char a :: nat) * 16) * 64" unfolding V_def by simp
  then have z2: "V div 64 mod 64 = 0" by simp
  have 1: "V div 65536 mod 256 = of_char a"
    unfolding V_def using split_bytes(1) [OF A, of 0 0] by simp
  have qv: "(V div 262144 mod 64) * 262144 + (V div 4096 mod 64) * 4096 + 0 * 64 + 0 = V"
    by (rule sextets_recompose [OF V, unfolded z z2])
  show ?thesis
    unfolding quantum_bytes_def Let_def qv
    using 1 by (simp add: char_of_eqI)
qed

lemma decodeMap_pad: "decodeMap (CHR ''='') = None"
  by (simp add: decodeMap_def encodeStd_def)

lemma decode_full_quantum:
  assumes "s0 < 64" "s1 < 64" "s2 < 64" "s3 < 64"
  shows "decode [] si (encodeStd ! s0 # encodeStd ! s1 # encodeStd ! s2 # encodeStd ! s3 # src) =
     (case decode [] (Suc (Suc (Suc (Suc si)))) src of
        Ok rest \<Rightarrow> Ok (quantum_bytes s0 s1 s2 s3 @ rest)
      | Err e \<Rightarrow> Err e
      | Panicked m \<Rightarrow> Panicked m)"
  using assms by (simp add: decodeMap_encodeStd cong: result.case_cong)

lemma decode_pad_one:
  assumes "s0 < 64" "s1 < 64" "s2 < 64"
  shows "decode [] si [encodeStd ! s0, encodeStd ! s1, encodeStd ! s2, CHR ''=''] =
     Ok (take (Suc (Suc 0)) (quantum_bytes s0 s1 s2 0))"
  using assms by (simp add: decodeMap_encodeStd decodeMap_pad decode_padding_def decode_trailing_def)

lemma decode_pad_two:
  assumes "s0 < 64" "s1 < 64"
  shows "decode [] si [encodeStd ! s0, encodeStd ! s1, CHR ''='', CHR ''=''] =
     Ok (take (Suc 0) (quantum_bytes s0 s1 0 0))"
  using assms by (simp add: decodeMap_encodeStd decodeMap_pad decode_padding_def decode_trailing_def)

lemma decode_encode: "decode [] si (base64_EncodeToString bs) = Ok bs"
proof (induction bs arbitrary: si rule: base64_EncodeToString.induct)
  case 1
  show ?case by simp
next
  case (2 a)
  show ?case
    unfolding base64_EncodeToString.simps Let_def
    by (simp only: decode_pad_two [OF sextet_less sextet_less] quantum_bytes_one)
next
  case (3 a b)
  show ?case
    unfolding base64_EncodeToString.simps Let_def
    by (simp only: decode_pad_one [OF sextet_less sextet_less sextet_less] quantum_bytes_two)
next
  case (4 a b c src)
  show ?case
    unfolding base64_EncodeToString.simps Let_def
    by (simp only: decode_full_quantum [OF sextet_less sextet_less sextet_less sextet_less]
        quantum_bytes_full "4.IH" result.case append_Cons append_Nil)
qed

lemma base64_roundtrip: "base64_DecodeString (base64_EncodeToString bs) = Ok bs"
  by (simp add: base64_DecodeString_def decode_encode)



lemma fromHexChar_hextable: "n < 16 \<Longrightarrow> fromHexChar (hextable ! n) = Some n"
proof -
  assume "n < 16"
  then have "n \<in> {0, 1, 2, 3, 4, 5, 6, 7, 8, 9, 10, 11, 12, 13, 14, 15}"
    by (simp only: insert_iff empty_iff) arith
  then show ?thesis
    by (auto simp: hextable_def fromHexChar_def)
qed

lemma hex_roundtrip: "hex_DecodeString (hex_EncodeToString bs) = Ok bs"
proof (induction bs)
  case Nil
  show ?case by simp
next
  case (Cons v bs)
  have "(of_char v :: nat) < 16 * 16"
    using nat_of_char_less_256 [of v] by simp
  then have lt1: "(of_char v :: nat) div 16 < 16"
    by (rule less_mult_imp_div_less)
  have lt2: "(of_char v :: nat) mod 16 < 16"
    by simp
  note lt = lt1 lt2
  have "char_of ((of_char v :: nat) div 16 * 16 + of_char v mod 16) = v"
    by simp
  then show ?case
    using Cons by (simp add: fromHexChar_hextable [OF lt(1)] fromHexChar_hextable [OF lt(2)])
qed

lemma on_ok_Ok_iff: "on_ok r f = Ok y \<longleftrightarrow> (\<exists>x. r = Ok x \<and> f x = Ok y)"
  by (cases r) simp_all

lemma wrap_Ok_iff: "wrap p r = Ok x \<longleftrightarrow> r = Ok x"
  by (cases r) simp_all

lemma io_ReadFull_Ok:
  "io_ReadFull rand n = Ok (buf, rest) \<Longrightarrow> length buf = n \<and> rand = buf @ rest"
  by (auto simp: io_ReadFull_def split: if_splits)

lemma aes_NewCipher_Ok:
  "aes_NewCipher key = Ok block \<Longrightarrow>
     block = key \<and> (length key = 16 \<or> length key = 24 \<or> length key = 32)"
  by (auto simp: aes_NewCipher_def split: if_splits)

lemma gcm_Seal_Ok:
  "gcm_Seal P aesGCM dst nonce plaintext = Ok out \<Longrightarrow>
     out = dst @ aesgcm_seal P aesGCM nonce plaintext \<and> length nonce = 12 \<and>
     length plaintext \<le> gcm_maxPlaintext"
  by (auto simp: gcm_Seal_def gcm_NonceSize_def split: if_splits)

lemma gcm_Open_Seal:
  assumes "gcm_correct P" "length key = 16 \<or> length key = 24 \<or> length key = 32"
    "length nonce = 12" "length plaintext \<le> gcm_maxPlaintext"
  shows "gcm_Open P key [] nonce (aesgcm_seal P key nonce plaintext) = Ok plaintext"
proof -
  have "aesgcm_open P key nonce (aesgcm_seal P key nonce plaintext) = Some plaintext"
    and "length (aesgcm_seal P key nonce plaintext) = length plaintext + 16"
    using assms(1-3) unfolding gcm_correct_def by blast+
  then show ?thesis
    using assms(3,4) by (simp add: gcm_Open_def gcm_NonceSize_def gcm_tagSize_def)
qed

section \<open>Round trips of the three ciphers\<close>

text \<open>
  C2.  Identity-key round trip: for any private key \<open>K\<close> (in particular one of 32 bytes)
  and any password (in particular a non-empty one), if \<^verbatim>\<open>EncryptPrivateKey\<close> returns a
  ciphertext and a salt, then \<^verbatim>\<open>DecryptPrivateKey\<close> on that ciphertext, the same
  password and that salt returns exactly \<open>K\<close>.  AES-GCM is assumed correct.
\<close>

theorem identity_key_roundtrip:
  assumes "gcm_correct P"
    and "EncryptPrivateKey P rand K password = Ok (c, s, rand')"
  shows "DecryptPrivateKey P c password s = Ok K"
proof -
  from assms(2) obtain salt rand1 derivedKey block nonce rand2 ciphertext where
    salt: "io_ReadFull rand SaltSize = Ok (salt, rand1)"
    and dk: "DeriveKeyFromPassword P password (hex_EncodeToString salt) = Ok derivedKey"
    and blk: "aes_NewCipher derivedKey = Ok block"
    and nonce: "io_ReadFull rand1 (gcm_NonceSize block) = Ok (nonce, rand2)"
    and seal: "gcm_Seal P block nonce nonce K = Ok ciphertext"
    and c: "c = base64_EncodeToString ciphertext"
    and s: "s = hex_EncodeToString salt"
    unfolding EncryptPrivateKey_def
    by (auto simp: on_ok_Ok_iff wrap_Ok_iff Let_def cipher_NewGCM_def)
  from blk have block: "block = derivedKey"
    and klen: "length derivedKey = 16 \<or> length derivedKey = 24 \<or> length derivedKey = 32"
    using aes_NewCipher_Ok by blast+
  from seal have ct: "ciphertext = nonce @ aesgcm_seal P derivedKey nonce K"
    and nlen: "length nonce = 12" and plen: "length K \<le> gcm_maxPlaintext"
    using gcm_Seal_Ok unfolding block by blast+
  have "gcm_Open P derivedKey [] nonce (aesgcm_seal P derivedKey nonce K) = Ok K"
    using gcm_Open_Seal [OF assms(1) klen nlen plen] .
  then show ?thesis
    unfolding DecryptPrivateKey_def c s
    using dk blk block nlen
    by (simp add: base64_roundtrip ct cipher_NewGCM_def gcm_NonceSize_def Let_def)
qed


text \<open>
  C4.  Secret round trip: for every string \<open>v\<close>, the empty string and strings of more
  than 4 KB included, and every workspace key \<open>K\<close>, if \<^verbatim>\<open>EncryptSecret\<close> returns a
  ciphertext and a nonce then \<^verbatim>\<open>DecryptSecret\<close> on them and \<open>K\<close> returns exactly \<open>v\<close>.
  AES-GCM is assumed correct.
\<close>

theorem secret_roundtrip:
  assumes "gcm_correct P"
    and "EncryptSecret P rand v K = Ok (ciphertext, nonce, rand')"
  shows "DecryptSecret P ciphertext nonce K = Ok v"
proof -
  from assms(2) obtain block n sealed where
    blk: "aes_NewCipher K = Ok block"
    and n: "io_ReadFull rand (gcm_NonceSize block) = Ok (n, rand')"
    and seal: "gcm_Seal P block [] n v = Ok sealed"
    and c: "ciphertext = base64_EncodeToString sealed"
    and nonce: "nonce = base64_EncodeToString n"
    unfolding EncryptSecret_def
    by (auto simp: on_ok_Ok_iff wrap_Ok_iff cipher_NewGCM_def)
  from blk have block: "block = K"
    and klen: "length K = 16 \<or> length K = 24 \<or> length K = 32"
    using aes_NewCipher_Ok by blast+
  from seal have sealed: "sealed = aesgcm_seal P K n v"
    and nlen: "length n = 12" and plen: "length v \<le> gcm_maxPlaintext"
    using gcm_Seal_Ok [of P block "[]" n v sealed] unfolding block by simp_all
  have "gcm_Open P K [] n (aesgcm_seal P K n v) = Ok v"
    using gcm_Open_Seal [OF assms(1) klen nlen plen] .
  then show ?thesis
    unfolding DecryptSecret_def c nonce
    using blk block by (simp add: base64_roundtrip sealed cipher_NewGCM_def)
qed

text \<open>
  C3.  Sealed-box round trip: for every key pair that \<^verbatim>\<open>GenerateKeypair\<close> produces and
  every value \<open>K\<close> (in particular a 32-byte workspace key), \<^verbatim>\<open>EncryptForUser\<close> for the
  public key succeeds when the source of randomness delivers the 32 bytes of the
  ephemeral key, and what it returns opens under the pair: \<^verbatim>\<open>DecryptFromUser\<close> succeeds
  and returns exactly \<open>K\<close>.  The sealed box is assumed correct.
\<close>

theorem sealed_box_roundtrip:
  assumes "box_correct P"
    and "GenerateKeypair P rand = Ok (sk, pk, rand1)"
    and "32 \<le> length rand2"
  shows "\<exists>blob rand3. EncryptForUser P rand2 pk K = Ok (blob, rand3)
           \<and> DecryptFromUser P sk pk blob = Ok K"
proof -
  from assms(2) have sk: "length sk = 32" and pk: "pk = scalar_base_mult P sk"
    unfolding GenerateKeypair_def box_GenerateKey_def
    by (auto simp: on_ok_Ok_iff wrap_Ok_iff dest: io_ReadFull_Ok)
  have pl: "length pk = 32"
    using assms(1) sk unfolding box_correct_def pk by blast
  have esk: "io_ReadFull rand2 32 = Ok (take 32 rand2, drop 32 rand2)"
    using assms(3) by (simp add: io_ReadFull_def)
  have el: "length (take 32 rand2) = 32"
    using assms(3) by simp
  have enc: "EncryptForUser P rand2 pk K =
      Ok (sealed_box_seal P K pk (take 32 rand2), drop 32 rand2)"
    unfolding EncryptForUser_def box_SealAnonymous_def box_GenerateKey_def
    using pl by (simp add: esk KeySize_def)
  have "sealed_box_open P (sealed_box_seal P K pk (take 32 rand2)) pk sk = Some K"
    using assms(1) sk el unfolding box_correct_def pk by blast
  then have "DecryptFromUser P sk pk (sealed_box_seal P K pk (take 32 rand2)) = Ok K"
    unfolding DecryptFromUser_def using sk pl
    by (simp add: KeySize_def box_OpenAnonymous_def)
  with enc show ?thesis by blast
qed

lemma demo_prims_gcm_correct: "gcm_correct demo_prims"
  by (auto simp: gcm_correct_def demo_prims_def demo_tag_def)

lemma demo_prims_box_correct: "box_correct demo_prims"
  by (auto simp: box_correct_def demo_prims_def)

lemma io_ReadFull_enough:
  "n \<le> length rand \<Longrightarrow> io_ReadFull rand n = Ok (take n rand, drop n rand)"
  by (simp add: io_ReadFull_def)

lemma EncryptPrivateKey_succeeds:
  assumes "argon2_length P" and "44 \<le> length rand" and "length K \<le> gcm_maxPlaintext"
  shows "\<exists>c s rand'. EncryptPrivateKey P rand K password = Ok (c, s, rand')"
proof -
  have r1: "io_ReadFull rand SaltSize = Ok (take 32 rand, drop 32 rand)"
    using assms(2) by (simp add: io_ReadFull_enough SaltSize_def)
  have r2: "io_ReadFull (drop 32 rand) 12 = Ok (take 12 (drop 32 rand), drop 12 (drop 32 rand))"
    using assms(2) by (simp add: io_ReadFull_enough)
  have len: "length (argon2_IDKey P password (take 32 rand) argonTime argonMemory argonThreads argonKeyLen) = 32"
    using assms(1) by (simp add: argon2_length_def argonKeyLen_def)
  show ?thesis
    unfolding EncryptPrivateKey_def DeriveKeyFromPassword_def
    using assms(2,3) len
    by (simp add: r1 r2 hex_roundtrip Let_def aes_NewCipher_def cipher_NewGCM_def
        gcm_NonceSize_def gcm_Seal_def)
qed

lemma EncryptSecret_succeeds:
  assumes "length K = 32" and "12 \<le> length rand" and "length v \<le> gcm_maxPlaintext"
  shows "\<exists>c n rand'. EncryptSecret P rand v K = Ok (c, n, rand')"
  unfolding EncryptSecret_def using assms
  by (simp add: io_ReadFull_enough aes_NewCipher_def cipher_NewGCM_def gcm_NonceSize_def gcm_Seal_def)

lemma GenerateKeypair_succeeds:
  assumes "32 \<le> length rand"
  shows "\<exists>sk pk rand'. GenerateKeypair P rand = Ok (sk, pk, rand') \<and> length rand' = length rand - 32"
  unfolding GenerateKeypair_def box_GenerateKey_def using assms
  by (simp add: io_ReadFull_enough)

lemma EncryptForUser_succeeds:
  assumes "length pk = 32" and "32 \<le> length rand"
  shows "\<exists>blob rand'. EncryptForUser P rand pk K = Ok (blob, rand')"
  unfolding EncryptForUser_def box_SealAnonymous_def box_GenerateKey_def using assms
  by (simp add: io_ReadFull_enough KeySize_def)

lemma GenerateKeypair_lengths:
  assumes "box_correct P" and "GenerateKeypair P rand = Ok (sk, pk, rand1)"
  shows "length sk = 32 \<and> length pk = 32"
proof -
  from assms(2) have sk: "length sk = 32" and pk: "pk = scalar_base_mult P sk"
    unfolding GenerateKeypair_def box_GenerateKey_def
    by (auto simp: on_ok_Ok_iff wrap_Ok_iff dest: io_ReadFull_Ok)
  then show ?thesis
    using assms(1) unfolding box_correct_def by blast
qed

theorem identity_key_roundtrip_witness:
  "(case EncryptPrivateKey demo_prims demo_rand zero_key ''correct-horse-battery'' of
      Ok (c, s, rand') \<Rightarrow> DecryptPrivateKey demo_prims c ''correct-horse-battery'' s = Ok zero_key
    | Err e \<Rightarrow> False
    | Panicked m \<Rightarrow> False)"
proof -
  have "44 \<le> length demo_rand" and "length zero_key \<le> gcm_maxPlaintext"
    by (simp_all add: demo_rand_def zero_key_def gcm_maxPlaintext_def)
  then obtain c s rand' where
    enc: "EncryptPrivateKey demo_prims demo_rand zero_key ''correct-horse-battery'' = Ok (c, s, rand')"
    using EncryptPrivateKey_succeeds [OF demo_prims_argon2_length] by blast
  show ?thesis
    using identity_key_roundtrip [OF demo_prims_gcm_correct enc] by (simp add: enc)
qed

theorem secret_roundtrip_witness:
  "(case EncryptSecret demo_prims demo_rand [] zero_key of
      Ok (c, n, rand') \<Rightarrow> DecryptSecret demo_prims c n zero_key = Ok []
    | Err e \<Rightarrow> False
    | Panicked m \<Rightarrow> False)"
proof -
  have "length zero_key = 32" and "12 \<le> length demo_rand"
    and "length ([] :: string) \<le> gcm_maxPlaintext"
    by (simp_all add: demo_rand_def zero_key_def)
  then obtain c n rand' where
    enc: "EncryptSecret demo_prims demo_rand [] zero_key = Ok (c, n, rand')"
    using EncryptSecret_succeeds by blast
  show ?thesis
    using secret_roundtrip [OF demo_prims_gcm_correct enc] by (simp add: enc)
qed

text \<open>A key pair from the first 32 bytes of the source, the box from the next 32.\<close>

theorem sealed_box_roundtrip_witness:
  "32 \<le> length (drop 32 demo_rand)
   \<and> (\<exists>sk pk rand1. GenerateKeypair demo_prims demo_rand = Ok (sk, pk, rand1)
        \<and> (\<exists>blob rand3. EncryptForUser demo_prims (drop 32 demo_rand) pk zero_key = Ok (blob, rand3)
              \<and> DecryptFromUser demo_prims sk pk blob = Ok zero_key))"
proof -
  have l: "32 \<le> length demo_rand" and l2: "32 \<le> length (drop 32 demo_rand)"
    by (simp_all add: demo_rand_def)
  obtain sk pk rand1 where
    kp: "GenerateKeypair demo_prims demo_rand = Ok (sk, pk, rand1)"
    using GenerateKeypair_succeeds [OF l] by blast
  show ?thesis
    using sealed_box_roundtrip [OF demo_prims_box_correct kp l2, of zero_key] kp l2 by blast
qed


section \<open>Outcomes of the decoders\<close>


lemma decode_trailing_not_Panicked: "decode_trailing dbuf si src \<noteq> Panicked m"
  by (simp add: decode_trailing_def split: prod.splits list.splits)

lemma decode_padding_not_Panicked: "decode_padding dbuf si src \<noteq> Panicked m"
  by (simp add: decode_padding_def decode_trailing_not_Panicked split: prod.splits list.splits)

lemma decode_not_Panicked: "decode dbuf si src \<noteq> Panicked m"
  by (induction dbuf si src rule: decode.induct)
    (auto simp: decode_padding_not_Panicked split: option.splits result.splits)

lemma base64_DecodeString_not_Panicked: "base64_DecodeString s \<noteq> Panicked m"
  by (simp add: base64_DecodeString_def decode_not_Panicked)

lemma gcm_Open_outcomes:
  "length nonce = 12 \<Longrightarrow>
     (\<exists>plaintext. gcm_Open P aesGCM dst nonce ciphertext = Ok plaintext) \<or>
     gcm_Open P aesGCM dst nonce ciphertext = Err GcmOpenFailed"
  by (simp add: gcm_Open_def gcm_NonceSize_def split: option.splits)

lemma decode_trailing_Err: "decode_trailing dbuf si src = Err e \<Longrightarrow> \<exists>n. e = Base64CorruptInput n"
  by (auto simp: decode_trailing_def split: prod.splits list.splits)

lemma decode_padding_Err: "decode_padding dbuf si src = Err e \<Longrightarrow> \<exists>n. e = Base64CorruptInput n"
  by (auto simp: decode_padding_def split: prod.splits list.splits if_splits dest: decode_trailing_Err)

lemma decode_Err: "decode dbuf si src = Err e \<Longrightarrow> \<exists>n. e = Base64CorruptInput n"
  by (induction dbuf si src rule: decode.induct)
    (auto split: option.splits result.splits if_splits dest: decode_padding_Err)

lemma base64_DecodeString_cases:
  obtains (ok) bs where "base64_DecodeString s = Ok bs"
  | (corrupt) n where "base64_DecodeString s = Err (Base64CorruptInput n)"
proof (cases "base64_DecodeString s")
  case (Ok bs)
  then show ?thesis by (rule ok)
next
  case (Err e)
  then obtain n where "e = Base64CorruptInput n"
    unfolding base64_DecodeString_def using decode_Err by blast
  with Err show ?thesis by (simp add: corrupt)
next
  case (Panicked m)
  then show ?thesis using base64_DecodeString_not_Panicked by blast
qed

lemma hex_DecodeString_Err:
  "hex_DecodeString s = Err e \<Longrightarrow> e = HexErrLength \<or> (\<exists>c. e = HexInvalidByte c)"
  by (induction s rule: hex_DecodeString.induct) (auto split: option.splits result.splits)

lemma hex_DecodeString_cases:
  obtains (ok) bs where "hex_DecodeString s = Ok bs"
  | (odd) "hex_DecodeString s = Err HexErrLength"
  | (invalid) c where "hex_DecodeString s = Err (HexInvalidByte c)"
proof (cases "hex_DecodeString s")
  case (Ok bs)
  then show ?thesis by (rule ok)
next
  case (Err e)
  then show ?thesis using hex_DecodeString_Err [OF Err] odd invalid by blast
next
  case (Panicked m)
  then show ?thesis using hex_DecodeString_not_Panicked by blast
qed

lemma DecryptPrivateKey_outcomes:
  "(\<exists>privateKey. DecryptPrivateKey P encryptedB64 password saltHex = Ok privateKey)
    \<or> (\<exists>n. DecryptPrivateKey P encryptedB64 password saltHex =
            Err (Wrap ''failed to decode encrypted private key'' (Base64CorruptInput n)))
    \<or> (\<exists>c. DecryptPrivateKey P encryptedB64 password saltHex =
            Err (Wrap ''invalid salt hex'' (HexInvalidByte c)))
    \<or> DecryptPrivateKey P encryptedB64 password saltHex = Err (Wrap ''invalid salt hex'' HexErrLength)
    \<or> (\<exists>k. DecryptPrivateKey P encryptedB64 password saltHex =
            Err (Wrap ''failed to create cipher'' (AesKeySize k)))
    \<or> DecryptPrivateKey P encryptedB64 password saltHex = Err (Msg ''ciphertext too short'')
    \<or> DecryptPrivateKey P encryptedB64 password saltHex =
          Err (Wrap ''failed to decrypt private key (wrong password?)'' GcmOpenFailed)"
proof (cases encryptedB64 rule: base64_DecodeString_cases)
  case (corrupt n)
  then show ?thesis by (simp add: DecryptPrivateKey_def)
next
  case (ok ciphertext)
  show ?thesis
  proof (cases saltHex rule: hex_DecodeString_cases)
    case odd
    with ok show ?thesis by (simp add: DecryptPrivateKey_def DeriveKeyFromPassword_def)
  next
    case (invalid c)
    with ok show ?thesis by (simp add: DecryptPrivateKey_def DeriveKeyFromPassword_def)
  next
    case (ok salt)
    define derivedKey where
      "derivedKey = argon2_IDKey P password salt argonTime argonMemory argonThreads argonKeyLen"
    have dk: "DeriveKeyFromPassword P password saltHex = Ok derivedKey"
      using ok by (simp add: DeriveKeyFromPassword_def derivedKey_def)
    show ?thesis
    proof (cases "length derivedKey = 16 \<or> length derivedKey = 24 \<or> length derivedKey = 32")
      case False
      then have "aes_NewCipher derivedKey = Err (AesKeySize (length derivedKey))"
        by (simp add: aes_NewCipher_def)
      with \<open>base64_DecodeString encryptedB64 = Ok ciphertext\<close> dk show ?thesis
        by (simp add: DecryptPrivateKey_def)
    next
      case True
      then have blk: "aes_NewCipher derivedKey = Ok derivedKey"
        by (auto simp: aes_NewCipher_def)
      show ?thesis
      proof (cases "length ciphertext < 12")
        case True
        with \<open>base64_DecodeString encryptedB64 = Ok ciphertext\<close> dk blk show ?thesis
          by (simp add: DecryptPrivateKey_def cipher_NewGCM_def gcm_NonceSize_def)
      next
        case False
        then have nl: "length (take 12 ciphertext) = 12" by simp
        show ?thesis
        proof -
          have "(\<exists>plaintext. gcm_Open P derivedKey [] (take 12 ciphertext) (drop 12 ciphertext) = Ok plaintext)
              \<or> gcm_Open P derivedKey [] (take 12 ciphertext) (drop 12 ciphertext) = Err GcmOpenFailed"
            by (rule gcm_Open_outcomes [OF nl])
          with \<open>base64_DecodeString encryptedB64 = Ok ciphertext\<close> dk blk False show ?thesis
            by (auto simp: DecryptPrivateKey_def cipher_NewGCM_def gcm_NonceSize_def)
        qed
      qed
    qed
  qed
qed

lemma DecryptSecret_outcomes:
  assumes "\<forall>nonce. base64_DecodeString nonceB64 = Ok nonce \<longrightarrow> length nonce = 12"
  shows "(\<exists>plaintext. DecryptSecret P ciphertextB64 nonceB64 workspaceKey = Ok plaintext)
    \<or> (\<exists>n. DecryptSecret P ciphertextB64 nonceB64 workspaceKey =
            Err (Wrap ''failed to decode ciphertext'' (Base64CorruptInput n)))
    \<or> (\<exists>n. DecryptSecret P ciphertextB64 nonceB64 workspaceKey =
            Err (Wrap ''failed to decode nonce'' (Base64CorruptInput n)))
    \<or> (\<exists>k. DecryptSecret P ciphertextB64 nonceB64 workspaceKey =
            Err (Wrap ''failed to create cipher'' (AesKeySize k)))
    \<or> DecryptSecret P ciphertextB64 nonceB64 workspaceKey = Err (Wrap ''failed to decrypt'' GcmOpenFailed)"
proof (cases ciphertextB64 rule: base64_DecodeString_cases)
  case (corrupt n)
  then show ?thesis by (simp add: DecryptSecret_def)
next
  case (ok ciphertext)
  note ct = ok
  show ?thesis
  proof (cases nonceB64 rule: base64_DecodeString_cases)
    case (corrupt n)
    with ct show ?thesis by (simp add: DecryptSecret_def)
  next
    case (ok nonce)
    then have nl: "length nonce = 12" using assms by blast
    show ?thesis
    proof (cases "length workspaceKey = 16 \<or> length workspaceKey = 24 \<or> length workspaceKey = 32")
      case False
      then have "aes_NewCipher workspaceKey = Err (AesKeySize (length workspaceKey))"
        by (simp add: aes_NewCipher_def)
      with ct ok show ?thesis by (simp add: DecryptSecret_def)
    next
      case True
      then have blk: "aes_NewCipher workspaceKey = Ok workspaceKey"
        by (auto simp: aes_NewCipher_def)
      show ?thesis
      proof -
        have "(\<exists>plaintext. gcm_Open P workspaceKey [] nonce ciphertext = Ok plaintext)
            \<or> gcm_Open P workspaceKey [] nonce ciphertext = Err GcmOpenFailed"
          by (rule gcm_Open_outcomes [OF nl])
        with ct ok blk show ?thesis
          by (auto simp: DecryptSecret_def cipher_NewGCM_def)
      qed
    qed
  qed
qed

text \<open>
  Where the rejection of a wrong password comes from: when the tag does not verify under
  the key derived from the password, \<^verbatim>\<open>DecryptPrivateKey\<close> returns the error of the
  authenticated decryption and no bytes.  That the tag does not verify under a key
  derived from another password is a property of Argon2id and AES-GCM, not of this
  code.
\<close>

lemma DecryptPrivateKey_tag_mismatch:
  assumes "base64_DecodeString encryptedB64 = Ok ciphertext"
    and "DeriveKeyFromPassword P password saltHex = Ok derivedKey"
    and "length derivedKey = 32"
    and "12 \<le> length ciphertext"
    and "aesgcm_open P derivedKey (take 12 ciphertext) (drop 12 ciphertext) = None"
  shows "DecryptPrivateKey P encryptedB64 password saltHex =
     Err (Wrap ''failed to decrypt private key (wrong password?)'' GcmOpenFailed)"
  using assms
  by (simp add: DecryptPrivateKey_def aes_NewCipher_def cipher_NewGCM_def gcm_NonceSize_def
      gcm_Open_def Let_def)

section \<open>What a failed decryption tells the caller\<close>

text \<open>
  C8, as the code has it.  A failure of \<^verbatim>\<open>DecryptPrivateKey\<close> or \<^verbatim>\<open>DecryptSecret\<close> is
  reported with the stage that failed, and the stages are tried in this order.
  \<^verbatim>\<open>DecryptPrivateKey\<close>: when the base64 text of the ciphertext does not decode, the
  decoder's error (it gives the index of the offending byte) behind \<^verbatim>\<open>failed to decode
  encrypted private key\<close>; else when the hexadecimal salt does not decode, the decoder's
  error (the offending byte, or the odd length) behind \<^verbatim>\<open>invalid salt hex\<close>; else when
  the derived key has no AES key size, the size behind \<^verbatim>\<open>failed to create cipher\<close>; else
  when the ciphertext is shorter than the 12 bytes of the nonce, \<^verbatim>\<open>ciphertext too
  short\<close>; else when the authenticated decryption fails, one and the same error,
  \<^verbatim>\<open>errOpen\<close> behind \<^verbatim>\<open>failed to decrypt private key (wrong password?)\<close>, whether the
  rest is too short to hold a tag, too long, or the tag does not verify (wrong key,
  tampered ciphertext); else the private key.  \<^verbatim>\<open>DecryptPrivateKey\<close> never panics.
  \<^verbatim>\<open>DecryptSecret\<close>: the base64 text of the ciphertext, then that of the nonce, then the
  size of the workspace key, and then, for a nonce of 12 bytes, the authenticated
  decryption with the one error behind \<^verbatim>\<open>failed to decrypt\<close>; else the plaintext.
\<close>

theorem decrypt_failures_name_the_stage:
  "(base64_DecodeString encryptedB64 = Err e \<longrightarrow>
      DecryptPrivateKey P encryptedB64 password saltHex =
        Err (Wrap ''failed to decode encrypted private key'' e))
   \<and> (base64_DecodeString encryptedB64 = Ok ciphertext \<and> hex_DecodeString saltHex = Err e \<longrightarrow>
      DecryptPrivateKey P encryptedB64 password saltHex = Err (Wrap ''invalid salt hex'' e))
   \<and> (base64_DecodeString encryptedB64 = Ok ciphertext
       \<and> DeriveKeyFromPassword P password saltHex = Ok derivedKey
       \<and> length derivedKey \<noteq> 16 \<and> length derivedKey \<noteq> 24 \<and> length derivedKey \<noteq> 32 \<longrightarrow>
      DecryptPrivateKey P encryptedB64 password saltHex =
        Err (Wrap ''failed to create cipher'' (AesKeySize (length derivedKey))))
   \<and> (base64_DecodeString encryptedB64 = Ok ciphertext
       \<and> DeriveKeyFromPassword P password saltHex = Ok derivedKey
       \<and> (length derivedKey = 16 \<or> length derivedKey = 24 \<or> length derivedKey = 32)
       \<and> length ciphertext < 12 \<longrightarrow>
      DecryptPrivateKey P encryptedB64 password saltHex = Err (Msg ''ciphertext too short''))
   \<and> (base64_DecodeString encryptedB64 = Ok ciphertext
       \<and> DeriveKeyFromPassword P password saltHex = Ok derivedKey
       \<and> (length derivedKey = 16 \<or> length derivedKey = 24 \<or> length derivedKey = 32)
       \<and> 12 \<le> length ciphertext
       \<and> (length (drop 12 ciphertext) < 16
          \<or> gcm_maxPlaintext + 16 < length (drop 12 ciphertext)
          \<or> aesgcm_open P derivedKey (take 12 ciphertext) (drop 12 ciphertext) = None) \<longrightarrow>
      DecryptPrivateKey P encryptedB64 password saltHex =
        Err (Wrap ''failed to decrypt private key (wrong password?)'' GcmOpenFailed))
   \<and> (base64_DecodeString encryptedB64 = Ok ciphertext
       \<and> DeriveKeyFromPassword P password saltHex = Ok derivedKey
       \<and> (length derivedKey = 16 \<or> length derivedKey = 24 \<or> length derivedKey = 32)
       \<and> 12 \<le> length ciphertext
       \<and> 16 \<le> length (drop 12 ciphertext)
       \<and> length (drop 12 ciphertext) \<le> gcm_maxPlaintext + 16
       \<and> aesgcm_open P derivedKey (take 12 ciphertext) (drop 12 ciphertext) = Some privateKey \<longrightarrow>
      DecryptPrivateKey P encryptedB64 password saltHex = Ok privateKey)
   \<and> (base64_DecodeString ciphertextB64 = Err e \<longrightarrow>
      DecryptSecret P ciphertextB64 nonceB64 workspaceKey =
        Err (Wrap ''failed to decode ciphertext'' e))
   \<and> (base64_DecodeString ciphertextB64 = Ok sealed \<and> base64_DecodeString nonceB64 = Err e \<longrightarrow>
      DecryptSecret P ciphertextB64 nonceB64 workspaceKey = Err (Wrap ''failed to decode nonce'' e))
   \<and> (base64_DecodeString ciphertextB64 = Ok sealed \<and> base64_DecodeString nonceB64 = Ok nonce
       \<and> length workspaceKey \<noteq> 16 \<and> length workspaceKey \<noteq> 24 \<and> length workspaceKey \<noteq> 32 \<longrightarrow>
      DecryptSecret P ciphertextB64 nonceB64 workspaceKey =
        Err (Wrap ''failed to create cipher'' (AesKeySize (length workspaceKey))))
   \<and> (base64_DecodeString ciphertextB64 = Ok sealed \<and> base64_DecodeString nonceB64 = Ok nonce
       \<and> (length workspaceKey = 16 \<or> length workspaceKey = 24 \<or> length workspaceKey = 32)
       \<and> length nonce = 12
       \<and> (length sealed < 16
          \<or> gcm_maxPlaintext + 16 < length sealed
          \<or> aesgcm_open P workspaceKey nonce sealed = None) \<longrightarrow>
      DecryptSecret P ciphertextB64 nonceB64 workspaceKey = Err (Wrap ''failed to decrypt'' GcmOpenFailed))
   \<and> (base64_DecodeString ciphertextB64 = Ok sealed \<and> base64_DecodeString nonceB64 = Ok nonce
       \<and> (length workspaceKey = 16 \<or> length workspaceKey = 24 \<or> length workspaceKey = 32)
       \<and> length nonce = 12
       \<and> 16 \<le> length sealed \<and> length sealed \<le> gcm_maxPlaintext + 16
       \<and> aesgcm_open P workspaceKey nonce sealed = Some plaintext \<longrightarrow>
      DecryptSecret P ciphertextB64 nonceB64 workspaceKey = Ok plaintext)
   \<and> DecryptPrivateKey P encryptedB64 password saltHex \<noteq> Panicked m"
proof (intro conjI impI)
  assume "base64_DecodeString encryptedB64 = Err e"
  then show "DecryptPrivateKey P encryptedB64 password saltHex =
      Err (Wrap ''failed to decode encrypted private key'' e)"
    by (simp add: DecryptPrivateKey_def)
next
  assume "base64_DecodeString encryptedB64 = Ok ciphertext \<and> hex_DecodeString saltHex = Err e"
  then show "DecryptPrivateKey P encryptedB64 password saltHex = Err (Wrap ''invalid salt hex'' e)"
    by (simp add: DecryptPrivateKey_def DeriveKeyFromPassword_def)
next
  assume "base64_DecodeString encryptedB64 = Ok ciphertext
       \<and> DeriveKeyFromPassword P password saltHex = Ok derivedKey
       \<and> length derivedKey \<noteq> 16 \<and> length derivedKey \<noteq> 24 \<and> length derivedKey \<noteq> 32"
  then show "DecryptPrivateKey P encryptedB64 password saltHex =
        Err (Wrap ''failed to create cipher'' (AesKeySize (length derivedKey)))"
    by (simp add: DecryptPrivateKey_def aes_NewCipher_def)
next
  assume "base64_DecodeString encryptedB64 = Ok ciphertext
       \<and> DeriveKeyFromPassword P password saltHex = Ok derivedKey
       \<and> (length derivedKey = 16 \<or> length derivedKey = 24 \<or> length derivedKey = 32)
       \<and> length ciphertext < 12"
  then show "DecryptPrivateKey P encryptedB64 password saltHex = Err (Msg ''ciphertext too short'')"
    by (auto simp: DecryptPrivateKey_def aes_NewCipher_def cipher_NewGCM_def gcm_NonceSize_def)
next
  assume "base64_DecodeString encryptedB64 = Ok ciphertext
       \<and> DeriveKeyFromPassword P password saltHex = Ok derivedKey
       \<and> (length derivedKey = 16 \<or> length derivedKey = 24 \<or> length derivedKey = 32)
       \<and> 12 \<le> length ciphertext
       \<and> (length (drop 12 ciphertext) < 16
          \<or> gcm_maxPlaintext + 16 < length (drop 12 ciphertext)
          \<or> aesgcm_open P derivedKey (take 12 ciphertext) (drop 12 ciphertext) = None)"
  then show "DecryptPrivateKey P encryptedB64 password saltHex =
        Err (Wrap ''failed to decrypt private key (wrong password?)'' GcmOpenFailed)"
    by (auto simp: DecryptPrivateKey_def aes_NewCipher_def cipher_NewGCM_def gcm_NonceSize_def
        gcm_Open_def gcm_tagSize_def Let_def)
next
  assume "base64_DecodeString encryptedB64 = Ok ciphertext
       \<and> DeriveKeyFromPassword P password saltHex = Ok derivedKey
       \<and> (length derivedKey = 16 \<or> length derivedKey = 24 \<or> length derivedKey = 32)
       \<and> 12 \<le> length ciphertext
       \<and> 16 \<le> length (drop 12 ciphertext)
       \<and> length (drop 12 ciphertext) \<le> gcm_maxPlaintext + 16
       \<and> aesgcm_open P derivedKey (take 12 ciphertext) (drop 12 ciphertext) = Some privateKey"
  then show "DecryptPrivateKey P encryptedB64 password saltHex = Ok privateKey"
    by (auto simp: DecryptPrivateKey_def aes_NewCipher_def cipher_NewGCM_def gcm_NonceSize_def
        gcm_Open_def gcm_tagSize_def Let_def)
next
  assume "base64_DecodeString ciphertextB64 = Err e"
  then show "DecryptSecret P ciphertextB64 nonceB64 workspaceKey =
        Err (Wrap ''failed to decode ciphertext'' e)"
    by (simp add: DecryptSecret_def)
next
  assume "base64_DecodeString ciphertextB64 = Ok sealed \<and> base64_DecodeString nonceB64 = Err e"
  then show "DecryptSecret P ciphertextB64 nonceB64 workspaceKey = Err (Wrap ''failed to decode nonce'' e)"
    by (simp add: DecryptSecret_def)
next
  assume "base64_DecodeString ciphertextB64 = Ok sealed \<and> base64_DecodeString nonceB64 = Ok nonce
       \<and> length workspaceKey \<noteq> 16 \<and> length workspaceKey \<noteq> 24 \<and> length workspaceKey \<noteq> 32"
  then show "DecryptSecret P ciphertextB64 nonceB64 workspaceKey =
        Err (Wrap ''failed to create cipher'' (AesKeySize (length workspaceKey)))"
    by (simp add: DecryptSecret_def aes_NewCipher_def)
next
  assume "base64_DecodeString ciphertextB64 = Ok sealed \<and> base64_DecodeString nonceB64 = Ok nonce
       \<and> (length workspaceKey = 16 \<or> length workspaceKey = 24 \<or> length workspaceKey = 32)
       \<and> length nonce = 12
       \<and> (length sealed < 16
          \<or> gcm_maxPlaintext + 16 < length sealed
          \<or> aesgcm_open P workspaceKey nonce sealed = None)"
  then show "DecryptSecret P ciphertextB64 nonceB64 workspaceKey = Err (Wrap ''failed to decrypt'' GcmOpenFailed)"
    by (auto simp: DecryptSecret_def aes_NewCipher_def cipher_NewGCM_def gcm_NonceSize_def
        gcm_Open_def gcm_tagSize_def)
next
  assume "base64_DecodeString ciphertextB64 = Ok sealed \<and> base64_DecodeString nonceB64 = Ok nonce
       \<and> (length workspaceKey = 16 \<or> length workspaceKey = 24 \<or> length workspaceKey = 32)
       \<and> length nonce = 12
       \<and> 16 \<le> length sealed \<and> length sealed \<le> gcm_maxPlaintext + 16
       \<and> aesgcm_open P workspaceKey nonce sealed = Some plaintext"
  then show "DecryptSecret P ciphertextB64 nonceB64 workspaceKey = Ok plaintext"
    by (auto simp: DecryptSecret_def aes_NewCipher_def cipher_NewGCM_def gcm_NonceSize_def
        gcm_Open_def gcm_tagSize_def)
next
  show "DecryptPrivateKey P encryptedB64 password saltHex \<noteq> Panicked m"
    using DecryptPrivateKey_outcomes [of P encryptedB64 password saltHex] by auto
qed

text \<open>
  A private key and a secret whose ciphertext is too short to hold a tag: the stage is
  the authenticated decryption, and the error is the one of that stage.
\<close>

theorem decrypt_failures_name_the_stage_witness:
  "base64_DecodeString (base64_EncodeToString (take 12 demo_rand)) = Ok (take 12 demo_rand)
   \<and> DeriveKeyFromPassword demo_prims ''pw'' [] =
       Ok (argon2_IDKey demo_prims ''pw'' [] argonTime argonMemory argonThreads argonKeyLen)
   \<and> length (argon2_IDKey demo_prims ''pw'' [] argonTime argonMemory argonThreads argonKeyLen) = 32
   \<and> 12 \<le> length (take 12 demo_rand)
   \<and> length (drop 12 (take 12 demo_rand)) < 16
   \<and> DecryptPrivateKey demo_prims (base64_EncodeToString (take 12 demo_rand)) ''pw'' [] =
       Err (Wrap ''failed to decrypt private key (wrong password?)'' GcmOpenFailed)
   \<and> base64_DecodeString [] = Ok []
   \<and> length zero_key = 32
   \<and> length (take 12 demo_rand) = 12
   \<and> DecryptSecret demo_prims [] (base64_EncodeToString (take 12 demo_rand)) zero_key =
       Err (Wrap ''failed to decrypt'' GcmOpenFailed)"
proof -
  have n12: "length (take 12 demo_rand) = 12" and d: "drop 12 (take 12 demo_rand) = []"
    by (simp_all add: demo_rand_def)
  have b: "base64_DecodeString [] = Ok []"
    by (simp add: base64_DecodeString_def)
  have dk: "DeriveKeyFromPassword demo_prims ''pw'' [] =
      Ok (argon2_IDKey demo_prims ''pw'' [] argonTime argonMemory argonThreads argonKeyLen)"
    by (simp add: DeriveKeyFromPassword_def)
  have kl: "length (argon2_IDKey demo_prims ''pw'' [] argonTime argonMemory argonThreads argonKeyLen) = 32"
    using demo_prims_argon2_length by (simp add: argon2_length_def argonKeyLen_def)
  have zl: "length zero_key = 32"
    by (simp add: zero_key_def)
  show ?thesis
    using decrypt_failures_name_the_stage
      [of "base64_EncodeToString (take 12 demo_rand)" _ demo_prims "''pw''" "[]"
         "take 12 demo_rand"
         "argon2_IDKey demo_prims ''pw'' [] argonTime argonMemory argonThreads argonKeyLen" _
         "[]" "base64_EncodeToString (take 12 demo_rand)" zero_key "[]" "take 12 demo_rand"]
      n12 d b dk kl zl
    by (simp add: base64_roundtrip)
qed

text \<open>
  C8 as stated fails: these failing inputs get different messages, and the messages
  tell the base64 text from the salt, the length and the tag, down to the index of
  the bad byte.
\<close>

theorem decrypt_messages_differ:
  "failure_message (DecryptSecret demo_prims ''!'' [] zero_key) =
     Some ''failed to decode ciphertext: illegal base64 data at input byte 0''
   \<and> failure_message (DecryptSecret demo_prims [] ''A!'' zero_key) =
     Some ''failed to decode nonce: illegal base64 data at input byte 1''
   \<and> failure_message (DecryptPrivateKey demo_prims ''!'' ''pw'' []) =
     Some ''failed to decode encrypted private key: illegal base64 data at input byte 0''
   \<and> failure_message (DecryptPrivateKey demo_prims [] ''pw'' ''zz'') =
     Some (''invalid salt hex: encoding/hex: invalid byte: U+007A '' @ [CHR 0x27, CHR ''z'', CHR 0x27])
   \<and> failure_message (DecryptPrivateKey demo_prims [] ''pw'' ''abc'') =
     Some ''invalid salt hex: encoding/hex: odd length hex string''
   \<and> failure_message (DecryptPrivateKey demo_prims [] ''pw'' []) =
     Some ''ciphertext too short''
   \<and> failure_message (DecryptPrivateKey demo_prims (base64_EncodeToString (take 12 demo_rand)) ''pw'' []) =
     Some ''failed to decrypt private key (wrong password?): cipher: message authentication failed''"
proof -
  have n12: "length (take 12 demo_rand) = 12"
    by (simp add: demo_rand_def)
  have i0: "itoa 0 = ''0''" and i1: "itoa (Suc 0) = ''1''"
    by (simp_all add: itoa.simps digits10_def)
  have b1: "base64_DecodeString ''!'' = Err (Base64CorruptInput 0)"
    by (simp add: base64_DecodeString_def decodeMap_def encodeStd_def)
  have b2: "base64_DecodeString ''A!'' = Err (Base64CorruptInput 1)"
    by (simp add: base64_DecodeString_def decodeMap_def encodeStd_def)
  have b3: "base64_DecodeString [] = Ok []"
    by (simp add: base64_DecodeString_def)
  have k: "aes_NewCipher (argon2_IDKey demo_prims ''pw'' [] argonTime argonMemory argonThreads argonKeyLen)
      = Ok (argon2_IDKey demo_prims ''pw'' [] argonTime argonMemory argonThreads argonKeyLen)"
    using demo_prims_argon2_length by (simp add: aes_NewCipher_def argon2_length_def argonKeyLen_def)
  have 1: "DecryptSecret demo_prims ''!'' [] zero_key =
      Err (Wrap ''failed to decode ciphertext'' (Base64CorruptInput 0))"
    by (simp add: DecryptSecret_def b1)
  have 2: "DecryptSecret demo_prims [] ''A!'' zero_key =
      Err (Wrap ''failed to decode nonce'' (Base64CorruptInput 1))"
    by (simp add: DecryptSecret_def b2 b3)
  have 3: "DecryptPrivateKey demo_prims ''!'' ''pw'' [] =
      Err (Wrap ''failed to decode encrypted private key'' (Base64CorruptInput 0))"
    by (simp add: DecryptPrivateKey_def b1)
  have 4: "DecryptPrivateKey demo_prims [] ''pw'' ''zz'' =
      Err (Wrap ''invalid salt hex'' (HexInvalidByte (CHR ''z'')))"
    by (simp add: DecryptPrivateKey_def b3 DeriveKeyFromPassword_def fromHexChar_def)
  have 5: "DecryptPrivateKey demo_prims [] ''pw'' ''abc'' =
      Err (Wrap ''invalid salt hex'' HexErrLength)"
    by (simp add: DecryptPrivateKey_def b3 DeriveKeyFromPassword_def fromHexChar_def)
  have 6: "DecryptPrivateKey demo_prims [] ''pw'' [] = Err (Msg ''ciphertext too short'')"
    by (simp add: DecryptPrivateKey_def b3 DeriveKeyFromPassword_def k cipher_NewGCM_def gcm_NonceSize_def)
  have 7: "DecryptPrivateKey demo_prims (base64_EncodeToString (take 12 demo_rand)) ''pw'' [] =
      Err (Wrap ''failed to decrypt private key (wrong password?)'' GcmOpenFailed)"
    using n12 by (simp add: DecryptPrivateKey_def base64_roundtrip DeriveKeyFromPassword_def k
        cipher_NewGCM_def gcm_NonceSize_def gcm_Open_def gcm_tagSize_def)
  show ?thesis
    unfolding 1 2 3 4 5 6 7
    by (simp add: i0 i1 fmt_sharpU_def utf8_def IsPrint_def upperhex_def)
qed


section \<open>Facts about JSON text\<close>

declare json_string.simps(2) [simp del]

lemma utf8_first_Some:
  "utf8_first a = Some (sz, lo, hi) \<Longrightarrow> (sz = 2 \<or> sz = 3 \<or> sz = 4) \<and> 128 \<le> a"
  by (auto simp: utf8_first_def split: if_splits)

lemma utf8_rune_size_multi:
  assumes "\<not> (of_char s0 :: nat) < 128" and "utf8_first (of_char s0) = Some (sz, lo, hi)"
  shows "utf8_rune_size (s0 # rest) = (if utf8_accepts (s0 # rest) sz lo hi then sz else 0)"
proof -
  from utf8_first_Some [OF assms(2)] have "sz = 2 \<or> sz = 3 \<or> sz = 4" by simp
  then show ?thesis
  proof (elim disjE)
    assume "sz = 2"
    then show ?thesis
      using assms by (auto simp: utf8_rune_size_def utf8_accepts_def not_less Suc_le_eq)
  next
    assume "sz = 3"
    then show ?thesis
      using assms by (simp add: utf8_rune_size_def utf8_accepts_def not_less)
  next
    assume "sz = 4"
    then show ?thesis
      using assms by (simp add: utf8_rune_size_def utf8_accepts_def not_less)
  qed
qed

lemma utf8_rune_size_cases:
  obtains (empty) "s = []" "utf8_rune_size s = 0"
  | (ascii) s0 rest where "s = s0 # rest" "(of_char s0 :: nat) < 128" "utf8_rune_size s = 1"
  | (invalid) s0 rest where "s = s0 # rest" "\<not> (of_char s0 :: nat) < 128" "utf8_rune_size s = 0"
  | (multi) s0 rest sz lo hi where "s = s0 # rest" "\<not> (of_char s0 :: nat) < 128"
      "utf8_first (of_char s0) = Some (sz, lo, hi)" "utf8_accepts s sz lo hi"
      "sz = 2 \<or> sz = 3 \<or> sz = 4" "utf8_rune_size s = sz"
proof (cases s)
  case Nil
  then show ?thesis by (simp add: empty utf8_rune_size_def)
next
  case (Cons s0 rest)
  show ?thesis
  proof (cases "(of_char s0 :: nat) < 128")
    case True
    then show ?thesis using Cons by (simp add: ascii utf8_rune_size_def)
  next
    case False
    show ?thesis
    proof (cases "utf8_first (of_char s0)")
      case None
      then show ?thesis using Cons False by (simp add: invalid utf8_rune_size_def)
    next
      case (Some t)
      obtain sz lo hi where t: "t = (sz, lo, hi)" by (cases t)
      note f = Some [unfolded t]
      from utf8_first_Some [OF f] have sz: "sz = 2 \<or> sz = 3 \<or> sz = 4" by simp
      show ?thesis
      proof (cases "utf8_accepts s sz lo hi")
        case True
        then have "utf8_rune_size s = sz"
          using utf8_rune_size_multi [OF False f, of rest] by (simp add: Cons)
        with Cons False f True sz show ?thesis by (rule multi)
      next
        case False
        then have "utf8_rune_size s = 0"
          using utf8_rune_size_multi [OF \<open>\<not> (of_char s0 :: nat) < 128\<close> f, of rest] by (simp add: Cons)
        with Cons \<open>\<not> (of_char s0 :: nat) < 128\<close> show ?thesis by (rule invalid)
      qed
    qed
  qed
qed

lemma utf8_rune_size_le: "utf8_rune_size s \<le> length s"
  by (cases s rule: utf8_rune_size_cases) (simp_all add: utf8_accepts_def)

lemma utf8_rune_size_ascii: "(of_char s0 :: nat) < 128 \<Longrightarrow> utf8_rune_size (s0 # rest) = 1"
  by (simp add: utf8_rune_size_def)

lemma utf8_rune_size_prefix:
  assumes "utf8_rune_size s = n" and "0 < n"
  shows "utf8_rune_size (take n s @ ys) = n"
proof (cases s rule: utf8_rune_size_cases)
  case empty
  with assms show ?thesis by simp
next
  case (ascii s0 rest)
  with assms have "n = 1" by simp
  with ascii show ?thesis by (simp add: utf8_rune_size_ascii)
next
  case (invalid s0 rest)
  with assms show ?thesis by simp
next
  case (multi s0 rest sz lo hi)
  from multi(6) assms(1) have n: "n = sz" by simp
  from multi(4) have len: "sz \<le> length s" by (simp add: utf8_accepts_def)
  have nth: "(take sz s @ ys) ! i = s ! i" if "i < sz" for i
    using that len by (simp add: nth_append)
  have t: "take sz s @ ys = s0 # (take (sz - 1) rest @ ys)"
    using multi(5) by (auto simp: multi(1) take_Cons')
  have acc: "utf8_accepts (take sz s @ ys) sz lo hi"
    using multi(4) multi(5) len nth [of 1] nth [of 2] nth [of 3]
    by (auto simp: utf8_accepts_def)
  have "utf8_rune_size (take sz s @ ys) =
      (if utf8_accepts (take sz s @ ys) sz lo hi then sz else 0)"
    unfolding t by (rule utf8_rune_size_multi [OF multi(2,3)])
  with acc show ?thesis
    by (simp add: n)
qed

lemma utf8_rune_size_replacement:
  "utf8_rune_size (CHR 0xEF # CHR 0xBF # CHR 0xBD # ys) = 3"
  by (simp add: utf8_rune_size_def utf8_first_def)

lemma json_string_valid_append:
  assumes "utf8_rune_size (v @ ys) = length v" and "v \<noteq> []"
  shows "json_string (v @ ys) = v @ json_string ys"
proof -
  from assms(2) obtain s0 rest where v: "v = s0 # rest" by (cases v) auto
  show ?thesis
    using assms(1) unfolding v by (simp add: json_string.simps(2))
qed

lemma json_string_idem: "json_string (json_string s) = json_string s"
proof (induction s rule: json_string.induct)
  case 1
  show ?case by simp
next
  case (2 s0 rest)
  show ?case
  proof (cases "utf8_rune_size (s0 # rest) = 0")
    case True
    have "json_string ([CHR 0xEF, CHR 0xBF, CHR 0xBD] @ json_string rest) =
        [CHR 0xEF, CHR 0xBF, CHR 0xBD] @ json_string (json_string rest)"
      by (rule json_string_valid_append) (simp_all add: utf8_rune_size_replacement)
    then show ?thesis
      using True 2(1) by (simp add: json_string.simps(2))
  next
    case False
    define n where "n = utf8_rune_size (s0 # rest)"
    have n0: "0 < n" using False by (simp add: n_def)
    have nl: "n \<le> length (s0 # rest)"
      unfolding n_def by (rule utf8_rune_size_le)
    have "json_string (take n (s0 # rest) @ json_string (drop n (s0 # rest))) =
        take n (s0 # rest) @ json_string (json_string (drop n (s0 # rest)))"
    proof (rule json_string_valid_append)
      show "utf8_rune_size (take n (s0 # rest) @ json_string (drop n (s0 # rest))) =
          length (take n (s0 # rest))"
        using utf8_rune_size_prefix [OF n_def [symmetric] n0] nl by simp
      show "take n (s0 # rest) \<noteq> []" using n0 by (simp add: take_Cons')
    qed
    then show ?thesis
      using False 2(2) by (simp add: json_string.simps(2) n_def)
  qed
qed

lemma json_string_ascii: "\<forall>c \<in> set s. (of_char c :: nat) < 128 \<Longrightarrow> json_string s = s"
  by (induction s) (simp_all add: json_string.simps(2) utf8_rune_size_ascii)

lemma json_string_Nil_iff [simp]: "json_string s = [] \<longleftrightarrow> s = []"
  by (cases s) (auto simp: json_string.simps(2) take_Cons')

text \<open>An email with a byte that is not UTF-8, as it comes back from the file.\<close>

lemma json_string_example:
  "json_string (''bob'' @ [CHR 0xFF] @ ''@example.com'') =
     ''bob'' @ [CHR 0xEF, CHR 0xBF, CHR 0xBD] @ ''@example.com''"
  by (simp add: json_string.simps(2) utf8_rune_size_def utf8_first_def)

lemma json_WorkspaceCacheEntry_idem:
  "json_WorkspaceCacheEntry (json_WorkspaceCacheEntry entry) = json_WorkspaceCacheEntry entry"
  by (simp add: json_WorkspaceCacheEntry_def json_string_idem)

lemma json_GlobalConfig_idem:
  "json_GlobalConfig (json_GlobalConfig config) = json_GlobalConfig config"
  by (simp add: json_GlobalConfig_def json_string_idem json_WorkspaceCacheEntry_idem
      case_prod_beta comp_def)

lemma json_GlobalConfig_empty: "json_GlobalConfig empty_GlobalConfig = empty_GlobalConfig"
  by (simp add: json_GlobalConfig_def empty_GlobalConfig_def)

lemma json_TokenConfig_empty: "json_TokenConfig empty_TokenConfig = empty_TokenConfig"
  by (simp add: json_TokenConfig_def empty_TokenConfig_def)

lemma json_GlobalConfig_fields:
  "Email (json_GlobalConfig config) = json_string (Email config)"
  "SelectedWorkspaceID (json_GlobalConfig config) = json_string (SelectedWorkspaceID config)"
  "Workspaces (json_GlobalConfig config) =
     map (\<lambda>(wid, entry). (json_string wid, json_WorkspaceCacheEntry entry)) (Workspaces config)"
  by (simp_all add: json_GlobalConfig_def)

lemma json_GlobalConfig_update:
  "json_GlobalConfig (config\<lparr>Email := email\<rparr>) =
     (json_GlobalConfig config)\<lparr>Email := json_string email\<rparr>"
  "json_GlobalConfig (config\<lparr>SelectedWorkspaceID := wid\<rparr>) =
     (json_GlobalConfig config)\<lparr>SelectedWorkspaceID := json_string wid\<rparr>"
  "json_GlobalConfig (config\<lparr>Workspaces := workspaces\<rparr>) =
     (json_GlobalConfig config)\<lparr>Workspaces :=
        map (\<lambda>(wid, entry). (json_string wid, json_WorkspaceCacheEntry entry)) workspaces\<rparr>"
  by (simp_all add: json_GlobalConfig_def)

section \<open>Facts about the configuration files and the key store\<close>


lemma GetPaths_Ok: "home w = Some h \<Longrightarrow> \<exists>paths. GetPaths w = Ok paths"
  by (simp add: GetPaths_def Let_def)

lemma GetPaths_Err: "home w = None \<Longrightarrow> \<exists>e. GetPaths w = Err e"
  by (simp add: GetPaths_def)

lemma GetPaths_config_json [simp]: "GetPaths (w\<lparr>config_json := f\<rparr>) = GetPaths w"
  and GetPaths_token_json [simp]: "GetPaths (w\<lparr>token_json := g\<rparr>) = GetPaths w"
  and GetPaths_keychain [simp]: "GetPaths (w\<lparr>keychain := k\<rparr>) = GetPaths w"
  by (simp_all add: GetPaths_def)

lemma ClearSession_Success_iff:
  "fst (ClearSession w) = Success \<longleftrightarrow> home w \<noteq> None \<and> config_writable w \<and> token_writable w"
  by (auto simp: ClearSession_def GetPaths_def writeJSON_def Let_def split: option.splits)

lemma ClearSession_Success:
  assumes "home w \<noteq> None" "config_writable w" "token_writable w"
  shows "ClearSession w = (Success, w\<lparr>config_json := Holds empty_GlobalConfig, token_json := Holds empty_TokenConfig\<rparr>)"
  using assms by (auto simp: ClearSession_def GetPaths_def writeJSON_def Let_def)

lemma ClearSession_keychain: "keychain (snd (ClearSession w)) = keychain w"
  by (auto simp: ClearSession_def GetPaths_def writeJSON_def Let_def split: option.splits)

lemma gokeyring_Delete_flags:
  "home (snd (gokeyring_Delete w s u)) = home w"
  "config_writable (snd (gokeyring_Delete w s u)) = config_writable w"
  "token_writable (snd (gokeyring_Delete w s u)) = token_writable w"
  "keychain_available (snd (gokeyring_Delete w s u)) = keychain_available w"
  "config_json (snd (gokeyring_Delete w s u)) = config_json w"
  "token_json (snd (gokeyring_Delete w s u)) = token_json w"
  by (simp_all add: gokeyring_Delete_def)

lemma gokeyring_Delete_keychain:
  "keychain_available w \<Longrightarrow> keychain (snd (gokeyring_Delete w s u)) = (keychain w)((s, u) := None)"
  by (auto simp: gokeyring_Delete_def)

lemma gokeyring_Delete_unavailable:
  "\<not> keychain_available w \<Longrightarrow> snd (gokeyring_Delete w s u) = w"
  by (simp add: gokeyring_Delete_def)

lemma DeleteKeypair_Success: "fst (DeleteKeypair w email) = Success"
  by (simp add: DeleteKeypair_def Let_def)

lemma DeleteKeypair_flags:
  "home (snd (DeleteKeypair w email)) = home w"
  "config_writable (snd (DeleteKeypair w email)) = config_writable w"
  "token_writable (snd (DeleteKeypair w email)) = token_writable w"
  "keychain_available (snd (DeleteKeypair w email)) = keychain_available w"
  by (simp_all add: DeleteKeypair_def Let_def gokeyring_Delete_flags)

lemma DeleteKeypair_keychain:
  "keychain_available w \<Longrightarrow>
     keychain (snd (DeleteKeypair w email)) =
       (keychain w)((serviceName, email @ ''_private_key'') := None,
                    (serviceName, email @ ''_public_key'') := None)"
  by (simp add: DeleteKeypair_def Let_def gokeyring_Delete_keychain gokeyring_Delete_flags)

lemma DeleteKeypair_unavailable:
  "\<not> keychain_available w \<Longrightarrow> snd (DeleteKeypair w email) = w"
  by (simp add: DeleteKeypair_def Let_def gokeyring_Delete_unavailable)

lemma Logout_unfold:
  assumes "\<forall>m. API ''auth.logout'' ''POST'' [] \<noteq> Panicked m"
  shows "Logout API w =
     ClearSession (if GetEmail w \<noteq> [] then snd (DeleteKeypair w (GetEmail w)) else w)"
  using assms by (cases "API ''auth.logout'' ''POST'' []") (simp_all add: Logout_def Let_def)

section \<open>Logout\<close>

text \<open>
  C9, as the code has it.  \<^verbatim>\<open>Logout\<close> notifies the transport and drops its answer.  It
  returns no error exactly when the home directory is known and both session files
  can be written, whatever the transport and the key store do; then the
  configuration and the tokens are reset to empty (no email, no selected workspace,
  no workspace cache, no access token).  \<^verbatim>\<open>DeleteKeypair\<close> always returns success.
  The key pair is deleted under the stored email: when that email is not empty and
  the key store is available, neither key of that email is left; when no email is
  stored or the key store is unavailable, the key store is left as it was.
\<close>

theorem Logout_locally_succeeds:
  assumes "\<forall>m. API ''auth.logout'' ''POST'' [] \<noteq> Panicked m"
  shows "(fst (Logout API w) = Success \<longleftrightarrow> home w \<noteq> None \<and> config_writable w \<and> token_writable w)
    \<and> (fst (Logout API w) = Success \<longrightarrow>
          config_json (snd (Logout API w)) = Holds empty_GlobalConfig \<and>
          token_json (snd (Logout API w)) = Holds empty_TokenConfig \<and>
          GetEmail (snd (Logout API w)) = [] \<and>
          GetSelectedWorkspaceID (snd (Logout API w)) = [] \<and>
          GetAccessToken (snd (Logout API w)) = [])
    \<and> fst (DeleteKeypair w (GetEmail w)) = Success
    \<and> (GetEmail w \<noteq> [] \<and> keychain_available w \<longrightarrow>
          keychain (snd (Logout API w)) (serviceName, GetEmail w @ ''_private_key'') = None \<and>
          keychain (snd (Logout API w)) (serviceName, GetEmail w @ ''_public_key'') = None)
    \<and> (GetEmail w = [] \<or> \<not> keychain_available w \<longrightarrow> keychain (snd (Logout API w)) = keychain w)"
proof -
  define w1 where "w1 = (if GetEmail w \<noteq> [] then snd (DeleteKeypair w (GetEmail w)) else w)"
  have L: "Logout API w = ClearSession w1"
    unfolding w1_def using assms by (rule Logout_unfold [of API w])
  have flags: "home w1 = home w" "config_writable w1 = config_writable w"
    "token_writable w1 = token_writable w"
    by (simp_all add: w1_def DeleteKeypair_flags)
  have 1: "fst (Logout API w) = Success \<longleftrightarrow> home w \<noteq> None \<and> config_writable w \<and> token_writable w"
    unfolding L ClearSession_Success_iff flags ..
  have 2: "config_json (snd (Logout API w)) = Holds empty_GlobalConfig \<and>
          token_json (snd (Logout API w)) = Holds empty_TokenConfig \<and>
          GetEmail (snd (Logout API w)) = [] \<and>
          GetSelectedWorkspaceID (snd (Logout API w)) = [] \<and>
          GetAccessToken (snd (Logout API w)) = []"
    if "fst (Logout API w) = Success"
  proof -
    from that 1 have ok: "home w1 \<noteq> None" "config_writable w1" "token_writable w1"
      by (simp_all add: flags)
    then obtain h where h: "home w1 = Some h" by auto
    show ?thesis
      unfolding L ClearSession_Success [OF ok]
      by (simp add: GetEmail_def GetSelectedWorkspaceID_def GetAccessToken_def LoadGlobalConfig_def
          LoadTokens_def GetPaths_def h Let_def readJSON_def empty_GlobalConfig_def empty_TokenConfig_def
          json_GlobalConfig_def json_TokenConfig_def)
  qed
  have 3: "keychain (snd (Logout API w)) (serviceName, GetEmail w @ ''_private_key'') = None \<and>
          keychain (snd (Logout API w)) (serviceName, GetEmail w @ ''_public_key'') = None"
    if "GetEmail w \<noteq> []" "keychain_available w"
    unfolding L ClearSession_keychain w1_def using that
    by (simp add: DeleteKeypair_keychain)
  have 4: "keychain (snd (Logout API w)) = keychain w"
    if "GetEmail w = [] \<or> \<not> keychain_available w"
    unfolding L ClearSession_keychain w1_def using that
    by (auto simp: DeleteKeypair_unavailable)
  show ?thesis
    using 1 2 3 4 DeleteKeypair_Success by blast
qed


lemma alice_world_flags:
  "home alice_world = Some ''/home/alice''" "config_writable alice_world"
  "token_writable alice_world" "keychain_available alice_world"
  by (simp_all add: alice_world_def)

lemma GetEmail_alice_world: "GetEmail alice_world = ''alice@example.com''"
  by (simp add: GetEmail_def LoadGlobalConfig_def GetPaths_def readJSON_def alice_world_def Let_def
      json_GlobalConfig_def json_string_ascii)

lemma offline_api_not_Panicked: "\<forall>m. offline_api ''auth.logout'' ''POST'' [] \<noteq> Panicked m"
  by (simp add: offline_api_def)

text \<open>Alice logs out while the server cannot be reached.\<close>

theorem Logout_locally_succeeds_witness:
  "fst (Logout offline_api alice_world) = Success
   \<and> config_json (snd (Logout offline_api alice_world)) = Holds empty_GlobalConfig
   \<and> token_json (snd (Logout offline_api alice_world)) = Holds empty_TokenConfig
   \<and> GetEmail (snd (Logout offline_api alice_world)) = []
   \<and> keychain (snd (Logout offline_api alice_world)) (serviceName, ''alice@example.com_private_key'') = None
   \<and> keychain (snd (Logout offline_api alice_world)) (serviceName, ''alice@example.com_public_key'') = None"
  using Logout_locally_succeeds [of offline_api alice_world] offline_api_not_Panicked
  by (simp add: alice_world_flags GetEmail_alice_world)

text \<open>
  C9 as stated fails.  When the configuration file cannot be written, \<^verbatim>\<open>Logout\<close> returns
  the error and the session is not cleared.  When the configuration cannot be parsed,
  no email is known, the deletion is skipped and the private key is still in the key
  store after a logout that reported success.
\<close>

theorem Logout_can_fail_and_can_keep_the_keypair:
  "fst (Logout offline_api (alice_world\<lparr>config_writable := False\<rparr>)) =
     Failure (Wrap ''failed to write /home/alice/.agentsecrets/config.json'' (FileFailure ''write error''))
   \<and> config_json (snd (Logout offline_api (alice_world\<lparr>config_writable := False\<rparr>))) =
       config_json alice_world
   \<and> fst (Logout offline_api (alice_world\<lparr>config_json := MalformedFile\<rparr>)) = Success
   \<and> keychain (snd (Logout offline_api (alice_world\<lparr>config_json := MalformedFile\<rparr>)))
         (serviceName, ''alice@example.com_private_key'') = Some ''c2VjcmV0''"
proof -
  have e1: "GetEmail (alice_world\<lparr>config_writable := False\<rparr>) = ''alice@example.com''"
    by (simp add: GetEmail_def LoadGlobalConfig_def GetPaths_def readJSON_def alice_world_def Let_def
      json_GlobalConfig_def json_string_ascii)
  have e2: "GetEmail (alice_world\<lparr>config_json := MalformedFile\<rparr>) = []"
    by (simp add: GetEmail_def LoadGlobalConfig_def GetPaths_def readJSON_def alice_world_def Let_def
      json_GlobalConfig_def json_string_ascii)
  have 1: "Logout offline_api (alice_world\<lparr>config_writable := False\<rparr>) =
      ClearSession (snd (DeleteKeypair (alice_world\<lparr>config_writable := False\<rparr>) ''alice@example.com''))"
    using Logout_unfold [of offline_api "alice_world\<lparr>config_writable := False\<rparr>"]
      offline_api_not_Panicked
    by (simp add: e1)
  have 2: "Logout offline_api (alice_world\<lparr>config_json := MalformedFile\<rparr>) =
      ClearSession (alice_world\<lparr>config_json := MalformedFile\<rparr>)"
    using Logout_unfold [of offline_api "alice_world\<lparr>config_json := MalformedFile\<rparr>"]
      offline_api_not_Panicked
    by (simp add: e2)
  show ?thesis
    unfolding 1 2
    by (simp add: ClearSession_def DeleteKeypair_def gokeyring_Delete_def GetPaths_def writeJSON_def
        Let_def alice_world_def serviceName_def)
qed


section \<open>Facts about login\<close>


lemma update_fresh: "k \<notin> fst ` set al \<Longrightarrow> AList.update k v al = al @ [(k, v)]"
  by (induction al) auto

lemma PerformLogin_workspaces_step:
  "PerformLogin_workspaces P privateKey publicKey (ws # rest) acc =
     (case sealed_key P privateKey publicKey ws of
        None \<Rightarrow> PerformLogin_workspaces P privateKey publicKey rest acc
      | Some wsKey \<Rightarrow>
          PerformLogin_workspaces P privateKey publicKey rest
            (AList.update (ws_ID ws)
               \<lparr>Name = ws_Name ws, Key = base64_EncodeToString wsKey,
                Role = ws_Role ws, Type = ws_Type ws\<rparr> acc))"
  by (simp add: sealed_key_def PerformLogin_workspaces.simps split: result.splits)

declare PerformLogin_workspaces.simps [simp del]

lemma expected_cache_Cons:
  "expected_cache P privateKey publicKey (ws # rest) =
     (case sealed_key P privateKey publicKey ws of
        None \<Rightarrow> []
      | Some wsKey \<Rightarrow>
          [(ws_ID ws, \<lparr>Name = ws_Name ws, Key = base64_EncodeToString wsKey,
                       Role = ws_Role ws, Type = ws_Type ws\<rparr>)])
     @ expected_cache P privateKey publicKey rest"
  by (simp add: expected_cache_def)

lemma expected_cache_Nil: "expected_cache P privateKey publicKey [] = []"
  by (simp add: expected_cache_def)

lemma PerformLogin_workspaces_distinct:
  "distinct (map fst (acc @ expected_cache P privateKey publicKey wss)) \<Longrightarrow>
     PerformLogin_workspaces P privateKey publicKey wss acc =
       acc @ expected_cache P privateKey publicKey wss"
proof (induction wss arbitrary: acc)
  case Nil
  show ?case by (simp add: expected_cache_Nil PerformLogin_workspaces.simps)
next
  case (Cons ws rest)
  show ?case
  proof (cases "sealed_key P privateKey publicKey ws")
    case None
    with Cons show ?thesis
      by (simp add: PerformLogin_workspaces_step expected_cache_Cons)
  next
    case (Some wsKey)
    define entry where
      "entry = \<lparr>Name = ws_Name ws, Key = base64_EncodeToString wsKey,
                Role = ws_Role ws, Type = ws_Type ws\<rparr>"
    from Cons.prems Some have fresh: "ws_ID ws \<notin> fst ` set acc"
      and d: "distinct (map fst ((acc @ [(ws_ID ws, entry)]) @ expected_cache P privateKey publicKey rest))"
      by (auto simp: expected_cache_Cons entry_def)
    have "PerformLogin_workspaces P privateKey publicKey (ws # rest) acc =
        PerformLogin_workspaces P privateKey publicKey rest (acc @ [(ws_ID ws, entry)])"
      using Some fresh
      by (simp add: PerformLogin_workspaces_step update_fresh entry_def)
    also have "\<dots> = (acc @ [(ws_ID ws, entry)]) @ expected_cache P privateKey publicKey rest"
      by (rule Cons.IH [OF d])
    finally show ?thesis
      using Some by (simp add: expected_cache_Cons entry_def)
  qed
qed

text \<open>
  What is loaded from the configuration file.  The getters read their field of it, and
  it is as JSON carries it: writing it and reading it again changes nothing.
\<close>

lemma LoadGlobalConfig_Holds:
  "home w = Some h \<Longrightarrow> config_json w = Holds c \<Longrightarrow> LoadGlobalConfig w = Ok (json_GlobalConfig c)"
  by (simp add: LoadGlobalConfig_def GetPaths_def readJSON_def Let_def)

lemma loaded_or_empty_Holds:
  "home w = Some h \<Longrightarrow> config_json w = Holds c \<Longrightarrow> loaded_or_empty w = json_GlobalConfig c"
  by (simp add: loaded_or_empty_def LoadGlobalConfig_Holds)

lemma loaded_or_empty_written:
  "home w = Some h \<Longrightarrow> loaded_or_empty (w\<lparr>config_json := Holds c\<rparr>) = json_GlobalConfig c"
  by (simp add: loaded_or_empty_Holds)

lemma loaded_or_empty_clean: "json_GlobalConfig (loaded_or_empty w) = loaded_or_empty w"
  by (cases "home w"; cases "config_json w")
    (simp_all add: loaded_or_empty_def LoadGlobalConfig_def GetPaths_def readJSON_def Let_def
      json_GlobalConfig_empty json_GlobalConfig_idem)

lemma loaded_or_empty_frame [simp]:
  "loaded_or_empty (w\<lparr>token_json := g\<rparr>) = loaded_or_empty w"
  "loaded_or_empty (w\<lparr>keychain := k\<rparr>) = loaded_or_empty w"
  by (simp_all add: loaded_or_empty_def LoadGlobalConfig_def)

lemma GetEmail_loaded: "GetEmail w = Email (loaded_or_empty w)"
  by (cases "LoadGlobalConfig w")
    (simp_all add: GetEmail_def loaded_or_empty_def empty_GlobalConfig_def)

lemma GetSelectedWorkspaceID_loaded:
  "GetSelectedWorkspaceID w = SelectedWorkspaceID (loaded_or_empty w)"
  by (cases "LoadGlobalConfig w")
    (simp_all add: GetSelectedWorkspaceID_def loaded_or_empty_def empty_GlobalConfig_def)

lemma SaveGlobalConfig_works:
  "home w = Some h \<Longrightarrow> config_writable w \<Longrightarrow>
     SaveGlobalConfig w c = (Success, w\<lparr>config_json := Holds c\<rparr>)"
  by (simp add: SaveGlobalConfig_def GetPaths_def writeJSON_def Let_def)

lemma SaveTokens_works:
  "home w = Some h \<Longrightarrow> token_writable w \<Longrightarrow>
     SaveTokens w t = (Success, w\<lparr>token_json := Holds t\<rparr>)"
  by (simp add: SaveTokens_def GetPaths_def writeJSON_def Let_def)

lemma StoreKeypair_works:
  "keychain_available w \<Longrightarrow>
     StoreKeypair w email privateKey publicKey =
       (Success, w\<lparr>keychain := (keychain w)
          ((serviceName, email @ ''_private_key'') \<mapsto> base64_EncodeToString privateKey,
           (serviceName, email @ ''_public_key'') \<mapsto> base64_EncodeToString publicKey)\<rparr>)"
  by (simp add: StoreKeypair_def gokeyring_Set_def Let_def)

lemma SetSelectedWorkspaceID_works:
  "home w = Some h \<Longrightarrow> config_writable w \<Longrightarrow>
     SetSelectedWorkspaceID w wid =
       (Success, w\<lparr>config_json := Holds ((loaded_or_empty w)\<lparr>SelectedWorkspaceID := wid\<rparr>)\<rparr>)"
  by (simp add: SetSelectedWorkspaceID_def Let_def SaveGlobalConfig_works)

text \<open>After a setter, what is loaded is what was loaded before with the new field as JSON
  carries it.\<close>

lemma loaded_after_update:
  assumes "home w = Some h"
  shows "loaded_or_empty (w\<lparr>config_json := Holds ((loaded_or_empty w)\<lparr>SelectedWorkspaceID := wid\<rparr>)\<rparr>) =
           (loaded_or_empty w)\<lparr>SelectedWorkspaceID := json_string wid\<rparr>"
    and "loaded_or_empty (w\<lparr>config_json := Holds ((loaded_or_empty w)\<lparr>Email := email\<rparr>)\<rparr>) =
           (loaded_or_empty w)\<lparr>Email := json_string email\<rparr>"
    and "loaded_or_empty (w\<lparr>config_json := Holds ((loaded_or_empty w)\<lparr>Workspaces := workspaces\<rparr>)\<rparr>) =
           (loaded_or_empty w)\<lparr>Workspaces :=
              map (\<lambda>(wid, entry). (json_string wid, json_WorkspaceCacheEntry entry)) workspaces\<rparr>"
  using assms
  by (simp_all add: loaded_or_empty_written json_GlobalConfig_update loaded_or_empty_clean)

lemma PerformLogin_select_frame:
  "PerformLogin_select order1 order2 w workspaceCache =
     w\<lparr>config_json := config_json (PerformLogin_select order1 order2 w workspaceCache)\<rparr>"
proof -
  have save: "snd (SaveGlobalConfig v c) = v\<lparr>config_json := config_json (snd (SaveGlobalConfig v c))\<rparr>"
    for v c
    by (auto simp: SaveGlobalConfig_def GetPaths_def writeJSON_def Let_def split: option.splits)
  have set: "snd (SetSelectedWorkspaceID v wid) =
      v\<lparr>config_json := config_json (snd (SetSelectedWorkspaceID v wid))\<rparr>" for v wid
    unfolding SetSelectedWorkspaceID_def Let_def by (rule save)
  define w1 where "w1 = (case find (\<lambda>(wid, ws). Type ws = ''personal'') (order1 workspaceCache) of
                    Some (wid, ws) \<Rightarrow> snd (SetSelectedWorkspaceID w wid)
                  | None \<Rightarrow> w)"
  have 1: "w1 = w\<lparr>config_json := config_json w1\<rparr>"
    unfolding w1_def using set [of w] by (auto split: option.splits)
  define w2 where "w2 = (case order2 workspaceCache of
             (wid, ws) # rest \<Rightarrow> snd (SetSelectedWorkspaceID w1 wid)
           | [] \<Rightarrow> w1)"
  have "w2 = w1\<lparr>config_json := config_json w2\<rparr>"
    unfolding w2_def using set [of w1] by (auto split: list.splits)
  then have 2: "w2 = w\<lparr>config_json := config_json w2\<rparr>"
    by (subst (asm) 1) simp
  have "PerformLogin_select order1 order2 w workspaceCache =
      (if GetSelectedWorkspaceID w = [] then (if GetSelectedWorkspaceID w1 = [] then w2 else w1) else w)"
    unfolding PerformLogin_select_def Let_def w2_def w1_def by simp
  then show ?thesis
    using 1 2 by auto
qed

lemma PerformLogin_select_works:
  assumes "home w = Some h" "config_writable w"
  shows "loaded_or_empty (PerformLogin_select order1 order2 w workspaceCache) =
     (loaded_or_empty w)\<lparr>SelectedWorkspaceID :=
        json_string (selection order1 order2 (SelectedWorkspaceID (loaded_or_empty w)) workspaceCache)\<rparr>"
proof (cases "SelectedWorkspaceID (loaded_or_empty w) = []")
  case False
  have "json_string (SelectedWorkspaceID (loaded_or_empty w)) = SelectedWorkspaceID (loaded_or_empty w)"
    using json_GlobalConfig_fields(2) [of "loaded_or_empty w"] by (simp add: loaded_or_empty_clean)
  with False show ?thesis
    by (simp add: PerformLogin_select_def selection_def GetSelectedWorkspaceID_loaded)
next
  case True
  note sel = True
  define c where "c = loaded_or_empty w"
  define personal where "personal = (case find (\<lambda>(wid, ws). Type ws = ''personal'') (order1 workspaceCache) of
                          Some (wid, ws) \<Rightarrow> wid
                        | None \<Rightarrow> [])"
  define w1 where "w1 = (case find (\<lambda>(wid, ws). Type ws = ''personal'') (order1 workspaceCache) of
                    Some (wid, ws) \<Rightarrow> snd (SetSelectedWorkspaceID w wid)
                  | None \<Rightarrow> w)"
  have c0: "c\<lparr>SelectedWorkspaceID := []\<rparr> = c"
    using sel by (simp add: c_def)
  have l1: "loaded_or_empty w1 = c\<lparr>SelectedWorkspaceID := json_string personal\<rparr>"
    and h1: "home w1 = Some h" "config_writable w1"
    unfolding w1_def personal_def c_def using assms sel
    by (auto simp: SetSelectedWorkspaceID_works [OF assms] loaded_after_update [OF assms(1)]
        split: option.splits)
  have g1: "GetSelectedWorkspaceID w1 = json_string personal"
    by (simp add: GetSelectedWorkspaceID_loaded l1)
  have P: "PerformLogin_select order1 order2 w workspaceCache =
      (if GetSelectedWorkspaceID w1 = [] then
          (case order2 workspaceCache of
             (wid, ws) # rest \<Rightarrow> snd (SetSelectedWorkspaceID w1 wid)
           | [] \<Rightarrow> w1)
        else w1)"
    using sel unfolding PerformLogin_select_def w1_def
    by (simp add: GetSelectedWorkspaceID_loaded Let_def)
  show ?thesis
  proof (cases "personal = []")
    case False
    then show ?thesis
      unfolding P g1 using sel
      by (simp add: l1 selection_def personal_def [symmetric] Let_def c_def)
  next
    case True
    show ?thesis
    proof (cases "order2 workspaceCache")
      case Nil
      then show ?thesis
        unfolding P g1 using sel True c0
        by (simp add: l1 selection_def personal_def [symmetric] Let_def c_def)
    next
      case (Cons p rest)
      obtain wid ws where p: "p = (wid, ws)" by (cases p)
      have "PerformLogin_select order1 order2 w workspaceCache = snd (SetSelectedWorkspaceID w1 wid)"
        unfolding P g1 using True Cons p by simp
      also have "\<dots> = w1\<lparr>config_json := Holds ((loaded_or_empty w1)\<lparr>SelectedWorkspaceID := wid\<rparr>)\<rparr>"
        by (simp add: SetSelectedWorkspaceID_works [OF h1])
      finally have "loaded_or_empty (PerformLogin_select order1 order2 w workspaceCache) =
          (loaded_or_empty w1)\<lparr>SelectedWorkspaceID := json_string wid\<rparr>"
        by (simp add: loaded_after_update [OF h1(1)])
      then show ?thesis
        using sel True Cons p
        by (simp add: l1 selection_def personal_def [symmetric] Let_def c_def)
    qed
  qed
qed

lemma PerformLogin_store_works:
  fixes P :: "'a prims_scheme" and privateKey publicKey email :: string
    and loginResp :: loginResponse and w :: world
    and order1 order2 :: "(string \<times> WorkspaceCacheEntry) list \<Rightarrow> (string \<times> WorkspaceCacheEntry) list"
  assumes "storage_works w"
  defines "cache \<equiv> PerformLogin_workspaces P privateKey publicKey (data_Workspaces (resp_Data loginResp)) []"
  defines "w' \<equiv> snd (PerformLogin_store P order1 order2 w email loginResp privateKey publicKey)"
  shows "fst (PerformLogin_store P order1 order2 w email loginResp privateKey publicKey) = Success"
    and "loaded_or_empty w' =
          (if cache = [] then (loaded_or_empty w)\<lparr>Email := json_string email\<rparr>
           else (loaded_or_empty w)\<lparr>Email := json_string email,
                  Workspaces :=
                    map (\<lambda>(wid, entry). (json_string wid, json_WorkspaceCacheEntry entry)) cache,
                  SelectedWorkspaceID :=
                    json_string (selection order1 order2 (SelectedWorkspaceID (loaded_or_empty w)) cache)\<rparr>)"
    and "token_json w' = Holds
          \<lparr>AccessToken = coalesce [resp_AccessToken loginResp, data_Access (resp_Data loginResp)],
           RefreshToken = coalesce [resp_RefreshToken loginResp, data_Refresh (resp_Data loginResp)],
           ExpiresAt = coalesce [resp_ExpiresAt loginResp, data_ExpiresAt (resp_Data loginResp)]\<rparr>"
    and "keychain w' = (keychain w)
          ((serviceName, email @ ''_private_key'') \<mapsto> base64_EncodeToString privateKey,
           (serviceName, email @ ''_public_key'') \<mapsto> base64_EncodeToString publicKey)"
    and "home w' = home w"
    and "cache = [] \<Longrightarrow> config_json w' = Holds ((loaded_or_empty w)\<lparr>Email := email\<rparr>)"
proof -
  from assms(1) obtain h where h: "home w = Some h"
    and cw: "config_writable w" and tw: "token_writable w" and ka: "keychain_available w"
    by (auto simp: storage_works_def)
  define c0 where "c0 = loaded_or_empty w"
  define T where "T =
          \<lparr>AccessToken = coalesce [resp_AccessToken loginResp, data_Access (resp_Data loginResp)],
           RefreshToken = coalesce [resp_RefreshToken loginResp, data_Refresh (resp_Data loginResp)],
           ExpiresAt = coalesce [resp_ExpiresAt loginResp, data_ExpiresAt (resp_Data loginResp)]\<rparr>"
  define K where "K = (keychain w)
          ((serviceName, email @ ''_private_key'') \<mapsto> base64_EncodeToString privateKey,
           (serviceName, email @ ''_public_key'') \<mapsto> base64_EncodeToString publicKey)"
  define w1 where "w1 = w\<lparr>config_json := Holds (c0\<lparr>Email := email\<rparr>)\<rparr>"
  define w2 where "w2 = w1\<lparr>token_json := Holds T\<rparr>"
  define w3 where "w3 = w2\<lparr>keychain := K\<rparr>"
  define w4 where "w4 = w3\<lparr>config_json := Holds ((loaded_or_empty w3)\<lparr>Workspaces := cache\<rparr>)\<rparr>"
  define w5 where "w5 = PerformLogin_select order1 order2 w4 cache"
  have s1: "SetEmail w email = (Success, w1)"
    unfolding SetEmail_def Let_def w1_def c0_def by (rule SaveGlobalConfig_works [OF h cw])
  have l1: "loaded_or_empty w1 = c0\<lparr>Email := json_string email\<rparr>"
    unfolding w1_def c0_def by (rule loaded_after_update(2) [OF h])
  have f1: "home w1 = Some h" "token_writable w1" "keychain_available w1" "config_writable w1"
    "keychain w1 = keychain w"
    using h cw tw ka by (simp_all add: w1_def)
  have s2: "StoreTokens w1
      (coalesce [resp_AccessToken loginResp, data_Access (resp_Data loginResp)])
      (coalesce [resp_RefreshToken loginResp, data_Refresh (resp_Data loginResp)])
      (coalesce [resp_ExpiresAt loginResp, data_ExpiresAt (resp_Data loginResp)]) = (Success, w2)"
    unfolding StoreTokens_def w2_def T_def by (rule SaveTokens_works [OF f1(1,2)])
  have f2: "home w2 = Some h" "keychain_available w2" "config_writable w2" "keychain w2 = keychain w"
    using f1 by (simp_all add: w2_def)
  have s3: "StoreKeypair w2 email privateKey publicKey = (Success, w3)"
    unfolding w3_def K_def using StoreKeypair_works [OF f2(2), of email privateKey publicKey]
    by (simp add: f2(4))
  have f3: "home w3 = Some h" "config_writable w3"
    using f2 by (simp_all add: w3_def)
  have l3: "loaded_or_empty w3 = c0\<lparr>Email := json_string email\<rparr>"
    by (simp add: w3_def w2_def l1)
  have s4: "StoreWorkspaceCache w3 cache = (Success, w4)"
    unfolding StoreWorkspaceCache_def Let_def w4_def
    by (rule SaveGlobalConfig_works [OF f3])
  have f4: "home w4 = Some h" "config_writable w4"
    using f3 by (simp_all add: w4_def)
  have l4: "loaded_or_empty w4 = c0\<lparr>Email := json_string email,
      Workspaces := map (\<lambda>(wid, entry). (json_string wid, json_WorkspaceCacheEntry entry)) cache\<rparr>"
    using loaded_after_update(3) [OF f3(1), of cache] unfolding w4_def [symmetric] by (simp add: l3)
  have l5: "loaded_or_empty w5 = c0\<lparr>Email := json_string email,
      Workspaces := map (\<lambda>(wid, entry). (json_string wid, json_WorkspaceCacheEntry entry)) cache,
      SelectedWorkspaceID := json_string (selection order1 order2 (SelectedWorkspaceID c0) cache)\<rparr>"
    unfolding w5_def by (simp add: PerformLogin_select_works [OF f4] l4)
  have f5: "w5 = w4\<lparr>config_json := config_json w5\<rparr>"
    unfolding w5_def by (rule PerformLogin_select_frame)
  have store: "PerformLogin_store P order1 order2 w email loginResp privateKey publicKey =
      (if cache = [] then (Success, w3) else (Success, w5))"
    unfolding PerformLogin_store_def Let_def cache_def [symmetric] w5_def
    by (simp add: s1 s2 s3 s4 del: coalesce.simps)
  show "fst (PerformLogin_store P order1 order2 w email loginResp privateKey publicKey) = Success"
    unfolding store by simp
  show "loaded_or_empty w' =
          (if cache = [] then (loaded_or_empty w)\<lparr>Email := json_string email\<rparr>
           else (loaded_or_empty w)\<lparr>Email := json_string email,
                  Workspaces :=
                    map (\<lambda>(wid, entry). (json_string wid, json_WorkspaceCacheEntry entry)) cache,
                  SelectedWorkspaceID :=
                    json_string (selection order1 order2 (SelectedWorkspaceID (loaded_or_empty w)) cache)\<rparr>)"
    unfolding w'_def store by (simp add: l3 l5 c0_def)
  have t5: "token_json w5 = Holds T" and k5: "keychain w5 = K" and h5: "home w5 = home w"
    by (subst f5, simp add: w4_def w3_def w2_def w1_def)+
  show "token_json w' = Holds
          \<lparr>AccessToken = coalesce [resp_AccessToken loginResp, data_Access (resp_Data loginResp)],
           RefreshToken = coalesce [resp_RefreshToken loginResp, data_Refresh (resp_Data loginResp)],
           ExpiresAt = coalesce [resp_ExpiresAt loginResp, data_ExpiresAt (resp_Data loginResp)]\<rparr>"
    unfolding w'_def store using t5 by (simp add: w3_def w2_def T_def)
  show "keychain w' = (keychain w)
          ((serviceName, email @ ''_private_key'') \<mapsto> base64_EncodeToString privateKey,
           (serviceName, email @ ''_public_key'') \<mapsto> base64_EncodeToString publicKey)"
    unfolding w'_def store using k5 by (simp add: w3_def K_def)
  show "home w' = home w"
    unfolding w'_def store using h5 by (simp add: w3_def w2_def w1_def)
  show "config_json w' = Holds ((loaded_or_empty w)\<lparr>Email := email\<rparr>)" if "cache = []"
    unfolding w'_def store using that by (simp add: w3_def w2_def w1_def c0_def)
qed


lemma PerformLogin_unfold:
  assumes "API ''auth.login'' ''POST'' [(''email'', email), (''password'', password)] = Ok resp"
    and "StatusCode resp = 200"
    and "body_login resp = Some loginResp"
    and "PerformLogin_keys P loginResp password privateKey publicKey = Ok (priv, pub)"
  shows "PerformLogin P API order1 order2 w email password privateKey publicKey =
     PerformLogin_store P order1 order2 w email loginResp priv pub"
  using assms by (simp add: PerformLogin_def)

lemma and_then_Success:
  "fst (and_then r f) = Success \<Longrightarrow> fst r = Success \<and> fst (f (snd r)) = Success"
proof -
  obtain out w where r: "r = (out, w)" by (cases r)
  assume "fst (and_then r f) = Success"
  then show ?thesis unfolding r by (cases out) simp_all
qed

lemma wrap_outcome_Success [simp]: "fst (wrap_outcome p r) = Success \<longleftrightarrow> fst r = Success"
  by (cases "(p, r)" rule: wrap_outcome.cases) simp_all

lemma wrap_outcome_snd [simp]: "snd (wrap_outcome p r) = snd r"
  by (cases "(p, r)" rule: wrap_outcome.cases) simp_all

lemma SaveGlobalConfig_Success:
  "fst (SaveGlobalConfig w c) = Success \<Longrightarrow> home w \<noteq> None \<and> config_writable w"
  by (auto simp: SaveGlobalConfig_def GetPaths_def writeJSON_def Let_def split: option.splits if_splits)

lemma SaveGlobalConfig_flags:
  "home (snd (SaveGlobalConfig w c)) = home w"
  "token_writable (snd (SaveGlobalConfig w c)) = token_writable w"
  "keychain_available (snd (SaveGlobalConfig w c)) = keychain_available w"
  by (auto simp: SaveGlobalConfig_def GetPaths_def writeJSON_def Let_def split: option.splits)

lemma SaveTokens_Success:
  "fst (SaveTokens w t) = Success \<Longrightarrow> home w \<noteq> None \<and> token_writable w"
  by (auto simp: SaveTokens_def GetPaths_def writeJSON_def Let_def split: option.splits if_splits)

lemma SaveTokens_flags:
  "keychain_available (snd (SaveTokens w t)) = keychain_available w"
  by (auto simp: SaveTokens_def GetPaths_def writeJSON_def Let_def split: option.splits)

lemma StoreKeypair_Success:
  "fst (StoreKeypair w email privateKey publicKey) = Success \<Longrightarrow> keychain_available w"
  by (auto simp: StoreKeypair_def gokeyring_Set_def Let_def split: if_splits)

lemma PerformLogin_store_Success:
  assumes "fst (PerformLogin_store P order1 order2 w email loginResp privateKey publicKey) = Success"
  shows "storage_works w"
proof -
  define w1 where "w1 = snd (SetEmail w email)"
  define w2 where "w2 = snd (StoreTokens w1
      (coalesce [resp_AccessToken loginResp, data_Access (resp_Data loginResp)])
      (coalesce [resp_RefreshToken loginResp, data_Refresh (resp_Data loginResp)])
      (coalesce [resp_ExpiresAt loginResp, data_ExpiresAt (resp_Data loginResp)]))"
  from assms have a: "fst (SetEmail w email) = Success"
    and b: "fst (StoreTokens w1
      (coalesce [resp_AccessToken loginResp, data_Access (resp_Data loginResp)])
      (coalesce [resp_RefreshToken loginResp, data_Refresh (resp_Data loginResp)])
      (coalesce [resp_ExpiresAt loginResp, data_ExpiresAt (resp_Data loginResp)])) = Success"
    and c: "fst (StoreKeypair w2 email privateKey publicKey) = Success"
    unfolding PerformLogin_store_def Let_def w1_def w2_def
    by (auto dest!: and_then_Success simp del: coalesce.simps)
  from a have 1: "home w \<noteq> None" "config_writable w"
    unfolding SetEmail_def Let_def using SaveGlobalConfig_Success by blast+
  have f1: "token_writable w1 = token_writable w" "keychain_available w1 = keychain_available w"
    unfolding w1_def SetEmail_def Let_def by (simp_all add: SaveGlobalConfig_flags)
  from b have 2: "token_writable w"
    unfolding StoreTokens_def using SaveTokens_Success f1 by blast
  have f2: "keychain_available w2 = keychain_available w"
    unfolding w2_def StoreTokens_def by (simp add: SaveTokens_flags f1)
  from c have 3: "keychain_available w"
    using StoreKeypair_Success f2 by blast
  show ?thesis
    using 1 2 3 by (simp add: storage_works_def)
qed

text \<open>The email after a login that succeeded: the one given, as JSON carries it.\<close>

lemma PerformLogin_store_Email:
  assumes "fst (PerformLogin_store P order1 order2 w email loginResp privateKey publicKey) = Success"
  shows "GetEmail (snd (PerformLogin_store P order1 order2 w email loginResp privateKey publicKey)) =
     json_string email"
proof -
  have sw: "storage_works w"
    using assms by (rule PerformLogin_store_Success)
  show ?thesis
    unfolding GetEmail_loaded PerformLogin_store_works(2) [OF sw] by simp
qed

lemma PerformLogin_Success_cases:
  assumes "fst (PerformLogin P API order1 order2 w email password privateKey publicKey) = Success"
  obtains resp loginResp priv pub where
    "API ''auth.login'' ''POST'' [(''email'', email), (''password'', password)] = Ok resp"
    "StatusCode resp = 200" "body_login resp = Some loginResp"
    "PerformLogin_keys P loginResp password privateKey publicKey = Ok (priv, pub)"
  using assms unfolding PerformLogin_def
  by (auto split: result.splits if_splits option.splits)

section \<open>What signup and login persist\<close>

text \<open>
  The password reaches \<^verbatim>\<open>SetupUser\<close> only through the key that encrypts the private
  key: with two passwords it succeeds with the same key pair, or fails in the same
  way.
\<close>

lemma EncryptPrivateKey_password:
  assumes "argon2_length P"
  shows "(\<exists>c1 s1 r1 c2 s2 r2.
            EncryptPrivateKey P rand K p1 = Ok (c1, s1, r1) \<and>
            EncryptPrivateKey P rand K p2 = Ok (c2, s2, r2))
       \<or> (EncryptPrivateKey P rand K p1 = EncryptPrivateKey P rand K p2 \<and>
          (\<forall>x. EncryptPrivateKey P rand K p1 \<noteq> Ok x))"
proof -
  have len: "length (argon2_IDKey P p salt argonTime argonMemory argonThreads argonKeyLen) = 32"
    for p salt
    using assms by (simp add: argon2_length_def argonKeyLen_def)
  show ?thesis
  proof (cases "length rand < 32")
    case True
    then show ?thesis
      by (simp add: EncryptPrivateKey_def io_ReadFull_def SaltSize_def)
  next
    case False
    note r32 = False
    show ?thesis
    proof (cases "length (drop 32 rand) < 12")
      case True
      with r32 show ?thesis
        by (simp add: EncryptPrivateKey_def DeriveKeyFromPassword_def io_ReadFull_def SaltSize_def
            hex_roundtrip Let_def aes_NewCipher_def cipher_NewGCM_def gcm_NonceSize_def len)
    next
      case False
      with r32 show ?thesis
        by (simp add: EncryptPrivateKey_def DeriveKeyFromPassword_def io_ReadFull_def SaltSize_def
            hex_roundtrip Let_def aes_NewCipher_def cipher_NewGCM_def gcm_NonceSize_def len
            gcm_Seal_def)
    qed
  qed
qed

lemma SetupUser_password:
  assumes "argon2_length P"
  shows "(\<exists>keys1 r1 keys2 r2.
            SetupUser P rand p1 = Ok (keys1, r1) \<and> SetupUser P rand p2 = Ok (keys2, r2) \<and>
            PrivateKey keys1 = PrivateKey keys2 \<and> PublicKey keys1 = PublicKey keys2)
       \<or> (SetupUser P rand p1 = SetupUser P rand p2 \<and> (\<forall>x. SetupUser P rand p1 \<noteq> Ok x))"
proof (cases "GenerateKeypair P rand")
  case (Ok t)
  note gk = Ok
  obtain sk pk rand1 where t: "t = (sk, pk, rand1)" by (cases t)
  from EncryptPrivateKey_password [OF assms, of rand1 sk p1 p2] show ?thesis
  proof
    assume "\<exists>c1 s1 r1 c2 s2 r2.
        EncryptPrivateKey P rand1 sk p1 = Ok (c1, s1, r1) \<and>
        EncryptPrivateKey P rand1 sk p2 = Ok (c2, s2, r2)"
    then show ?thesis
      using gk t by (auto simp: SetupUser_def)
  next
    assume a: "EncryptPrivateKey P rand1 sk p1 = EncryptPrivateKey P rand1 sk p2 \<and>
        (\<forall>x. EncryptPrivateKey P rand1 sk p1 \<noteq> Ok x)"
    then have "SetupUser P rand p1 = SetupUser P rand p2"
      using gk t by (simp add: SetupUser_def)
    moreover have "\<forall>x. SetupUser P rand p1 \<noteq> Ok x"
    proof (cases "EncryptPrivateKey P rand1 sk p1")
      case (Ok x)
      with a show ?thesis by blast
    next
      case (Err e)
      then show ?thesis using gk t by (simp add: SetupUser_def)
    next
      case (Panicked m)
      then show ?thesis using gk t by (simp add: SetupUser_def)
    qed
    ultimately show ?thesis by blast
  qed
next
  case (Err e)
  then show ?thesis by (simp add: SetupUser_def)
next
  case (Panicked m)
  then show ?thesis by (simp add: SetupUser_def)
qed

lemma SetupUser_succeeds:
  assumes "argon2_length P" and "76 \<le> length rand"
  shows "\<exists>keys rand'. SetupUser P rand password = Ok (keys, rand')"
proof -
  have l: "32 \<le> length rand" using assms(2) by simp
  obtain sk pk rand1 where kp: "GenerateKeypair P rand = Ok (sk, pk, rand1)"
    and r1: "length rand1 = length rand - 32"
    using GenerateKeypair_succeeds [OF l] by blast
  from kp have sk: "length sk = 32"
    unfolding GenerateKeypair_def box_GenerateKey_def
    by (auto simp: on_ok_Ok_iff wrap_Ok_iff dest: io_ReadFull_Ok)
  have "44 \<le> length rand1" using r1 assms(2) by simp
  moreover have "length sk \<le> gcm_maxPlaintext" using sk by (simp add: gcm_maxPlaintext_def)
  ultimately obtain c s rand' where "EncryptPrivateKey P rand1 sk password = Ok (c, s, rand')"
    using EncryptPrivateKey_succeeds [OF assms(1)] by blast
  then show ?thesis
    by (simp add: SetupUser_def kp)
qed

lemma PerformLogin_password:
  assumes "API ''auth.login'' ''POST'' [(''email'', email), (''password'', p1)] =
           API ''auth.login'' ''POST'' [(''email'', email), (''password'', p2)]"
    and "\<forall>resp loginResp.
           API ''auth.login'' ''POST'' [(''email'', email), (''password'', p1)] = Ok resp \<longrightarrow>
           body_login resp = Some loginResp \<longrightarrow>
           PerformLogin_keys P loginResp p1 privateKey publicKey =
           PerformLogin_keys P loginResp p2 privateKey publicKey"
  shows "PerformLogin P API order1 order2 w email p1 privateKey publicKey =
         PerformLogin P API order1 order2 w email p2 privateKey publicKey"
proof (cases "API ''auth.login'' ''POST'' [(''email'', email), (''password'', p1)]")
  case (Ok resp)
  then have Ok2: "API ''auth.login'' ''POST'' [(''email'', email), (''password'', p2)] = Ok resp"
    using assms(1) by simp
  show ?thesis
  proof (cases "body_login resp")
    case None
    then show ?thesis by (simp add: PerformLogin_def Ok Ok2)
  next
    case (Some loginResp)
    with Ok assms(2) have "PerformLogin_keys P loginResp p1 privateKey publicKey =
         PerformLogin_keys P loginResp p2 privateKey publicKey"
      by blast
    with Some show ?thesis by (simp add: PerformLogin_def Ok Ok2)
  qed
next
  case (Err e)
  then have "API ''auth.login'' ''POST'' [(''email'', email), (''password'', p2)] = Err e"
    using assms(1) by simp
  with Err show ?thesis by (simp add: PerformLogin_def)
next
  case (Panicked m)
  then have "API ''auth.login'' ''POST'' [(''email'', email), (''password'', p2)] = Panicked m"
    using assms(1) by simp
  with Panicked show ?thesis by (simp add: PerformLogin_def)
qed

lemma PerformLogin_Email:
  assumes "fst (PerformLogin P API order1 order2 w email password privateKey publicKey) = Success"
  shows "GetEmail (snd (PerformLogin P API order1 order2 w email password privateKey publicKey)) =
     json_string email"
proof -
  from assms obtain resp loginResp priv pub where
    u: "API ''auth.login'' ''POST'' [(''email'', email), (''password'', password)] = Ok resp"
    "StatusCode resp = 200" "body_login resp = Some loginResp"
    "PerformLogin_keys P loginResp password privateKey publicKey = Ok (priv, pub)"
    by (rule PerformLogin_Success_cases)
  show ?thesis
    using assms unfolding PerformLogin_unfold [where API = API, OF u]
    by (rule PerformLogin_store_Email)
qed

lemma Signup_password:
  assumes "argon2_length P"
    and "\<forall>keys1 keys2 r1 r2.
           SetupUser P rand p1 = Ok (keys1, r1) \<longrightarrow> SetupUser P rand p2 = Ok (keys2, r2) \<longrightarrow>
           API ''auth.signup'' ''POST'' (signup_data (req\<lparr>req_Password := p1\<rparr>) keys1) =
           API ''auth.signup'' ''POST'' (signup_data (req\<lparr>req_Password := p2\<rparr>) keys2)"
    and "API ''auth.login'' ''POST'' [(''email'', req_Email req), (''password'', p1)] =
         API ''auth.login'' ''POST'' [(''email'', req_Email req), (''password'', p2)]"
  shows "Signup P API order1 order2 rand w (req\<lparr>req_Password := p1\<rparr>) =
         Signup P API order1 order2 rand w (req\<lparr>req_Password := p2\<rparr>)"
proof -
  from SetupUser_password [OF assms(1), of rand p1 p2] show ?thesis
  proof
    assume "\<exists>keys1 r1 keys2 r2.
        SetupUser P rand p1 = Ok (keys1, r1) \<and> SetupUser P rand p2 = Ok (keys2, r2) \<and>
        PrivateKey keys1 = PrivateKey keys2 \<and> PublicKey keys1 = PublicKey keys2"
    then obtain keys1 r1 keys2 r2 where
      s1: "SetupUser P rand p1 = Ok (keys1, r1)" and s2: "SetupUser P rand p2 = Ok (keys2, r2)"
      and sk: "PrivateKey keys1 = PrivateKey keys2" and pk: "PublicKey keys1 = PublicKey keys2"
      by blast
    have api: "API ''auth.signup'' ''POST'' (signup_data (req\<lparr>req_Password := p1\<rparr>) keys1) =
        API ''auth.signup'' ''POST'' (signup_data (req\<lparr>req_Password := p2\<rparr>) keys2)"
      using assms(2) s1 s2 by blast
    have login: "PerformLogin P API order1 order2 w (req_Email req) p1
          (Some (PrivateKey keys1)) (PublicKey keys1) =
        PerformLogin P API order1 order2 w (req_Email req) p2
          (Some (PrivateKey keys2)) (PublicKey keys2)"
      unfolding sk pk
      by (rule PerformLogin_password [where API = API, OF assms(3)]) (simp add: PerformLogin_keys_def)
    show ?thesis
      by (simp add: Signup_def s1 s2 api login cong: result.case_cong if_cong)
  next
    assume "SetupUser P rand p1 = SetupUser P rand p2 \<and> (\<forall>x. SetupUser P rand p1 \<noteq> Ok x)"
    then show ?thesis
      by (cases "SetupUser P rand p1"; cases "SetupUser P rand p2") (auto simp: Signup_def)
  qed
qed

lemma Signup_Email:
  assumes "fst (Signup P API order1 order2 rand w req) = Success"
  shows "GetEmail (snd (Signup P API order1 order2 rand w req)) = json_string (req_Email req)"
proof -
  from assms obtain keys :: UserKeys where
    s: "Signup P API order1 order2 rand w req =
        PerformLogin P API order1 order2 w (req_Email req) (req_Password req)
          (Some (PrivateKey keys)) (PublicKey keys)"
    unfolding Signup_def
    by (auto split: result.splits if_splits)
  show ?thesis
    using assms unfolding s by (rule PerformLogin_Email)
qed

text \<open>
  C7, as the code has it.  The password is transient: \<^verbatim>\<open>PerformLogin\<close>, which is the login
  and the bootstrap, hands it to the transport and to the decryption of the identity
  key and to nothing else, and \<^verbatim>\<open>Signup\<close> hands it to the encryption of the identity
  key, to the transport and to \<^verbatim>\<open>PerformLogin\<close>.  So two passwords on which the transport
  answers alike (and, for a login, the key pair resolves alike) leave the same report
  and the same durable state: configuration, tokens, key store.  For \<^verbatim>\<open>Signup\<close> this is
  with Argon2id returning the 32 bytes of an AES key.  The email is persisted: after a
  successful \<^verbatim>\<open>PerformLogin\<close> or \<^verbatim>\<open>Signup\<close> the stored configuration holds it, as JSON
  carries it (a byte that is not valid UTF-8 is replaced by U+FFFD).
\<close>

theorem password_is_not_persisted:
  "(API ''auth.login'' ''POST'' [(''email'', email), (''password'', p1)] =
      API ''auth.login'' ''POST'' [(''email'', email), (''password'', p2)]
    \<and> (\<forall>resp loginResp.
           API ''auth.login'' ''POST'' [(''email'', email), (''password'', p1)] = Ok resp \<longrightarrow>
           body_login resp = Some loginResp \<longrightarrow>
           PerformLogin_keys P loginResp p1 privateKey publicKey =
           PerformLogin_keys P loginResp p2 privateKey publicKey)
    \<longrightarrow> PerformLogin P API order1 order2 w email p1 privateKey publicKey =
        PerformLogin P API order1 order2 w email p2 privateKey publicKey)
   \<and> (argon2_length P
      \<and> (\<forall>keys1 keys2 r1 r2.
           SetupUser P rand p1 = Ok (keys1, r1) \<longrightarrow> SetupUser P rand p2 = Ok (keys2, r2) \<longrightarrow>
           API ''auth.signup'' ''POST'' (signup_data (req\<lparr>req_Password := p1\<rparr>) keys1) =
           API ''auth.signup'' ''POST'' (signup_data (req\<lparr>req_Password := p2\<rparr>) keys2))
      \<and> API ''auth.login'' ''POST'' [(''email'', req_Email req), (''password'', p1)] =
        API ''auth.login'' ''POST'' [(''email'', req_Email req), (''password'', p2)]
    \<longrightarrow> Signup P API order1 order2 rand w (req\<lparr>req_Password := p1\<rparr>) =
        Signup P API order1 order2 rand w (req\<lparr>req_Password := p2\<rparr>))
   \<and> (fst (PerformLogin P API order1 order2 w email p1 privateKey publicKey) = Success \<longrightarrow>
        GetEmail (snd (PerformLogin P API order1 order2 w email p1 privateKey publicKey)) =
          json_string email)
   \<and> (fst (Signup P API order1 order2 rand w req) = Success \<longrightarrow>
        GetEmail (snd (Signup P API order1 order2 rand w req)) = json_string (req_Email req))"
  using PerformLogin_password [of API email p1 p2 P privateKey publicKey order1 order2 w]
    Signup_password [of P rand p1 p2 API req order1 order2 w]
    PerformLogin_Email [of P API order1 order2 w email p1 privateKey publicKey]
    Signup_Email [of P API order1 order2 rand w req]
  by blast

section \<open>The workspace cache after login\<close>

text \<open>
  What the code does with the cache.  Let the transport answer the login with status
  200 and a response that parses, let the identity key pair resolve, let the durable
  stores work, and let the valid workspaces of the response have pairwise distinct
  identifiers.  Then \<^verbatim>\<open>PerformLogin\<close> completes successfully, however many of the
  entries are corrupted.  With at least one valid entry the stored cache is replaced
  as a whole by the valid entries.  With no valid entry \<^verbatim>\<open>StoreWorkspaceCache\<close> is not
  called, and the stored cache stays what it was.
\<close>

lemma PerformLogin_stores_valid_workspaces:
  assumes "API ''auth.login'' ''POST'' [(''email'', email), (''password'', password)] = Ok resp"
    and "StatusCode resp = 200"
    and "body_login resp = Some loginResp"
    and "PerformLogin_keys P loginResp password privateKey publicKey = Ok (priv, pub)"
    and "storage_works w"
    and "distinct (map fst (expected_cache P priv pub (data_Workspaces (resp_Data loginResp))))"
  shows "fst (PerformLogin P API order1 order2 w email password privateKey publicKey) = Success
     \<and> Workspaces (loaded_or_empty
          (snd (PerformLogin P API order1 order2 w email password privateKey publicKey))) =
        (if expected_cache P priv pub (data_Workspaces (resp_Data loginResp)) = []
         then Workspaces (loaded_or_empty w)
         else map (\<lambda>(wid, entry). (json_string wid, json_WorkspaceCacheEntry entry))
                (expected_cache P priv pub (data_Workspaces (resp_Data loginResp))))"
proof -
  have cache: "PerformLogin_workspaces P priv pub (data_Workspaces (resp_Data loginResp)) [] =
      expected_cache P priv pub (data_Workspaces (resp_Data loginResp))"
    using PerformLogin_workspaces_distinct [of "[]" P priv pub] assms(6) by simp
  show ?thesis
    unfolding PerformLogin_unfold [where API = API, OF assms(1-4)]
    using PerformLogin_store_works(1) [OF assms(5)]
    by (simp add: PerformLogin_store_works(2) [OF assms(5)] cache)
qed

lemma DecryptFromUser_sealed:
  assumes "box_correct P" and "length sk = 32" and "length esk = 32"
  shows "DecryptFromUser P sk (scalar_base_mult P sk)
           (sealed_box_seal P K (scalar_base_mult P sk) esk) = Ok K"
proof -
  have "length (scalar_base_mult P sk) = 32"
    and "sealed_box_open P (sealed_box_seal P K (scalar_base_mult P sk) esk)
           (scalar_base_mult P sk) sk = Some K"
    using assms unfolding box_correct_def by blast+
  then show ?thesis
    using assms(2) by (simp add: DecryptFromUser_def KeySize_def box_OpenAnonymous_def)
qed

lemma demo_sk_length: "length demo_sk = 32"
  by (simp add: demo_sk_def demo_rand_def)

lemma sealed_key_demo_blob:
  "ws_EncryptedWorkspaceKey ws = demo_blob \<Longrightarrow>
     sealed_key demo_prims demo_sk demo_pk ws = Some zero_key"
proof -
  assume b: "ws_EncryptedWorkspaceKey ws = demo_blob"
  have e: "length (take 32 (drop 32 demo_rand)) = 32"
    by (simp add: demo_rand_def)
  show ?thesis
    unfolding sealed_key_def b demo_blob_def base64_roundtrip demo_pk_def
    using DecryptFromUser_sealed [OF demo_prims_box_correct demo_sk_length e, of zero_key]
    by simp
qed

lemma sealed_key_corrupted: "sealed_key demo_prims demo_sk demo_pk corrupted_ws = None"
  by (simp add: sealed_key_def corrupted_ws_def base64_DecodeString_def decodeMap_def encodeStd_def)

lemma expected_cache_two_teams:
  "expected_cache demo_prims demo_sk demo_pk [team_a, corrupted_ws, team_b] =
     [(''a'', \<lparr>Name = ''Team A'', Key = base64_EncodeToString zero_key, Role = ''member'',
               Type = ''shared''\<rparr>),
      (''b'', \<lparr>Name = ''Team B'', Key = base64_EncodeToString zero_key, Role = ''member'',
               Type = ''shared''\<rparr>)]"
proof -
  have a: "sealed_key demo_prims demo_sk demo_pk team_a = Some zero_key"
    by (rule sealed_key_demo_blob) (simp add: team_a_def)
  have b: "sealed_key demo_prims demo_sk demo_pk team_b = Some zero_key"
    by (rule sealed_key_demo_blob) (simp add: team_b_def)
  show ?thesis
    by (simp add: expected_cache_def a b sealed_key_corrupted) (simp add: team_a_def team_b_def)
qed

lemma expected_cache_corrupted: "expected_cache demo_prims demo_sk demo_pk [corrupted_ws] = []"
  by (simp add: expected_cache_def sealed_key_corrupted)

lemma storage_works_examples: "storage_works alice_world" "storage_works fresh_world"
  by (simp_all add: storage_works_def alice_world_def fresh_world_def)

lemma loaded_or_empty_examples:
  "loaded_or_empty fresh_world = empty_GlobalConfig"
  "loaded_or_empty alice_world =
     \<lparr>Email = ''alice@example.com'', SelectedWorkspaceID = ''ws-alice'',
       Workspaces = [(''ws-alice'', \<lparr>Name = ''Alice'', Key = ''QUxJQ0U='', Role = ''owner'',
                                     Type = ''personal''\<rparr>)]\<rparr>"
  by (simp_all add: loaded_or_empty_def LoadGlobalConfig_def GetPaths_def readJSON_def Let_def
      alice_world_def fresh_world_def json_GlobalConfig_def json_WorkspaceCacheEntry_def
      json_string_ascii)

lemma answering_api_login:
  "answering_api wss ''auth.login'' ''POST'' [(''email'', email), (''password'', password)] =
     Ok \<lparr>StatusCode = 200, body_login = Some (login_response wss), body_message = None\<rparr>"
  by (simp add: answering_api_def)

lemma PerformLogin_answering_api:
  "PerformLogin P (answering_api wss) order1 order2 w email password (Some sk) pk =
     PerformLogin_store P order1 order2 w email (login_response wss) sk pk"
  by (simp add: PerformLogin_def answering_api_def PerformLogin_keys_def)

lemma data_Workspaces_login_response [simp]:
  "data_Workspaces (resp_Data (login_response wss)) = wss"
  by (simp add: login_response_def)

text \<open>Three entries, one of them corrupted, on the machine where Alice was logged in:
  the cache afterwards has the two valid entries and not Alice's.\<close>

lemma PerformLogin_replaces_cache:
  "fst (PerformLogin demo_prims (answering_api [team_a, corrupted_ws, team_b]) (\<lambda>m. m) (\<lambda>m. m)
          alice_world ''bob@example.com'' ''hunter2'' (Some demo_sk) demo_pk) = Success
   \<and> map fst (Workspaces (loaded_or_empty
        (snd (PerformLogin demo_prims (answering_api [team_a, corrupted_ws, team_b]) (\<lambda>m. m) (\<lambda>m. m)
          alice_world ''bob@example.com'' ''hunter2'' (Some demo_sk) demo_pk)))) = [''a'', ''b'']"
proof -
  have k: "PerformLogin_keys demo_prims (login_response [team_a, corrupted_ws, team_b]) ''hunter2''
      (Some demo_sk) demo_pk = Ok (demo_sk, demo_pk)"
    by (simp add: PerformLogin_keys_def)
  have d: "distinct (map fst (expected_cache demo_prims demo_sk demo_pk
      (data_Workspaces (resp_Data (login_response [team_a, corrupted_ws, team_b])))))"
    by (simp add: expected_cache_two_teams)
  have r: "StatusCode \<lparr>StatusCode = 200,
      body_login = Some (login_response [team_a, corrupted_ws, team_b]), body_message = None\<rparr> = 200"
    "body_login \<lparr>StatusCode = 200,
      body_login = Some (login_response [team_a, corrupted_ws, team_b]), body_message = None\<rparr> =
      Some (login_response [team_a, corrupted_ws, team_b])"
    by simp_all
  show ?thesis
    using PerformLogin_stores_valid_workspaces
      [where API = "answering_api [team_a, corrupted_ws, team_b]", OF answering_api_login r k
        storage_works_examples(1) d, of "\<lambda>m. m" "\<lambda>m. m"]
    by (simp add: expected_cache_two_teams json_string_ascii)
qed

text \<open>
  C5.  The claim asks that after every successful login the stored cache holds exactly
  the \<open>M\<close> valid entries of the response and nothing of a prior session, for every
  \<open>M\<close> from 0 to \<open>N\<close>.  The code stores the cache only when it is not empty.  Here Bob
  logs in on the machine where Alice was logged in, and the one workspace of the
  response is corrupted (\<open>N = 1\<close>, \<open>M = 0\<close>): the login succeeds, no workspace is valid, and
  the stored cache still has Alice's entry, with her decrypted workspace key, although
  the stored email is now Bob's.
\<close>

theorem PerformLogin_keeps_stale_cache:
  "fst (PerformLogin demo_prims (answering_api [corrupted_ws]) (\<lambda>m. m) (\<lambda>m. m)
          alice_world ''bob@example.com'' ''hunter2'' (Some demo_sk) demo_pk) = Success
   \<and> length (expected_cache demo_prims demo_sk demo_pk [corrupted_ws]) = 0
   \<and> map fst (Workspaces (loaded_or_empty
        (snd (PerformLogin demo_prims (answering_api [corrupted_ws]) (\<lambda>m. m) (\<lambda>m. m)
          alice_world ''bob@example.com'' ''hunter2'' (Some demo_sk) demo_pk)))) = [''ws-alice'']
   \<and> Email (loaded_or_empty
        (snd (PerformLogin demo_prims (answering_api [corrupted_ws]) (\<lambda>m. m) (\<lambda>m. m)
          alice_world ''bob@example.com'' ''hunter2'' (Some demo_sk) demo_pk))) = ''bob@example.com''"
proof -
  have c: "PerformLogin_workspaces demo_prims demo_sk demo_pk [corrupted_ws] [] = []"
    using PerformLogin_workspaces_distinct [of "[]" demo_prims demo_sk demo_pk "[corrupted_ws]"]
    by (simp add: expected_cache_corrupted)
  show ?thesis
    unfolding PerformLogin_answering_api
    by (simp add: PerformLogin_store_works(1) [OF storage_works_examples(1)]
        PerformLogin_store_works(2) [OF storage_works_examples(1)] c expected_cache_corrupted
        loaded_or_empty_examples json_string_ascii)
qed

section \<open>The default workspace\<close>

text \<open>
  What holds of the selection: a workspace selected before stays selected, and
  otherwise the personal entry is selected when exactly one entry is personal (and
  its identifier is not empty), whatever order the loop takes.
\<close>

lemma selection_prior:
  "selected \<noteq> [] \<Longrightarrow> selection order1 order2 selected workspaceCache = selected"
  by (simp add: selection_def)

lemma find_unique:
  assumes "set ys = set xs" and "x \<in> set xs" and "Q x"
    and "\<forall>y \<in> set xs. Q y \<longrightarrow> f y = f x"
  shows "\<exists>y. find Q ys = Some y \<and> f y = f x"
proof (cases "find Q ys")
  case None
  then have "\<not> Q x"
    using assms(1,2) unfolding find_None_iff by blast
  with assms(3) show ?thesis by blast
next
  case (Some y)
  then obtain i where "i < length ys" and "ys ! i = y" and "Q y"
    unfolding find_Some_iff by blast
  then have "y \<in> set xs"
    using assms(1) nth_mem by blast
  with \<open>Q y\<close> assms(4) have "f y = f x" by blast
  with Some show ?thesis by blast
qed

lemma selection_personal:
  assumes "set (order1 workspaceCache) = set workspaceCache"
    and "(wid, ws) \<in> set workspaceCache" and "Type ws = ''personal''" and "wid \<noteq> []"
    and "\<forall>p \<in> set workspaceCache. Type (snd p) = ''personal'' \<longrightarrow> fst p = wid"
  shows "selection order1 order2 [] workspaceCache = wid"
proof -
  have eq: "(\<lambda>(wid, ws). Type ws = ''personal'') = (\<lambda>p. Type (snd p) = ''personal'')"
    by (rule ext) (simp only: case_prod_beta)
  have q: "Type (snd (wid, ws)) = ''personal''"
    unfolding snd_conv by (rule assms(3))
  have u: "\<forall>y \<in> set workspaceCache. Type (snd y) = ''personal'' \<longrightarrow> fst y = fst (wid, ws)"
    unfolding fst_conv by (rule assms(5))
  obtain y where y: "find (\<lambda>p. Type (snd p) = ''personal'') (order1 workspaceCache) = Some y"
    and fy: "fst y = fst (wid, ws)"
    using find_unique [OF assms(1,2), of "\<lambda>p. Type (snd p) = ''personal''" fst, OF q u] by blast
  obtain a b where ab: "y = (a, b)" by (cases y)
  have a: "a = wid" using fy unfolding ab fst_conv .
  show ?thesis
    unfolding selection_def eq y ab a using assms(4) by simp
qed

text \<open>
  C6 asks that without a personal entry one entry is picked deterministically, the
  same for the same login response.  The code picks the first entry that the second
  \<^verbatim>\<open>range\<close> loop over the cache visits, and Go does not fix that order.  The same login
  response (two shared workspaces and a corrupted one, no prior selection) selects
  \<open>a\<close> under one order of the loop and \<open>b\<close> under another.
\<close>

theorem default_workspace_follows_map_order:
  "GetSelectedWorkspaceID
     (snd (PerformLogin demo_prims (answering_api [team_a, corrupted_ws, team_b]) (\<lambda>m. m) (\<lambda>m. m)
        fresh_world ''bob@example.com'' ''hunter2'' (Some demo_sk) demo_pk)) = ''a''
   \<and> GetSelectedWorkspaceID
     (snd (PerformLogin demo_prims (answering_api [team_a, corrupted_ws, team_b]) (\<lambda>m. m) rev
        fresh_world ''bob@example.com'' ''hunter2'' (Some demo_sk) demo_pk)) = ''b''"
proof -
  have c: "PerformLogin_workspaces demo_prims demo_sk demo_pk [team_a, corrupted_ws, team_b] [] =
      expected_cache demo_prims demo_sk demo_pk [team_a, corrupted_ws, team_b]"
    using PerformLogin_workspaces_distinct [of "[]" demo_prims demo_sk demo_pk
        "[team_a, corrupted_ws, team_b]"]
    by (simp add: expected_cache_two_teams)
  show ?thesis
    unfolding PerformLogin_answering_api GetSelectedWorkspaceID_loaded
    by (simp add: PerformLogin_store_works(2) [OF storage_works_examples(2)] c
        expected_cache_two_teams loaded_or_empty_examples empty_GlobalConfig_def selection_def
        json_string_ascii)
qed

text \<open>
  Bob registers, and Bob logs in, each with two different passwords, on a machine
  without a session.
\<close>

theorem password_is_not_persisted_witness:
  "registering_api [team_a] ''auth.login'' ''POST''
      [(''email'', ''bob@example.com''), (''password'', ''hunter2'')] =
   registering_api [team_a] ''auth.login'' ''POST''
      [(''email'', ''bob@example.com''), (''password'', ''correct-horse-battery'')]
   \<and> PerformLogin demo_prims (registering_api [team_a]) (\<lambda>m. m) (\<lambda>m. m)
      fresh_world ''bob@example.com'' ''hunter2'' (Some demo_sk) demo_pk =
     PerformLogin demo_prims (registering_api [team_a]) (\<lambda>m. m) (\<lambda>m. m)
      fresh_world ''bob@example.com'' ''correct-horse-battery'' (Some demo_sk) demo_pk
   \<and> argon2_length demo_prims
   \<and> Signup demo_prims (registering_api [team_a]) (\<lambda>m. m) (\<lambda>m. m) demo_rand fresh_world
        (bob_request ''hunter2'') =
     Signup demo_prims (registering_api [team_a]) (\<lambda>m. m) (\<lambda>m. m) demo_rand fresh_world
        (bob_request ''correct-horse-battery'')
   \<and> fst (PerformLogin demo_prims (registering_api [team_a]) (\<lambda>m. m) (\<lambda>m. m)
      fresh_world ''bob@example.com'' ''hunter2'' (Some demo_sk) demo_pk) = Success
   \<and> GetEmail (snd (PerformLogin demo_prims (registering_api [team_a]) (\<lambda>m. m) (\<lambda>m. m)
      fresh_world ''bob@example.com'' ''hunter2'' (Some demo_sk) demo_pk)) = ''bob@example.com''
   \<and> fst (Signup demo_prims (registering_api [team_a]) (\<lambda>m. m) (\<lambda>m. m) demo_rand fresh_world
        (bob_request ''hunter2'')) = Success
   \<and> GetEmail (snd (Signup demo_prims (registering_api [team_a]) (\<lambda>m. m) (\<lambda>m. m) demo_rand
        fresh_world (bob_request ''hunter2''))) = ''bob@example.com''"
proof -
  have 1: "registering_api [team_a] ''auth.login'' ''POST''
        [(''email'', ''bob@example.com''), (''password'', ''hunter2'')] =
      registering_api [team_a] ''auth.login'' ''POST''
        [(''email'', ''bob@example.com''), (''password'', ''correct-horse-battery'')]"
    by (simp add: registering_api_def)
  have 2: "\<forall>resp loginResp.
      registering_api [team_a] ''auth.login'' ''POST''
        [(''email'', ''bob@example.com''), (''password'', ''hunter2'')] = Ok resp \<longrightarrow>
      body_login resp = Some loginResp \<longrightarrow>
      PerformLogin_keys demo_prims loginResp ''hunter2'' (Some demo_sk) demo_pk =
      PerformLogin_keys demo_prims loginResp ''correct-horse-battery'' (Some demo_sk) demo_pk"
    by (simp add: PerformLogin_keys_def)
  have 3: "\<forall>keys1 keys2 r1 r2.
      SetupUser demo_prims demo_rand ''hunter2'' = Ok (keys1, r1) \<longrightarrow>
      SetupUser demo_prims demo_rand ''correct-horse-battery'' = Ok (keys2, r2) \<longrightarrow>
      registering_api [team_a] ''auth.signup'' ''POST''
        (signup_data ((bob_request ''hunter2'')\<lparr>req_Password := ''hunter2''\<rparr>) keys1) =
      registering_api [team_a] ''auth.signup'' ''POST''
        (signup_data ((bob_request ''hunter2'')\<lparr>req_Password := ''correct-horse-battery''\<rparr>) keys2)"
    by (simp add: registering_api_def)
  have 4: "req_Email (bob_request ''hunter2'') = ''bob@example.com''"
    and 5: "(bob_request ''hunter2'')\<lparr>req_Password := ''hunter2''\<rparr> = bob_request ''hunter2''"
    and 6: "(bob_request ''hunter2'')\<lparr>req_Password := ''correct-horse-battery''\<rparr> =
        bob_request ''correct-horse-battery''"
    by (simp_all add: bob_request_def)
  have login: "PerformLogin P (registering_api wss) order1 order2 w email password (Some sk) pk =
      PerformLogin_store P order1 order2 w email (login_response wss) sk pk"
    for P :: prims and wss order1 order2 w email password sk pk
    by (simp add: PerformLogin_def registering_api_def PerformLogin_keys_def)
  have 7: "fst (PerformLogin demo_prims (registering_api [team_a]) (\<lambda>m. m) (\<lambda>m. m)
      fresh_world ''bob@example.com'' password (Some sk) pk) = Success" for password sk pk
    unfolding login by (rule PerformLogin_store_works(1) [OF storage_works_examples(2)])
  have l: "76 \<le> length demo_rand"
    by (simp add: demo_rand_def)
  obtain keys r where 8: "SetupUser demo_prims demo_rand ''hunter2'' = Ok (keys, r)"
    using SetupUser_succeeds [OF demo_prims_argon2_length l] by blast
  have 9: "fst (Signup demo_prims (registering_api [team_a]) (\<lambda>m. m) (\<lambda>m. m) demo_rand fresh_world
        (bob_request ''hunter2'')) = Success"
    using 7 by (simp add: Signup_def 8 registering_api_def 4 [unfolded bob_request_def] bob_request_def)
  have j: "json_string ''bob@example.com'' = ''bob@example.com''"
    by (simp add: json_string_ascii)
  show ?thesis
    using password_is_not_persisted
      [of "registering_api [team_a]" "''bob@example.com''" "''hunter2''" "''correct-horse-battery''"
        demo_prims "Some demo_sk" demo_pk "\<lambda>m. m" "\<lambda>m. m" fresh_world demo_rand
        "bob_request ''hunter2''"]
      1 2 3 7 9 demo_prims_argon2_length
    unfolding 4 5 6 j
    by blast
qed

text \<open>
  C7 as stated fails for the email: after a login the configuration file holds it, and
  the entries of the key store are named after it.
\<close>

theorem PerformLogin_persists_the_email:
  "fst (PerformLogin demo_prims (answering_api []) (\<lambda>m. m) (\<lambda>m. m)
      fresh_world ''bob@example.com'' ''hunter2'' (Some demo_sk) demo_pk) = Success
   \<and> config_json (snd (PerformLogin demo_prims (answering_api []) (\<lambda>m. m) (\<lambda>m. m)
      fresh_world ''bob@example.com'' ''hunter2'' (Some demo_sk) demo_pk)) =
     Holds \<lparr>Email = ''bob@example.com'', SelectedWorkspaceID = [], Workspaces = []\<rparr>
   \<and> keychain (snd (PerformLogin demo_prims (answering_api []) (\<lambda>m. m) (\<lambda>m. m)
      fresh_world ''bob@example.com'' ''hunter2'' (Some demo_sk) demo_pk))
        (serviceName, ''bob@example.com_private_key'') = Some (base64_EncodeToString demo_sk)"
  unfolding PerformLogin_answering_api
  by (simp add: PerformLogin_store_works(1,4,6) [OF storage_works_examples(2)]
      loaded_or_empty_examples empty_GlobalConfig_def PerformLogin_workspaces.simps(1))


end
